(* ===== verification/Rust_Base.thy ===== *)
theory Rust_Base
  imports Main "HOL-Library.Word"
begin

text \<open>
  The prelude of the development: what the other theories share.
  \<^item> Names for Rust's machine integers, and \<open>usize\<close> as \<^typ>\<open>nat\<close>.
  \<^item> The outcome of a Rust computation: a value, or a panic with its reason. Arithmetic that
    Rust checks (overflow checks on, as in the \<open>dev\<close> and \<open>test\<close> profiles) is written with
    the checked operations below, so that an overflow is the value \<open>Panic ArithOverflow\<close>.
  \<^item> The part of the \<open>bytes\<close> interface the sources use: \<open>put_*\<close> appends big-endian bytes,
    \<open>get_*\<close> reads from the front and panics when too few bytes are left, \<open>advance\<close> drops
    from the front.
  \<^item> \<open>BTreeMap\<close> as a list of entries searched in key order with the key type's own
    comparison, and the locale \<open>total_cmp\<close> of the laws a comparison has to satisfy on the keys
    in use for that search to be a map.
\<close>

subsection \<open>Machine integers\<close>

type_synonym u8 = "8 word"
type_synonym u16 = "16 word"
type_synonym u32 = "32 word"
type_synonym u64 = "64 word"
type_synonym u128 = "128 word"
type_synonym usize = nat
type_synonym bytes = "u8 list"

text \<open>Times are nanoseconds: an \<open>Instant\<close> counts from an arbitrary origin.\<close>

type_synonym instant = nat
type_synonym duration = nat

definition usize_MAX :: usize where
  "usize_MAX = 2 ^ 64 - 1"

definition from_millis :: "nat \<Rightarrow> duration" where
  "from_millis n = n * 1000000"

definition from_secs :: "nat \<Rightarrow> duration" where
  "from_secs n = n * 1000000000"

subsection \<open>Outcomes: a value or a panic\<close>

datatype panic =
    ArithOverflow          \<comment> \<open>checked arithmetic overflowed\<close>
  | BufUnderflow           \<comment> \<open>a \<open>Buf\<close> was read past its end\<close>
  | LossRecoveryNoPackets  \<comment> \<open>the explicit \<open>panic!\<close> of \<open>_poll_data_to_send\<close>\<close>
  | NotYetImplemented      \<comment> \<open>\<open>todo!()\<close> and \<open>unimplemented!()\<close>\<close>
  | AssertionFailed        \<comment> \<open>\<open>assert_eq!\<close>\<close>
  | UnwrapFailed           \<comment> \<open>\<open>unwrap\<close> on \<open>None\<close>, or an index out of range\<close>
  | PanicMessage           \<comment> \<open>any other explicit \<open>panic!\<close>\<close>
  | OutOfFuel              \<comment> \<open>not a Rust panic: the step bound of a modelled loop\<close>

datatype 'a rust = Ret 'a | Panic panic

fun bindR :: "'a rust \<Rightarrow> ('a \<Rightarrow> 'b rust) \<Rightarrow> 'b rust" where
  "bindR (Ret x) f = f x"
| "bindR (Panic p) f = Panic p"

definition returns :: "'a rust \<Rightarrow> bool" where
  "returns m = (case m of Ret _ \<Rightarrow> True | Panic _ \<Rightarrow> False)"

definition usize_sub :: "usize \<Rightarrow> usize \<Rightarrow> usize rust" where
  "usize_sub a b = (if b \<le> a then Ret (a - b) else Panic ArithOverflow)"

definition word_sub :: "'a::len word \<Rightarrow> 'a word \<Rightarrow> 'a word rust" where
  "word_sub a b = (if b \<le> a then Ret (a - b) else Panic ArithOverflow)"

definition word_add :: "'a::len word \<Rightarrow> 'a word \<Rightarrow> 'a word rust" where
  "word_add a b =
     (if unat a + unat b < 2 ^ LENGTH('a) then Ret (a + b) else Panic ArithOverflow)"

text \<open>The casts \<open>as u16\<close> and \<open>as u32\<close> of a \<open>usize\<close> truncate.\<close>

definition as_u16 :: "usize \<Rightarrow> u16" where
  "as_u16 n = of_nat n"

definition as_u32 :: "usize \<Rightarrow> u32" where
  "as_u32 n = of_nat n"

definition saturating_sub :: "'a::len word \<Rightarrow> 'a word \<Rightarrow> 'a word" where
  "saturating_sub a b = (if b \<le> a then a - b else 0)"

subsection \<open>Byte buffers\<close>

fun be_bytes :: "nat \<Rightarrow> nat \<Rightarrow> bytes" where
  "be_bytes 0 x = []"
| "be_bytes (Suc n) x = be_bytes n (x div 256) @ [of_nat (x mod 256)]"

definition be_nat :: "bytes \<Rightarrow> nat" where
  "be_nat bs = foldl (\<lambda>a b. a * 256 + unat b) 0 bs"

definition put_u16 :: "u16 \<Rightarrow> bytes" where
  "put_u16 w = be_bytes 2 (unat w)"

definition put_u32 :: "u32 \<Rightarrow> bytes" where
  "put_u32 w = be_bytes 4 (unat w)"

definition put_u64 :: "u64 \<Rightarrow> bytes" where
  "put_u64 w = be_bytes 8 (unat w)"

definition put_u128 :: "u128 \<Rightarrow> bytes" where
  "put_u128 w = be_bytes 16 (unat w)"

definition put_u32_le :: "u32 \<Rightarrow> bytes" where
  "put_u32_le w = rev (put_u32 w)"

definition put_zeros :: "usize \<Rightarrow> bytes" where
  "put_zeros n = replicate n 0"

definition get_word :: "nat \<Rightarrow> bytes \<Rightarrow> ('a::len word \<times> bytes) rust" where
  "get_word n d =
     (if length d < n then Panic BufUnderflow
      else Ret (of_nat (be_nat (take n d)), drop n d))"

definition get_u8 :: "bytes \<Rightarrow> (u8 \<times> bytes) rust" where
  "get_u8 d = get_word 1 d"

definition get_u16 :: "bytes \<Rightarrow> (u16 \<times> bytes) rust" where
  "get_u16 d = get_word 2 d"

definition get_u32 :: "bytes \<Rightarrow> (u32 \<times> bytes) rust" where
  "get_u32 d = get_word 4 d"

definition get_u64 :: "bytes \<Rightarrow> (u64 \<times> bytes) rust" where
  "get_u64 d = get_word 8 d"

definition get_u128 :: "bytes \<Rightarrow> (u128 \<times> bytes) rust" where
  "get_u128 d = get_word 16 d"

definition advance :: "bytes \<Rightarrow> usize \<Rightarrow> bytes rust" where
  "advance d n = (if length d < n then Panic BufUnderflow else Ret (drop n d))"

subsection \<open>Comparison and ordered maps\<close>

datatype ordering = Less | Equal | Greater

fun reverse_ordering :: "ordering \<Rightarrow> ordering" where
  "reverse_ordering Less = Greater"
| "reverse_ordering Equal = Equal"
| "reverse_ordering Greater = Less"

definition word_cmp :: "'a::len word \<Rightarrow> 'a word \<Rightarrow> ordering" where
  "word_cmp a b = (if a < b then Less else if a = b then Equal else Greater)"

text \<open>
  A \<open>BTreeMap\<close> as the list of its entries. A search walks the entries while the key compares
  greater than the entry's key and stops at the first that does not.
\<close>

type_synonym ('k, 'v) btree = "('k \<times> 'v) list"

fun bt_lookup :: "('k \<Rightarrow> 'k \<Rightarrow> ordering) \<Rightarrow> ('k, 'v) btree \<Rightarrow> 'k \<Rightarrow> 'v option" where
  "bt_lookup cmp [] k = None"
| "bt_lookup cmp ((k', v) # m) k =
     (case cmp k k' of
        Greater \<Rightarrow> bt_lookup cmp m k
      | Equal \<Rightarrow> Some v
      | Less \<Rightarrow> None)"

fun bt_insert :: "('k \<Rightarrow> 'k \<Rightarrow> ordering) \<Rightarrow> 'k \<Rightarrow> 'v \<Rightarrow> ('k, 'v) btree \<Rightarrow> ('k, 'v) btree" where
  "bt_insert cmp k v [] = [(k, v)]"
| "bt_insert cmp k v ((k', v') # m) =
     (case cmp k k' of
        Greater \<Rightarrow> (k', v') # bt_insert cmp k v m
      | Equal \<Rightarrow> (k', v) # m
      | Less \<Rightarrow> (k, v) # (k', v') # m)"

fun bt_remove :: "('k \<Rightarrow> 'k \<Rightarrow> ordering) \<Rightarrow> 'k \<Rightarrow> ('k, 'v) btree \<Rightarrow> ('k, 'v) btree" where
  "bt_remove cmp k [] = []"
| "bt_remove cmp k ((k', v') # m) =
     (case cmp k k' of
        Greater \<Rightarrow> (k', v') # bt_remove cmp k m
      | Equal \<Rightarrow> m
      | Less \<Rightarrow> (k', v') # m)"

definition bt_sorted :: "('k \<Rightarrow> 'k \<Rightarrow> ordering) \<Rightarrow> ('k, 'v) btree \<Rightarrow> bool" where
  "bt_sorted cmp m = sorted_wrt (\<lambda>a b. cmp (fst a) (fst b) = Less) m"

subsection \<open>Collections and shared lemmas\<close>

named_theorems wire \<open>reading back what was just written\<close>
named_theorems wire_length \<open>the number of bytes written\<close>
named_theorems outcome \<open>elimination of binds and checked arithmetic\<close>

lemma bindR_eq_Ret [outcome]: "bindR m f = Ret y \<longleftrightarrow> (\<exists>x. m = Ret x \<and> f x = Ret y)"
  by (cases m) auto

lemma bindR_eq_Panic:
  "bindR m f = Panic p \<longleftrightarrow> m = Panic p \<or> (\<exists>x. m = Ret x \<and> f x = Panic p)"
  by (cases m) auto

lemma bindR_assoc: "bindR (bindR m f) g = bindR m (\<lambda>x. bindR (f x) g)"
  by (cases m) auto

lemma bindR_cong [fundef_cong]:
  "m = m' \<Longrightarrow> (\<And>x. m' = Ret x \<Longrightarrow> f x = g x) \<Longrightarrow> bindR m f = bindR m' g"
  by (cases m') auto

lemma returns_simps [simp]: "returns (Ret x)" "\<not> returns (Panic p)"
  by (simp_all add: returns_def)

lemma returns_iff: "returns m \<longleftrightarrow> (\<exists>x. m = Ret x)"
  by (cases m) auto

lemma returns_bindR:
  "returns (bindR m f) \<longleftrightarrow> (\<exists>x. m = Ret x \<and> returns (f x))"
  by (cases m) auto

lemma usize_sub_le [simp]: "b \<le> a \<Longrightarrow> usize_sub a b = Ret (a - b)"
  by (simp add: usize_sub_def)

lemma usize_sub_eq_Ret [outcome]: "usize_sub a b = Ret c \<longleftrightarrow> b \<le> a \<and> c = a - b"
  by (auto simp: usize_sub_def)

lemma word_sub_eq_Ret [outcome]: "word_sub a b = Ret c \<longleftrightarrow> b \<le> a \<and> c = a - b"
  by (auto simp: word_sub_def)

lemma word_add_eq_Ret [outcome]:
  "word_add (a :: 'a::len word) b = Ret c
     \<longleftrightarrow> unat a + unat b < 2 ^ LENGTH('a) \<and> c = a + b"
  by (auto simp: word_add_def)

lemma unat_as_u16: "n < 65536 \<Longrightarrow> unat (as_u16 n) = n"
  by (simp add: as_u16_def unat_of_nat)

lemma unat_as_u32: "n < 4294967296 \<Longrightarrow> unat (as_u32 n) = n"
  by (simp add: as_u32_def unat_of_nat)

lemma as_u32_unat [simp]: "as_u32 (unat w) = w"
  by (simp add: as_u32_def)

subsubsection \<open>Big-endian bytes\<close>

lemma unat_bound: "unat (w :: 'a::len word) < 2 ^ LENGTH('a)"
  by (rule unsigned_less)

lemma unat_u8: "unat (b :: u8) < 256"
  using unat_bound [of b] by simp

lemma length_be_bytes [simp]: "length (be_bytes n x) = n"
  by (induction n arbitrary: x) auto

lemma be_nat_Nil [simp]: "be_nat [] = 0"
  by (simp add: be_nat_def)

lemma be_nat_snoc [simp]: "be_nat (bs @ [b]) = be_nat bs * 256 + unat b"
  by (simp add: be_nat_def)

lemma be_nat_be_bytes: "be_nat (be_bytes n x) = x mod 256 ^ n"
proof (induction n arbitrary: x)
  case 0
  then show ?case by simp
next
  case (Suc n)
  have "unat (of_nat (x mod 256) :: u8) = x mod 256"
    by (simp add: unat_of_nat)
  moreover have "x mod 256 ^ Suc n = (x div 256 mod 256 ^ n) * 256 + x mod 256"
    by (simp add: mod_mult2_eq mult.commute)
  ultimately show ?case
    by (simp add: Suc.IH)
qed

lemma be_nat_bound: "be_nat bs < 256 ^ length bs"
proof (induction bs rule: rev_induct)
  case Nil
  then show ?case by simp
next
  case (snoc b bs)
  have "unat b < 256"
    by (rule unat_u8)
  with snoc.IH show ?case by simp
qed

lemma be_bytes_be_nat: "be_bytes (length bs) (be_nat bs) = bs"
proof (induction bs rule: rev_induct)
  case Nil
  then show ?case by simp
next
  case (snoc b bs)
  have "unat b < 256"
    by (rule unat_u8)
  then have "(be_nat bs * 256 + unat b) div 256 = be_nat bs"
    and "(be_nat bs * 256 + unat b) mod 256 = unat b"
    by simp_all
  with snoc.IH show ?case by simp
qed

lemma get_word_put:
  "LENGTH('a::len) = 8 * n \<Longrightarrow> get_word n (be_bytes n (unat (w :: 'a word)) @ r) = Ret (w, r)"
  using unat_bound [of w]
  by (simp add: get_word_def be_nat_be_bytes power_mult)

lemma length_put [simp, wire_length]:
  "length (put_u16 a) = 2" "length (put_u32 b) = 4" "length (put_u64 c) = 8"
  "length (put_u128 d) = 16" "length (put_u32_le b) = 4" "length (put_zeros n) = n"
  by (simp_all add: put_u16_def put_u32_def put_u64_def put_u128_def put_u32_le_def put_zeros_def)

lemma get_put [simp, wire]:
  "get_u8 (x # r) = Ret (x, r)"
  "get_u16 (put_u16 a @ r) = Ret (a, r)"
  "get_u32 (put_u32 b @ r) = Ret (b, r)"
  "get_u64 (put_u64 c @ r) = Ret (c, r)"
  "get_u128 (put_u128 d @ r) = Ret (d, r)"
  by (simp_all add: get_u8_def get_u16_def get_u32_def get_u64_def get_u128_def put_u16_def
      put_u32_def put_u64_def put_u128_def get_word_put, simp add: get_word_def be_nat_def)

lemma get_put_only [simp, wire]:
  "get_u16 (put_u16 a) = Ret (a, [])"
  "get_u32 (put_u32 b) = Ret (b, [])"
  "get_u64 (put_u64 c) = Ret (c, [])"
  "get_u128 (put_u128 d) = Ret (d, [])"
  using get_put [where r = "[]"] by simp_all

text \<open>A read succeeds exactly when enough bytes are left, and leaves the rest.\<close>

lemma get_word_eq_Ret [outcome]:
  "get_word n d = Ret (w, r) \<longleftrightarrow>
     n \<le> length d \<and> w = of_nat (be_nat (take n d)) \<and> r = drop n d"
  by (auto simp: get_word_def)

lemmas get_defs = get_u8_def get_u16_def get_u32_def get_u64_def get_u128_def

lemma get_eq_Ret [outcome]:
  "get_u8 d = Ret (w8, r) \<longleftrightarrow> 1 \<le> length d \<and> w8 = of_nat (be_nat (take 1 d)) \<and> r = drop 1 d"
  "get_u16 d = Ret (w16, r) \<longleftrightarrow> 2 \<le> length d \<and> w16 = of_nat (be_nat (take 2 d)) \<and> r = drop 2 d"
  "get_u32 d = Ret (w32, r) \<longleftrightarrow> 4 \<le> length d \<and> w32 = of_nat (be_nat (take 4 d)) \<and> r = drop 4 d"
  "get_u64 d = Ret (w64, r) \<longleftrightarrow> 8 \<le> length d \<and> w64 = of_nat (be_nat (take 8 d)) \<and> r = drop 8 d"
  "get_u128 d = Ret (w128, r) \<longleftrightarrow> 16 \<le> length d \<and> w128 = of_nat (be_nat (take 16 d)) \<and> r = drop 16 d"
  by (simp_all add: get_defs get_word_eq_Ret)

text \<open>Reads with a length side condition, for rewriting.\<close>

lemma get_enough:
  "1 \<le> length d \<Longrightarrow> get_u8 d = Ret (of_nat (be_nat (take 1 d)), drop 1 d)"
  "2 \<le> length d \<Longrightarrow> get_u16 d = Ret (of_nat (be_nat (take 2 d)), drop 2 d)"
  "4 \<le> length d \<Longrightarrow> get_u32 d = Ret (of_nat (be_nat (take 4 d)), drop 4 d)"
  "8 \<le> length d \<Longrightarrow> get_u64 d = Ret (of_nat (be_nat (take 8 d)), drop 8 d)"
  "16 \<le> length d \<Longrightarrow> get_u128 d = Ret (of_nat (be_nat (take 16 d)), drop 16 d)"
  by (simp_all add: get_eq_Ret)

lemma get_too_short:
  "length d < 1 \<Longrightarrow> get_u8 d = Panic BufUnderflow"
  "length d < 2 \<Longrightarrow> get_u16 d = Panic BufUnderflow"
  "length d < 4 \<Longrightarrow> get_u32 d = Panic BufUnderflow"
  "length d < 8 \<Longrightarrow> get_u64 d = Panic BufUnderflow"
  "length d < 16 \<Longrightarrow> get_u128 d = Panic BufUnderflow"
  by (simp_all add: get_defs get_word_def)

lemma get_returns:
  "1 \<le> length d \<Longrightarrow> \<exists>w. get_u8 d = Ret (w, drop 1 d)"
  "2 \<le> length d \<Longrightarrow> \<exists>w. get_u16 d = Ret (w, drop 2 d)"
  "4 \<le> length d \<Longrightarrow> \<exists>w. get_u32 d = Ret (w, drop 4 d)"
  "8 \<le> length d \<Longrightarrow> \<exists>w. get_u64 d = Ret (w, drop 8 d)"
  "16 \<le> length d \<Longrightarrow> \<exists>w. get_u128 d = Ret (w, drop 16 d)"
  by (auto simp add: get_defs get_word_def)

lemma advance_le [simp]: "n \<le> length d \<Longrightarrow> advance d n = Ret (drop n d)"
  by (simp add: advance_def)

lemma advance_append [simp, wire]: "length p = n \<Longrightarrow> advance (p @ d) n = Ret d"
  by (auto simp: advance_def)

subsubsection \<open>Sums over lists\<close>

lemma sum_list_map_filter_le:
  "(\<Sum>x \<leftarrow> filter P xs. f x) \<le> (\<Sum>x \<leftarrow> xs. (f x :: nat))"
  by (induction xs) auto

lemma member_le_sum_list_map: "x \<in> set xs \<Longrightarrow> f x \<le> (\<Sum>x \<leftarrow> xs. (f x :: nat))"
  by (induction xs) auto

lemma sum_list_map_update:
  "i < length xs \<Longrightarrow>
     (\<Sum>x \<leftarrow> xs[i := y]. f x) + f (xs ! i) = (\<Sum>x \<leftarrow> xs. f x) + (f y :: nat)"
proof (induction xs arbitrary: i)
  case Nil
  then show ?case by simp
next
  case (Cons x xs)
  show ?case
  proof (cases i)
    case 0
    then show ?thesis by simp
  next
    case (Suc j)
    with Cons show ?thesis by (simp add: add.assoc)
  qed
qed

subsection \<open>Runs of a component\<close>

text \<open>
  A component is driven by a sequence of events, each handled by a step that returns the next
  state or panics; a panic ends the run.
\<close>

fun runR :: "('e \<Rightarrow> 's \<Rightarrow> 's rust) \<Rightarrow> 'e list \<Rightarrow> 's \<Rightarrow> 's rust" where
  "runR step [] s = Ret s"
| "runR step (e # es) s = bindR (step e s) (runR step es)"

lemma runR_append: "runR step (es @ fs) s = bindR (runR step es s) (runR step fs)"
proof (induction es arbitrary: s)
  case (Cons e es)
  then show ?case by (cases "step e s") simp_all
qed simp

lemma runR_single: "runR step [e] = step e"
proof
  show "runR step [e] s = step e s" for s
    by (cases "step e s") simp_all
qed

text \<open>
  The contract of such a component: the admissible events keep its invariant. Everything
  reachable by admissible events then satisfies it. A component that relates the states
  before and after (a monotone quantity, a refinement of another machine) uses the second
  locale, whose relation is a preorder that every step respects.
\<close>

locale invariant_system =
  fixes step :: "'e \<Rightarrow> 's \<Rightarrow> 's rust"
    and ok :: "'e \<Rightarrow> bool"
    and inv :: "'s \<Rightarrow> bool"
  assumes step_inv: "inv s \<Longrightarrow> ok e \<Longrightarrow> step e s = Ret s' \<Longrightarrow> inv s'"
begin

lemma run_inv: "inv s \<Longrightarrow> list_all ok es \<Longrightarrow> runR step es s = Ret s' \<Longrightarrow> inv s'"
proof (induction es arbitrary: s)
  case (Cons e es)
  then obtain t where "step e s = Ret t" and "runR step es t = Ret s'"
    by (auto simp: outcome)
  with Cons show ?case by (auto intro: step_inv)
qed simp

end

locale ordered_system = invariant_system +
  fixes below :: "'s \<Rightarrow> 's \<Rightarrow> bool"
  assumes below_refl: "below s s"
    and below_trans: "below s t \<Longrightarrow> below t u \<Longrightarrow> below s u"
    and step_below: "inv s \<Longrightarrow> ok e \<Longrightarrow> step e s = Ret s' \<Longrightarrow> below s s'"
begin

lemma run_below: "inv s \<Longrightarrow> list_all ok es \<Longrightarrow> runR step es s = Ret s' \<Longrightarrow> below s s'"
proof (induction es arbitrary: s)
  case Nil
  then show ?case by (simp add: below_refl)
next
  case (Cons e es)
  then obtain t where "step e s = Ret t" and "runR step es t = Ret s'"
    by (auto simp: outcome)
  with Cons show ?case
    by (auto intro: below_trans [OF step_below] step_inv)
qed

end

subsubsection \<open>Sums over the entries of an ordered map\<close>

text \<open>These need no law of the comparison: the searches of the map all take the same path.\<close>

lemma bt_lookup_insert: "cmp k k = Equal \<Longrightarrow> bt_lookup cmp (bt_insert cmp k v m) k = Some v"
  by (induction m) (auto split: ordering.splits)

lemma bt_remove_insert:
  "cmp k k = Equal \<Longrightarrow> bt_lookup cmp m k = None \<Longrightarrow> bt_remove cmp k (bt_insert cmp k v m) = m"
  by (induction m) (auto split: ordering.splits)

lemma bt_insert_insert:
  "cmp k k = Equal \<Longrightarrow> bt_insert cmp k w (bt_insert cmp k v m) = bt_insert cmp k w m"
  by (induction m) (auto split: ordering.splits)

lemma sum_bt_insert_new:
  "bt_lookup cmp m k = None \<Longrightarrow>
     (\<Sum>e \<leftarrow> bt_insert cmp k v m. f (snd e)) = (\<Sum>e \<leftarrow> m. f (snd e)) + (f v :: nat)"
  by (induction m) (auto split: ordering.splits)

lemma set_bt_insert_new:
  "bt_lookup cmp m k = None \<Longrightarrow> set (bt_insert cmp k v m) = insert (k, v) (set m)"
  by (induction m) (auto split: ordering.splits)

lemma sum_bt_insert_old:
  "bt_lookup cmp m k = Some w \<Longrightarrow>
     (\<Sum>e \<leftarrow> bt_insert cmp k v m. f (snd e)) + f w = (\<Sum>e \<leftarrow> m. f (snd e)) + (f v :: nat)"
  by (induction m) (auto split: ordering.splits)

lemma sum_bt_remove:
  "bt_lookup cmp m k = Some w \<Longrightarrow>
     (\<Sum>e \<leftarrow> bt_remove cmp k m. f (snd e)) + (f w :: nat) = (\<Sum>e \<leftarrow> m. f (snd e))"
  by (induction m) (auto split: ordering.splits)

subsection \<open>The ordered-map interface\<close>

text \<open>
  What a comparison owes to the ordered map: on the set \<open>K\<close> of keys in use it is a strict
  total order whose \<open>Equal\<close> is equality. Under these laws the searches above are those of a map.
\<close>

locale total_cmp =
  fixes cmp :: "'k \<Rightarrow> 'k \<Rightarrow> ordering"
    and K :: "'k set"
  assumes cmp_Equal: "a \<in> K \<Longrightarrow> b \<in> K \<Longrightarrow> cmp a b = Equal \<longleftrightarrow> a = b"
    and cmp_swap: "a \<in> K \<Longrightarrow> b \<in> K \<Longrightarrow> cmp b a = reverse_ordering (cmp a b)"
    and cmp_trans: "a \<in> K \<Longrightarrow> b \<in> K \<Longrightarrow> c \<in> K \<Longrightarrow>
      cmp a b = Less \<Longrightarrow> cmp b c = Less \<Longrightarrow> cmp a c = Less"
begin

lemma cmp_Greater: "a \<in> K \<Longrightarrow> b \<in> K \<Longrightarrow> cmp a b = Greater \<longleftrightarrow> cmp b a = Less"
  by (cases "cmp a b") (auto simp: cmp_swap [of a b])

lemma keys_insert: "k \<in> K \<Longrightarrow> fst ` set m \<subseteq> K \<Longrightarrow> fst ` set (bt_insert cmp k v m) = insert k (fst ` set m)"
proof (induction m)
  case Nil
  then show ?case by simp
next
  case (Cons e m)
  then show ?case
    by (cases e) (simp split: ordering.splits add: cmp_Equal insert_commute)
qed

lemma entries_remove: "set (bt_remove cmp k m) \<subseteq> set m"
  by (induction m) (auto split: ordering.splits)

lemma sorted_insert:
  "k \<in> K \<Longrightarrow> fst ` set m \<subseteq> K \<Longrightarrow> bt_sorted cmp m \<Longrightarrow> bt_sorted cmp (bt_insert cmp k v m)"
proof (induction m)
  case Nil
  then show ?case by (simp add: bt_sorted_def)
next
  case (Cons e m)
  obtain k' v' where e: "e = (k', v')" by fastforce
  have IH: "bt_sorted cmp (bt_insert cmp k v m)"
    using Cons by (simp add: bt_sorted_def)
  have k': "k' \<in> K" and m: "fst ` set m \<subseteq> K"
    using Cons.prems e by auto
  have tail: "\<forall>x \<in> fst ` set m. cmp k' x = Less"
    using Cons.prems(3) by (auto simp: bt_sorted_def e)
  show ?case
  proof (cases "cmp k k'")
    case Less
    then have "\<forall>x \<in> fst ` set m. cmp k x = Less"
      using tail cmp_trans Cons.prems(1) k' m by blast
    with Less Cons.prems(3) show ?thesis
      by (auto simp: bt_sorted_def e)
  next
    case Equal
    with Cons.prems(3) show ?thesis
      by (auto simp: bt_sorted_def e)
  next
    case Greater
    then have "cmp k' k = Less"
      using cmp_Greater Cons.prems(1) k' by blast
    then have "\<forall>x \<in> fst ` set (bt_insert cmp k v m). cmp k' x = Less"
      using tail keys_insert [OF Cons.prems(1) m] by simp
    with Greater IH show ?thesis
      by (auto simp: bt_sorted_def e)
  qed
qed

lemma lookup_map_of:
  "k \<in> K \<Longrightarrow> fst ` set m \<subseteq> K \<Longrightarrow> bt_sorted cmp m \<Longrightarrow> bt_lookup cmp m k = map_of m k"
proof (induction m)
  case Nil
  then show ?case by simp
next
  case (Cons e m)
  obtain k' v' where e: "e = (k', v')" by fastforce
  have k': "k' \<in> K" and m: "fst ` set m \<subseteq> K"
    using Cons.prems e by auto
  have tail: "\<forall>x \<in> fst ` set m. cmp k' x = Less"
    using Cons.prems(3) by (auto simp: bt_sorted_def e)
  show ?case
  proof (cases "cmp k k'")
    case Less
    then have "k \<noteq> k'"
      using cmp_Equal [OF Cons.prems(1) k'] by auto
    moreover have "k \<notin> fst ` set m"
    proof
      assume "k \<in> fst ` set m"
      with tail have "cmp k' k = Less" by blast
      with Less show False
        using cmp_swap [OF Cons.prems(1) k'] by simp
    qed
    ultimately show ?thesis
      using Less by (simp add: e, metis map_of_eq_None_iff)
  next
    case Equal
    then show ?thesis
      using cmp_Equal [OF Cons.prems(1) k'] by (simp add: e)
  next
    case Greater
    then have "k \<noteq> k'"
      using cmp_Equal [OF Cons.prems(1) k'] by auto
    with Greater Cons.IH [OF Cons.prems(1) m] Cons.prems(3) show ?thesis
      by (simp add: e bt_sorted_def)
  qed
qed

lemma sorted_distinct_keys:
  "fst ` set m \<subseteq> K \<Longrightarrow> bt_sorted cmp m \<Longrightarrow> distinct (map fst m)"
proof (induction m)
  case Nil
  then show ?case by simp
next
  case (Cons e m)
  then have "fst e \<notin> fst ` set m"
    using cmp_Equal by (fastforce simp: bt_sorted_def)
  with Cons show ?case
    by (simp add: bt_sorted_def)
qed

end

end
