(* ===== verification/Serial.thy ===== *)
theory Serial
  imports Rust_Base
begin

text \<open>
  The serial numbers of \<open>src/packet.rs\<close>: \<open>Sequence\<close> (a stream sequence number, \<open>u16\<close>) and
  \<open>Tsn\<close> (a transmission sequence number, \<open>u32\<close>), with their wrapping successor and
  predecessor and their own \<open>Ord\<close>: the plain order of the integers, except that a number in
  the lowest 1/128 of the range compares greater than one in the highest 1/128.
  The lemmas show how far that comparison is serial-number arithmetic, on which sets of
  numbers it is a total order (the keys of the receiver's ordered maps lie in such a set), and
  that it is no order on the whole type.
\<close>

type_synonym sequence = u16
type_synonym tsn = u32

definition seq_increase :: "sequence \<Rightarrow> sequence" where
  "seq_increase s = s + 1"

definition seq_decrease :: "sequence \<Rightarrow> sequence" where
  "seq_decrease s = s - 1"

definition seq_cmp :: "sequence \<Rightarrow> sequence \<Rightarrow> ordering" where
  "seq_cmp self other =
     (let WRAP_RAD = 65535 div 128;
          WRAP_HI = 65535 - WRAP_RAD;
          WRAP_LO = WRAP_RAD
      in if self < WRAP_LO \<and> other > WRAP_HI then Greater
         else if other < WRAP_LO \<and> self > WRAP_HI then Less
         else word_cmp self other)"

definition tsn_increase :: "tsn \<Rightarrow> tsn" where
  "tsn_increase t = t + 1"

definition tsn_decrease :: "tsn \<Rightarrow> tsn" where
  "tsn_decrease t = t - 1"

definition tsn_cmp :: "tsn \<Rightarrow> tsn \<Rightarrow> ordering" where
  "tsn_cmp self other =
     (let WRAP_RAD = 4294967295 div 128;
          WRAP_HI = 4294967295 - WRAP_RAD;
          WRAP_LO = WRAP_RAD
      in if self < WRAP_LO \<and> other > WRAP_HI then Greater
         else if other < WRAP_LO \<and> self > WRAP_HI then Less
         else word_cmp self other)"

text \<open>The comparison operators \<open>PartialOrd\<close> derives from \<open>cmp\<close>.\<close>

definition tsn_lt :: "tsn \<Rightarrow> tsn \<Rightarrow> bool" where
  "tsn_lt a b = (tsn_cmp a b = Less)"

definition tsn_le :: "tsn \<Rightarrow> tsn \<Rightarrow> bool" where
  "tsn_le a b = (tsn_cmp a b \<noteq> Greater)"

text \<open>The numbers that compare greater than \<open>c\<close>, together with \<open>c\<close>.\<close>

definition tsn_window :: "tsn \<Rightarrow> tsn set" where
  "tsn_window c = {t. t = c \<or> tsn_cmp t c = Greater}"

definition seq_window :: "sequence \<Rightarrow> sequence set" where
  "seq_window c = {t. t = c \<or> seq_cmp t c = Greater}"

subsection \<open>The comparisons over the naturals\<close>

lemma tsn_cmp_nat:
  "tsn_cmp a b =
     (if unat a < 33554431 \<and> 4261412864 < unat b then Greater
      else if unat b < 33554431 \<and> 4261412864 < unat a then Less
      else if unat a < unat b then Less
      else if unat a = unat b then Equal else Greater)"
  by (simp add: tsn_cmp_def word_cmp_def word_less_nat_alt word_unat_eq_iff)

lemma seq_cmp_nat:
  "seq_cmp a b =
     (if unat a < 511 \<and> 65024 < unat b then Greater
      else if unat b < 511 \<and> 65024 < unat a then Less
      else if unat a < unat b then Less
      else if unat a = unat b then Equal else Greater)"
  by (simp add: seq_cmp_def word_cmp_def word_less_nat_alt word_unat_eq_iff)

lemma tsn_cmp_refl [simp]: "tsn_cmp a a = Equal"
  by (simp add: tsn_cmp_nat)

lemma seq_cmp_refl [simp]: "seq_cmp a a = Equal"
  by (simp add: seq_cmp_nat)

lemma tsn_cmp_Equal [simp]: "tsn_cmp a b = Equal \<longleftrightarrow> a = b"
  by (auto simp: tsn_cmp_nat word_unat_eq_iff)

lemma tsn_cmp_swap: "tsn_cmp b a = reverse_ordering (tsn_cmp a b)"
  by (auto simp: tsn_cmp_nat)

lemma seq_cmp_Equal [simp]: "seq_cmp a b = Equal \<longleftrightarrow> a = b"
  by (auto simp: seq_cmp_nat word_unat_eq_iff)

lemma seq_cmp_swap: "seq_cmp b a = reverse_ordering (seq_cmp a b)"
  by (auto simp: seq_cmp_nat)

lemma tsn_cmp_Greater_iff: "tsn_cmp a b = Greater \<longleftrightarrow> tsn_cmp b a = Less"
  by (auto simp: tsn_cmp_nat)

lemma unat_u32_bound: "unat (a :: u32) \<le> 4294967295"
  using unat_bound [of a] by simp

lemma unat_u16_bound: "unat (a :: u16) \<le> 65535"
  using unat_bound [of a] by simp

lemma unat_u32_add: "unat (a + b :: u32) = (unat a + unat b) mod 4294967296"
  by (simp add: unat_word_ariths)

lemma unat_u16_add: "unat (a + b :: u16) = (unat a + unat b) mod 65536"
  by (simp add: unat_word_ariths)

lemma mod_u32_cases:
  "n \<le> 4294967295 \<Longrightarrow> k \<le> 4294967295 \<Longrightarrow>
     (n + k) mod 4294967296 = (if n + k \<le> 4294967295 then n + k else n + k - (4294967296 :: nat))"
  by (auto simp: le_mod_geq)

lemma mod_u16_cases:
  "n \<le> 65535 \<Longrightarrow> k \<le> 65535 \<Longrightarrow>
     (n + k) mod 65536 = (if n + k \<le> 65535 then n + k else n + k - (65536 :: nat))"
  by (auto simp: le_mod_geq)

subsection \<open>Serial-number arithmetic inside the wrap radius\<close>

lemma tsn_ahead_Greater:
  "0 < unat k \<Longrightarrow> unat k \<le> 33554431 \<Longrightarrow> tsn_cmp (t + k) t = Greater"
  using unat_u32_bound [of t]
  by (auto simp: tsn_cmp_nat unat_u32_add mod_u32_cases)

lemma seq_ahead_Greater:
  "0 < unat k \<Longrightarrow> unat k \<le> 511 \<Longrightarrow> seq_cmp (t + k) t = Greater"
  using unat_u16_bound [of t]
  by (auto simp: seq_cmp_nat unat_u16_add mod_u16_cases)

lemma tsn_cmp_increase [simp]: "tsn_cmp (tsn_increase t) t = Greater"
  using tsn_ahead_Greater [of 1 t] by (simp add: tsn_increase_def)

lemma tsn_cmp_lt_increase [simp]: "tsn_cmp t (tsn_increase t) = Less"
  using tsn_cmp_increase [of t] by (simp only: tsn_cmp_Greater_iff)

lemma tsn_increase_neq [simp]: "tsn_increase t \<noteq> t" "t \<noteq> tsn_increase t"
  by (simp_all add: tsn_increase_def)

lemma tsn_decrease_increase [simp]: "tsn_increase (tsn_decrease t) = t"
  by (simp add: tsn_increase_def tsn_decrease_def)

lemma tsn_later: "0 < d \<Longrightarrow> d \<le> 33554431 \<Longrightarrow> tsn_cmp (t + of_nat d) t = Greater"
  by (rule tsn_ahead_Greater) (simp_all add: unat_of_nat)

lemma tsn_cmp_offsets:
  assumes "i < k" and "k \<le> 33554431"
  shows "tsn_cmp (t + of_nat k) (t + of_nat i) = Greater"
proof -
  have "t + of_nat i + of_nat (k - i) = t + of_nat k"
    using assms(1) by (simp add: of_nat_diff)
  then show ?thesis
    using tsn_later [of "k - i" "t + of_nat i"] assms by simp
qed

lemma tsn_le_offsets:
  assumes "i \<le> 33554431" and "k \<le> 33554431"
  shows "tsn_le (t + of_nat i) (t + of_nat k) \<longleftrightarrow> i \<le> k"
proof (cases i k rule: linorder_cases)
  case less
  then have "tsn_cmp (t + of_nat i) (t + of_nat k) = Less"
    using tsn_cmp_offsets assms(2) tsn_cmp_Greater_iff by blast
  then show ?thesis
    using less by (simp add: tsn_le_def)
next
  case greater
  then show ?thesis
    using tsn_cmp_offsets assms(1) by (simp add: tsn_le_def)
qed (simp add: tsn_le_def)

text \<open>What is ahead of a number and is not its successor is ahead of the successor.\<close>

lemma unat_tsn_increase: "unat (tsn_increase t) = (if unat t = 4294967295 then 0 else unat t + 1)"
  using unat_u32_bound [of t] by (auto simp: tsn_increase_def unat_u32_add mod_u32_cases)

lemma tsn_window_step:
  "tsn_cmp t c = Greater \<Longrightarrow> t \<in> tsn_window (tsn_increase c)"
  using unat_u32_bound [of t]
  by (auto simp: tsn_window_def tsn_cmp_nat unat_tsn_increase word_unat_eq_iff split: if_splits)

subsection \<open>Where the comparison is a total order\<close>

interpretation tsn_order: total_cmp tsn_cmp "tsn_window c" for c
proof
  show "a \<in> tsn_window c \<Longrightarrow> b \<in> tsn_window c \<Longrightarrow> (tsn_cmp a b = Equal) = (a = b)" for a b
    by simp
  show "a \<in> tsn_window c \<Longrightarrow> b \<in> tsn_window c \<Longrightarrow> tsn_cmp b a = reverse_ordering (tsn_cmp a b)"
    for a b
    by (rule tsn_cmp_swap)
  show "x \<in> tsn_window c \<Longrightarrow> y \<in> tsn_window c \<Longrightarrow> z \<in> tsn_window c \<Longrightarrow>
      tsn_cmp x y = Less \<Longrightarrow> tsn_cmp y z = Less \<Longrightarrow> tsn_cmp x z = Less" for x y z
    by (auto simp: tsn_window_def tsn_cmp_nat split: if_splits)
qed

interpretation seq_order: total_cmp seq_cmp "seq_window c" for c
proof
  show "a \<in> seq_window c \<Longrightarrow> b \<in> seq_window c \<Longrightarrow> (seq_cmp a b = Equal) = (a = b)" for a b
    by simp
  show "a \<in> seq_window c \<Longrightarrow> b \<in> seq_window c \<Longrightarrow> seq_cmp b a = reverse_ordering (seq_cmp a b)"
    for a b
    by (rule seq_cmp_swap)
  show "x \<in> seq_window c \<Longrightarrow> y \<in> seq_window c \<Longrightarrow> z \<in> seq_window c \<Longrightarrow>
      seq_cmp x y = Less \<Longrightarrow> seq_cmp y z = Less \<Longrightarrow> seq_cmp x z = Less" for x y z
    by (auto simp: seq_window_def seq_cmp_nat split: if_splits)
qed

subsection \<open>Properties\<close>

text \<open>
  Inside the wrap radius the TSN comparison is serial-number comparison: a number that is
  between 1 and \<open>u32::MAX / 128\<close> steps ahead of \<open>t\<close>, counting modulo 2^32, compares greater
  than \<open>t\<close>, and \<open>t\<close> compares less than it, wherever \<open>t\<close> lies, wrap-around included. The
  radius is exact: one step further the comparison is the opposite for some \<open>t\<close>.
\<close>

theorem tsn_cmp_ahead:
  "(\<forall>t k. 0 < unat k \<and> unat k \<le> 4294967295 div 128 \<longrightarrow>
      tsn_cmp (t + k) t = Greater \<and> tsn_cmp t (t + k) = Less) \<and>
   (\<exists>t k. unat k = 4294967295 div 128 + 1 \<and> tsn_cmp (t + k) t = Less)"
proof (intro conjI allI impI)
  fix t k :: u32
  assume k: "0 < unat k \<and> unat k \<le> 4294967295 div 128"
  then show "tsn_cmp (t + k) t = Greater"
    by (simp add: tsn_ahead_Greater)
  then show "tsn_cmp t (t + k) = Less"
    by (simp only: tsn_cmp_Greater_iff)
next
  have "tsn_cmp (4261412864 + 33554432) 4261412864 = Less"
    by (simp add: tsn_cmp_nat)
  then show "\<exists>t k. unat k = 4294967295 div 128 + 1 \<and> tsn_cmp (t + k) t = Less"
    by (intro exI [of _ 4261412864] exI [of _ 33554432]) simp
qed

theorem tsn_cmp_ahead_witness:
  "tsn_cmp (4294967290 + 10) 4294967290 = Greater \<and> tsn_cmp 4294967290 (4294967290 + 10) = Less"
  using conjunct1 [OF tsn_cmp_ahead, rule_format, of 10 4294967290] by simp

text \<open>
  On the whole type the TSN comparison is not transitive: \<open>Tsn(1) < Tsn(2^31) <
  Tsn(u32::MAX)\<close>, and yet \<open>Tsn(1) > Tsn(u32::MAX)\<close>. It breaks the contract of \<open>Ord\<close>
  (and of the keys of a \<open>BTreeMap\<close>) unless the numbers compared lie in one window.
\<close>

theorem tsn_cmp_not_transitive:
  "tsn_cmp 1 (2 ^ 31) = Less \<and> tsn_cmp (2 ^ 31) 4294967295 = Less
     \<and> tsn_cmp 1 4294967295 = Greater"
  by (simp add: tsn_cmp_nat)

end
