(* ===== verification/Addr.thy ===== *)
theory Addr
  imports Serial
begin

text \<open>
  Addresses (\<open>src/lib.rs\<close>). The trait \<open>FakeAddr\<close> is an interface the library is generic in:
  its three operations are the record \<open>fake_addr_impl\<close> the model's definitions take as an
  argument, its contract is the locale \<open>fake_addr\<close>, and the two implementations of the crate,
  \<open>u64\<close> and \<open>SocketAddr\<close>, are interpretations of it. Also here: \<open>TransportAddress\<close>, the
  association identifier and alias, and the chunk parser's error type (\<open>src/packet.rs\<close>),
  which the trait's \<open>parse\<close> returns.
\<close>

datatype parse_error =
    Unrecognized bool bool  \<comment> \<open>\<open>report\<close>, \<open>stop\<close>\<close>
  | IllegalFormat
  | Done

record 'f fake_addr_impl =
  fa_parse :: "bytes \<Rightarrow> (parse_error + 'f \<times> bytes) rust"
  fa_serialize :: "'f \<Rightarrow> bytes"
  fa_serialized_size :: "'f \<Rightarrow> usize"

definition fake_addr_u64 :: "u64 fake_addr_impl" where
  "fake_addr_u64 =
     \<lparr> fa_parse = (\<lambda>buf.
         if length buf < 8 then Ret (Inl IllegalFormat)
         else bindR (get_u64 buf) (\<lambda>(a, buf). Ret (Inr (a, buf)))),
       fa_serialize = put_u64,
       fa_serialized_size = (\<lambda>_. 8) \<rparr>"

datatype socket_addr =
    V4 u32 u16          \<comment> \<open>\<open>ip\<close>, \<open>port\<close>\<close>
  | V6 u128 u16 u32 u32 \<comment> \<open>\<open>ip\<close>, \<open>port\<close>, \<open>flowinfo\<close>, \<open>scope_id\<close>\<close>

definition socket_addr_parse :: "bytes \<Rightarrow> (parse_error + socket_addr \<times> bytes) rust" where
  "socket_addr_parse buf =
     (if buf = [] then Ret (Inl IllegalFormat)
      else bindR (get_u8 buf) (\<lambda>(tag, buf).
        if tag = 0 then
          if length buf < 2 + 4 then Ret (Inl IllegalFormat)
          else bindR (get_u32 buf) (\<lambda>(ip, buf).
               bindR (get_u16 buf) (\<lambda>(port, buf).
               Ret (Inr (V4 ip port, buf))))
        else if tag = 1 then
          if length buf < 2 + 16 + 4 + 4 then Ret (Inl IllegalFormat)
          else bindR (get_u128 buf) (\<lambda>(ip, buf).
               bindR (get_u16 buf) (\<lambda>(port, buf).
               bindR (get_u32 buf) (\<lambda>(flow, buf).
               bindR (get_u32 buf) (\<lambda>(scope, buf).
               Ret (Inr (V6 ip port flow scope, buf))))))
        else Ret (Inl IllegalFormat)))"

fun socket_addr_serialize :: "socket_addr \<Rightarrow> bytes" where
  "socket_addr_serialize (V4 ip port) = [0] @ put_u32 ip @ put_u16 port"
| "socket_addr_serialize (V6 ip port flow scope) =
     [1] @ put_u128 ip @ put_u16 port @ put_u32 flow @ put_u32 scope"

fun socket_addr_serialized_size :: "socket_addr \<Rightarrow> usize" where
  "socket_addr_serialized_size (V4 _ _) = 1 + 2 + 4"
| "socket_addr_serialized_size (V6 _ _ _ _) = 1 + 2 + 16 + 4 + 4"

definition fake_addr_socket :: "socket_addr fake_addr_impl" where
  "fake_addr_socket =
     \<lparr> fa_parse = socket_addr_parse,
       fa_serialize = socket_addr_serialize,
       fa_serialized_size = socket_addr_serialized_size \<rparr>"

datatype 'f transport_address = IpV4 u32 | IpV6 u128 | Fake 'f

datatype assoc_id = AssocId u64

fun assoc_id_val :: "assoc_id \<Rightarrow> u64" where
  "assoc_id_val (AssocId n) = n"

record 'f assoc_alias =
  peer_addr :: "'f transport_address"
  al_peer_port :: u16
  al_local_port :: u16

text \<open>The derived \<open>Ord\<close> of \<open>AssocId\<close> is the order of its number.\<close>

instantiation assoc_id :: linorder
begin

definition less_eq_assoc_id :: "assoc_id \<Rightarrow> assoc_id \<Rightarrow> bool" where
  "a \<le> b \<longleftrightarrow> assoc_id_val a \<le> assoc_id_val b"

definition less_assoc_id :: "assoc_id \<Rightarrow> assoc_id \<Rightarrow> bool" where
  "a < b \<longleftrightarrow> assoc_id_val a < assoc_id_val b"

instance
proof
  fix a b c :: assoc_id
  show "a < b \<longleftrightarrow> a \<le> b \<and> \<not> b \<le> a"
    by (auto simp: less_eq_assoc_id_def less_assoc_id_def)
  show "a \<le> a" and "a \<le> b \<Longrightarrow> b \<le> c \<Longrightarrow> a \<le> c" and "a \<le> b \<or> b \<le> a"
    by (auto simp: less_eq_assoc_id_def)
  show "a \<le> b \<Longrightarrow> b \<le> a \<Longrightarrow> a = b"
    by (cases a; cases b) (auto simp: less_eq_assoc_id_def)
qed

end

subsection \<open>The contract of FakeAddr\<close>

text \<open>
  What the cookie code relies on: what was serialized parses back from the front of a buffer
  and leaves what follows, the announced size is the number of bytes written, and parsing
  never panics, whatever the input.
\<close>

locale fake_addr =
  fixes I :: "'f fake_addr_impl"
  assumes parse_serialize: "fa_parse I (fa_serialize I a @ r) = Ret (Inr (a, r))"
    and serialized_size: "length (fa_serialize I a) = fa_serialized_size I a"
    and parse_returns: "returns (fa_parse I d)"
begin

lemma parse_serialize_only: "fa_parse I (fa_serialize I a) = Ret (Inr (a, []))"
  using parse_serialize [of a "[]"] by simp

end

interpretation u64_addr: fake_addr fake_addr_u64
proof
  show "fa_parse fake_addr_u64 (fa_serialize fake_addr_u64 a @ r) = Ret (Inr (a, r))" for a r
    by (simp add: fake_addr_u64_def)
  show "length (fa_serialize fake_addr_u64 a) = fa_serialized_size fake_addr_u64 a" for a
    by (simp add: fake_addr_u64_def)
  show "returns (fa_parse fake_addr_u64 d)" for d
    by (auto simp: fake_addr_u64_def get_enough)
qed

interpretation socket_addr: fake_addr fake_addr_socket
proof
  show "fa_parse fake_addr_socket (fa_serialize fake_addr_socket a @ r) = Ret (Inr (a, r))" for a r
    by (cases a) (simp_all add: fake_addr_socket_def socket_addr_parse_def)
  show "length (fa_serialize fake_addr_socket a) = fa_serialized_size fake_addr_socket a" for a
    by (cases a) (simp_all add: fake_addr_socket_def)
  show "returns (fa_parse fake_addr_socket d)" for d
    by (auto simp: fake_addr_socket_def socket_addr_parse_def get_enough Suc_le_eq)
qed

subsection \<open>Properties\<close>

text \<open>
  A socket address that was serialized parses back to itself, the bytes that follow it
  in the buffer are left for the next reader, and exactly the announced size is written.
\<close>

theorem socket_addr_roundtrip:
  "socket_addr_parse (socket_addr_serialize a @ rest) = Ret (Inr (a, rest))
     \<and> length (socket_addr_serialize a) = socket_addr_serialized_size a"
  using socket_addr.parse_serialize [of a rest] socket_addr.serialized_size [of a]
  by (simp add: fake_addr_socket_def)

end
