(* ===== verification/Cookie.thy ===== *)
theory Cookie
  imports Addr
begin

text \<open>
  The state cookie (\<open>src/packet/cookie.rs\<close>): the record a server hands out in its INIT ACK and
  gets back in the COOKIE ECHO, its byte format, and the authentication code over its fields.
  The hasher behind \<open>calc_mac\<close> (\<open>DefaultHasher\<close>, whose algorithm its documentation leaves
  open) is a parameter: a function of the sequence of values that are fed to it.
\<close>

record 'f cookie =
  mac :: u64
  init_address :: "'f transport_address"
  ck_peer_port :: u16
  ck_local_port :: u16
  ck_aliases :: "'f transport_address list"
  ck_local_verification_tag :: u32
  ck_peer_verification_tag :: u32
  ck_local_initial_tsn :: u32
  ck_peer_initial_tsn :: u32
  ck_incoming_streams :: u16
  ck_outgoing_streams :: u16
  ck_peer_arwnd :: u32

datatype 'f state_cookie = Ours "'f cookie" | Opaque bytes

datatype 'f hash_input =
    HashAddr "'f transport_address"
  | HashAddrs "'f transport_address list"
  | HashU16 u16
  | HashU32 u32
  | HashBytes bytes

type_synonym 'f hasher = "'f hash_input list \<Rightarrow> u64"

definition calc_mac :: "'f hasher \<Rightarrow> 'f cookie \<Rightarrow> bytes \<Rightarrow> u64" where
  "calc_mac hash c local_secret =
     hash [HashAddr (init_address c), HashAddrs (ck_aliases c),
           HashU16 (ck_peer_port c), HashU16 (ck_local_port c),
           HashU32 (ck_peer_verification_tag c), HashU32 (ck_local_verification_tag c),
           HashU32 (ck_peer_initial_tsn c), HashU32 (ck_local_initial_tsn c),
           HashU16 (ck_incoming_streams c), HashU16 (ck_outgoing_streams c),
           HashU32 (ck_peer_arwnd c), HashBytes local_secret]"

fun init_address_size :: "'f fake_addr_impl \<Rightarrow> 'f transport_address \<Rightarrow> usize" where
  "init_address_size I (Fake addr) = 1 + fa_serialized_size I addr"
| "init_address_size I (IpV4 _) = 1 + 4"
| "init_address_size I (IpV6 _) = 1 + 16"

fun alias_size :: "'f transport_address \<Rightarrow> usize" where
  "alias_size (Fake _) = 0"
| "alias_size (IpV4 _) = 1 + 4"
| "alias_size (IpV6 _) = 1 + 16"

definition cookie_serialized_size :: "'f fake_addr_impl \<Rightarrow> 'f cookie \<Rightarrow> usize" where
  "cookie_serialized_size I c =
     4 + 4 + 4 + 4 + 2 + 2 + 8 + 2 + 2 + 4
       + init_address_size I (init_address c)
       + (\<Sum>addr \<leftarrow> ck_aliases c. alias_size addr)"

fun init_address_serialize :: "'f fake_addr_impl \<Rightarrow> 'f transport_address \<Rightarrow> bytes" where
  "init_address_serialize I (Fake addr) = [0] @ fa_serialize I addr"
| "init_address_serialize I (IpV4 addr) = [1] @ put_u32 addr"
| "init_address_serialize I (IpV6 addr) = [2] @ put_u128 addr"

fun alias_serialize :: "'f transport_address \<Rightarrow> bytes" where
  "alias_serialize (Fake _) = []"
| "alias_serialize (IpV4 addr) = [1] @ put_u32 addr"
| "alias_serialize (IpV6 addr) = [2] @ put_u128 addr"

definition cookie_serialize :: "'f fake_addr_impl \<Rightarrow> 'f cookie \<Rightarrow> bytes" where
  "cookie_serialize I c =
     put_u64 (mac c) @
     put_u16 (ck_peer_port c) @
     put_u16 (ck_local_port c) @
     put_u32 (ck_peer_verification_tag c) @
     put_u32 (ck_local_verification_tag c) @
     put_u32 (ck_peer_initial_tsn c) @
     put_u32 (ck_local_initial_tsn c) @
     put_u16 (ck_incoming_streams c) @
     put_u16 (ck_outgoing_streams c) @
     put_u32 (ck_peer_arwnd c) @
     init_address_serialize I (init_address c) @
     concat (map alias_serialize (ck_aliases c))"

definition init_address_parse ::
  "'f fake_addr_impl \<Rightarrow> bytes \<Rightarrow> ('f transport_address \<times> bytes) option rust" where
  "init_address_parse I data =
     bindR (get_u8 data) (\<lambda>(tag, data).
       if tag = 0 then
         bindR (fa_parse I data) (\<lambda>res.
           case res of Inl _ \<Rightarrow> Ret None | Inr (a, data) \<Rightarrow> Ret (Some (Fake a, data)))
       else if tag = 1 then
         if length data < 4 then Ret None
         else bindR (get_u32 data) (\<lambda>(a, data). Ret (Some (IpV4 a, data)))
       else if tag = 2 then
         if length data < 16 then Ret None
         else bindR (get_u128 data) (\<lambda>(a, data). Ret (Some (IpV6 a, data)))
       else Ret None)"

text \<open>The loop over the remaining aliases; fewer than five bytes at the end are ignored.\<close>

function aliases_parse ::
  "bytes \<Rightarrow> 'f transport_address list \<Rightarrow> 'f transport_address list option rust" where
  "aliases_parse data aliases =
     (if length data < 5 then Ret (Some aliases)
      else bindR (get_u8 data) (\<lambda>(tag, data).
        if tag = 1 then
          if length data < 4 then Ret None
          else bindR (get_u32 data) (\<lambda>(a, data). aliases_parse data (aliases @ [IpV4 a]))
        else if tag = 2 then
          if length data < 16 then Ret None
          else bindR (get_u128 data) (\<lambda>(a, data). aliases_parse data (aliases @ [IpV6 a]))
        else Ret None))"
  by pat_completeness auto
termination
  by (relation "measure (\<lambda>(data, aliases). length data)") (auto simp: outcome)

declare aliases_parse.simps [simp del]

definition cookie_parse :: "'f fake_addr_impl \<Rightarrow> bytes \<Rightarrow> 'f cookie option rust" where
  "cookie_parse I data =
     (if length data < 33 then Ret None
      else
        bindR (get_u64 data) (\<lambda>(mac, data).
        bindR (get_u16 data) (\<lambda>(peer_port, data).
        bindR (get_u16 data) (\<lambda>(local_port, data).
        bindR (get_u32 data) (\<lambda>(peer_verification_tag, data).
        bindR (get_u32 data) (\<lambda>(local_verification_tag, data).
        bindR (get_u32 data) (\<lambda>(peer_initial_tsn, data).
        bindR (get_u32 data) (\<lambda>(local_initial_tsn, data).
        bindR (get_u16 data) (\<lambda>(incoming_streams, data).
        bindR (get_u16 data) (\<lambda>(outgoing_streams, data).
        bindR (get_u32 data) (\<lambda>(peer_arwnd, data).
        bindR (init_address_parse I data) (\<lambda>res.
          case res of
            None \<Rightarrow> Ret None
          | Some (addr, data) \<Rightarrow>
              bindR (aliases_parse data []) (\<lambda>res.
                case res of
                  None \<Rightarrow> Ret None
                | Some aliases \<Rightarrow>
                    Ret (Some
                      \<lparr> mac = mac,
                        init_address = addr,
                        ck_peer_port = peer_port,
                        ck_local_port = local_port,
                        ck_aliases = aliases,
                        ck_local_verification_tag = local_verification_tag,
                        ck_peer_verification_tag = peer_verification_tag,
                        ck_local_initial_tsn = local_initial_tsn,
                        ck_peer_initial_tsn = peer_initial_tsn,
                        ck_incoming_streams = incoming_streams,
                        ck_outgoing_streams = outgoing_streams,
                        ck_peer_arwnd = peer_arwnd \<rparr>))))))))))))))"

text \<open>\<open>StateCookie\<close>: a cookie of ours, or the bytes of one that is passed along.\<close>

definition state_cookie_parse :: "bytes \<Rightarrow> 'f state_cookie" where
  "state_cookie_parse data = Opaque data"

fun state_cookie_serialized_size :: "'f fake_addr_impl \<Rightarrow> 'f state_cookie \<Rightarrow> usize" where
  "state_cookie_serialized_size I (Opaque data) = length data"
| "state_cookie_serialized_size I (Ours c) = cookie_serialized_size I c"

fun state_cookie_serialize :: "'f fake_addr_impl \<Rightarrow> 'f state_cookie \<Rightarrow> bytes" where
  "state_cookie_serialize I (Opaque data) = data"
| "state_cookie_serialize I (Ours c) = cookie_serialize I c"

text \<open>
  \<open>make_ours\<close> parses an opaque cookie in place; the result is the cookie it then holds, or
  none when the bytes are malformed.
\<close>

fun make_ours :: "'f fake_addr_impl \<Rightarrow> 'f state_cookie \<Rightarrow> 'f cookie option rust" where
  "make_ours I (Ours c) = Ret (Some c)"
| "make_ours I (Opaque data) = cookie_parse I data"

subsection \<open>Lemmas\<close>

definition is_fake :: "'f transport_address \<Rightarrow> bool" where
  "is_fake a = (case a of Fake _ \<Rightarrow> True | _ \<Rightarrow> False)"

lemma is_fake_simps [simp]: "is_fake (Fake f)" "\<not> is_fake (IpV4 a)" "\<not> is_fake (IpV6 b)"
  by (simp_all add: is_fake_def)

lemma length_alias_serialize [simp, wire_length]: "length (alias_serialize a) = alias_size a"
  by (cases a) simp_all

lemma aliases_parse_serialize:
  "aliases_parse (concat (map alias_serialize as)) acc =
     Ret (Some (acc @ filter (\<lambda>a. \<not> is_fake a) as))"
proof (induction as arbitrary: acc)
  case Nil
  then show ?case by (simp add: aliases_parse.simps)
next
  case (Cons a as)
  show ?case
  proof (cases a)
    case (Fake f)
    with Cons show ?thesis by simp
  qed (use Cons in \<open>simp_all add: aliases_parse.simps\<close>)
qed

lemma aliases_parse_returns: "returns (aliases_parse data acc)"
proof (induction data acc rule: aliases_parse.induct)
  case (1 data aliases)
  show ?case
  proof (cases "length data < 5")
    case True
    then show ?thesis by (simp add: aliases_parse.simps)
  next
    case False
    then show ?thesis
      using 1 by (subst aliases_parse.simps) (simp add: get_enough)
  qed
qed

text \<open>The fixed part of a cookie is 36 bytes and the tag of its address is one more.\<close>

lemma cookie_parse_short: "length data < 33 \<Longrightarrow> cookie_parse I data = Ret None"
  by (simp add: cookie_parse_def)

lemma cookie_parse_underflow:
  assumes "33 \<le> length data" and "length data \<le> 36"
  shows "cookie_parse I data = Panic BufUnderflow"
proof (cases "length data = 36")
  case True
  then show ?thesis
    by (simp add: cookie_parse_def get_enough init_address_parse_def get_too_short)
next
  case False
  with assms show ?thesis
    by (simp add: cookie_parse_def get_enough get_too_short)
qed

context fake_addr
begin

lemma init_address_roundtrip:
  "init_address_parse I (init_address_serialize I a @ r) = Ret (Some (a, r))"
  by (cases a) (simp_all add: init_address_parse_def parse_serialize)

lemma init_address_length: "length (init_address_serialize I a) = init_address_size I a"
  by (cases a) (simp_all add: serialized_size)

lemma init_address_parse_returns:
  "1 \<le> length data \<Longrightarrow> returns (init_address_parse I data)"
  using parse_returns [of "drop 1 data"]
  by (auto simp: init_address_parse_def get_enough returns_iff split: sum.splits prod.splits)

lemma cookie_serialize_length: "length (cookie_serialize I c) = cookie_serialized_size I c"
  by (simp add: cookie_serialize_def cookie_serialized_size_def init_address_length
      length_concat comp_def)

lemma cookie_roundtrip:
  "cookie_parse I (cookie_serialize I c) =
     Ret (Some (c\<lparr>ck_aliases := filter (\<lambda>a. \<not> is_fake a) (ck_aliases c)\<rparr>))"
proof -
  have "33 \<le> length (cookie_serialize I c)"
    by (simp add: cookie_serialize_length cookie_serialized_size_def)
  then show ?thesis
    by (simp add: cookie_parse_def)
       (simp add: cookie_serialize_def init_address_roundtrip aliases_parse_serialize)
qed

lemma cookie_parse_long_returns:
  assumes "37 \<le> length data"
  shows "returns (cookie_parse I data)"
proof -
  have "returns (init_address_parse I (drop 36 data))"
    using assms by (intro init_address_parse_returns) simp
  then obtain res where res: "init_address_parse I (drop 36 data) = Ret res"
    by (auto simp: returns_iff)
  show ?thesis
  proof (cases res)
    case None
    with assms res show ?thesis
      by (simp add: cookie_parse_def get_enough)
  next
    case (Some ad)
    obtain a r where "ad = (a, r)" by fastforce
    moreover obtain al where "aliases_parse r ([] :: 'f transport_address list) = Ret al"
      using aliases_parse_returns [of r "[]"] by (auto simp: returns_iff)
    ultimately show ?thesis
      using assms res Some by (simp add: cookie_parse_def get_enough split: option.split)
  qed
qed

lemma cookie_parse_returns_iff:
  "returns (cookie_parse I data) \<longleftrightarrow> \<not> (33 \<le> length data \<and> length data \<le> 36)"
proof (cases "length data \<le> 36")
  case True
  then show ?thesis
    by (cases "length data < 33") (simp_all add: cookie_parse_short cookie_parse_underflow)
next
  case False
  then show ?thesis
    by (simp add: cookie_parse_long_returns)
qed

end

subsection \<open>Properties\<close>

text \<open>
  A cookie that was serialized parses back to the same cookie, for both address
  implementations of the crate, except that alias addresses of the \<open>Fake\<close> kind are dropped:
  they are never written. The announced size is the number of bytes written.
\<close>

theorem cookie_roundtrip_impls:
  "cookie_parse fake_addr_u64 (cookie_serialize fake_addr_u64 c) =
     Ret (Some (c\<lparr>ck_aliases := filter (\<lambda>a. \<not> is_fake a) (ck_aliases c)\<rparr>))
   \<and> length (cookie_serialize fake_addr_u64 c) = cookie_serialized_size fake_addr_u64 c
   \<and> cookie_parse fake_addr_socket (cookie_serialize fake_addr_socket d) =
     Ret (Some (d\<lparr>ck_aliases := filter (\<lambda>a. \<not> is_fake a) (ck_aliases d)\<rparr>))
   \<and> length (cookie_serialize fake_addr_socket d) = cookie_serialized_size fake_addr_socket d"
  using u64_addr.cookie_roundtrip u64_addr.cookie_serialize_length
    socket_addr.cookie_roundtrip socket_addr.cookie_serialize_length
  by blast

text \<open>
  Parsing the bytes of a received cookie panics exactly when there are 33 to 36 of them:
  the length check asks for 33 bytes, but the fixed fields and the address tag take 37. The
  check precedes the authentication of the cookie, so any peer can send such a cookie.
\<close>

theorem cookie_parse_panics_iff:
  "(cookie_parse fake_addr_u64 data = Panic BufUnderflow
      \<longleftrightarrow> 33 \<le> length data \<and> length data \<le> 36)
   \<and> (returns (cookie_parse fake_addr_u64 data)
      \<longleftrightarrow> \<not> (33 \<le> length data \<and> length data \<le> 36))
   \<and> (cookie_parse fake_addr_socket data = Panic BufUnderflow
      \<longleftrightarrow> 33 \<le> length data \<and> length data \<le> 36)
   \<and> (returns (cookie_parse fake_addr_socket data)
      \<longleftrightarrow> \<not> (33 \<le> length data \<and> length data \<le> 36))"
  using u64_addr.cookie_parse_returns_iff [of data] socket_addr.cookie_parse_returns_iff [of data]
    cookie_parse_underflow [of data fake_addr_u64] cookie_parse_underflow [of data fake_addr_socket]
  by (auto simp: returns_iff)

end
