(* ===== verification/Param.thy ===== *)
theory Param
  imports Cookie
begin

text \<open>
  The parameters of INIT and INIT ACK chunks (\<open>src/packet/param.rs\<close>): type-length-value
  records padded to four bytes, with the parser, the serializer and the size. A parser result
  is the number of bytes consumed together with the parameter or an error.
\<close>

record unrecognized_param =
  up_typ :: u16
  up_data :: bytes

record supported_addr_types =
  sup_ipv4 :: bool
  sup_ipv6 :: bool

datatype 'f param =
    PUnrecognized unrecognized_param
  | PStateCookie "'f state_cookie"
  | PCookiePreservative duration
  | PIpV4Addr u32
  | PIpV6Addr u128
  | PHostNameDeprecated
  | PSupportedAddrTypes supported_addr_types

datatype param_error =
    PErrUnrecognized bool bool u16 bytes  \<comment> \<open>\<open>report\<close>, \<open>stop\<close>, \<open>typ\<close>, \<open>data\<close>\<close>
  | PErrIllegalFormat
  | PErrDone

definition PARAM_IPV4_ADDR :: u16 where "PARAM_IPV4_ADDR = 5"
definition PARAM_IPV6_ADDR :: u16 where "PARAM_IPV6_ADDR = 6"
definition PARAM_STATE_COOKIE :: u16 where "PARAM_STATE_COOKIE = 7"
definition PARAM_UNRECOGNIZED :: u16 where "PARAM_UNRECOGNIZED = 8"
definition PARAM_COOKIE_PRESERVATIVE :: u16 where "PARAM_COOKIE_PRESERVATIVE = 9"
definition PARAM_HOSTNAME_DEPRECATED :: u16 where "PARAM_HOSTNAME_DEPRECATED = 11"
definition PARAM_SUPPORTED_ADDRESSES :: u16 where "PARAM_SUPPORTED_ADDRESSES = 12"
definition PARAM_HEADER_SIZE :: usize where "PARAM_HEADER_SIZE = 4"

lemmas param_consts = PARAM_IPV4_ADDR_def PARAM_IPV6_ADDR_def PARAM_STATE_COOKIE_def
  PARAM_UNRECOGNIZED_def PARAM_COOKIE_PRESERVATIVE_def PARAM_HOSTNAME_DEPRECATED_def
  PARAM_SUPPORTED_ADDRESSES_def PARAM_HEADER_SIZE_def

definition padding_needed :: "usize \<Rightarrow> usize" where
  "padding_needed n = (4 - n mod 4) mod 4"

definition padded_len :: "usize \<Rightarrow> usize" where
  "padded_len n = ((n + 3) div 4) * 4"

definition param_parse_error :: "u16 \<Rightarrow> bytes \<Rightarrow> param_error" where
  "param_parse_error typ data =
     (let hi = drop_bit 14 typ
      in if hi = 0 then PErrUnrecognized False True typ data
         else if hi = 1 then PErrUnrecognized True True typ data
         else if hi = 2 then PErrUnrecognized False False typ data
         else PErrUnrecognized True False typ data)"

text \<open>The loop over the address types a peer supports; an odd last byte is ignored.\<close>

function supported_parse :: "bytes \<Rightarrow> supported_addr_types \<Rightarrow> supported_addr_types rust" where
  "supported_parse v support =
     (if length v < 2 then Ret support
      else bindR (get_u16 v) (\<lambda>(t, v).
        supported_parse v
          (if t = PARAM_IPV4_ADDR then support\<lparr>sup_ipv4 := True\<rparr>
           else if t = PARAM_IPV6_ADDR then support\<lparr>sup_ipv6 := True\<rparr>
           else support)))"
  by pat_completeness auto
termination
  by (relation "measure (\<lambda>(v, support). length v)") (auto simp: outcome)

declare supported_parse.simps [simp del]

text \<open>The \<open>match\<close> on the parameter type: the value of the parameter, or an error.\<close>

definition param_match :: "u16 \<Rightarrow> bytes \<Rightarrow> bytes \<Rightarrow> (param_error + 'f param) rust" where
  "param_match typ v data =
     (if typ = PARAM_IPV4_ADDR then
        if length v \<noteq> 4 then Ret (Inl PErrIllegalFormat)
        else bindR (get_u32 v) (\<lambda>(a, _). Ret (Inr (PIpV4Addr a)))
      else if typ = PARAM_IPV6_ADDR then
        if length v \<noteq> 16 then Ret (Inl PErrIllegalFormat)
        else bindR (get_u128 v) (\<lambda>(a, _). Ret (Inr (PIpV6Addr a)))
      else if typ = PARAM_COOKIE_PRESERVATIVE then
        if length v \<noteq> 4 then Ret (Inl PErrIllegalFormat)
        else bindR (get_u32 v) (\<lambda>(ms, _).
          Ret (Inr (PCookiePreservative (from_millis (unat ms)))))
      else if typ = PARAM_HOSTNAME_DEPRECATED then Ret (Inr PHostNameDeprecated)
      else if typ = PARAM_SUPPORTED_ADDRESSES then
        bindR (supported_parse v \<lparr>sup_ipv4 = False, sup_ipv6 = False\<rparr>) (\<lambda>support.
          Ret (Inr (PSupportedAddrTypes support)))
      else if typ = PARAM_STATE_COOKIE then Ret (Inr (PStateCookie (Opaque v)))
      else if typ = PARAM_UNRECOGNIZED then
        if length v < 4 then Ret (Inl PErrIllegalFormat)
        else bindR (get_u16 v) (\<lambda>(t, clone).
             bindR (get_u16 clone) (\<lambda>(size, clone).
               if unat size \<noteq> length v \<and> padded_len (unat size) \<noteq> length v
               then Ret (Inl PErrIllegalFormat)
               else Ret (Inr (PUnrecognized \<lparr>up_typ = t, up_data = clone\<rparr>))))
      else Ret (Inl (param_parse_error typ data)))"

definition param_parse :: "bytes \<Rightarrow> (usize \<times> (param_error + 'f param)) rust" where
  "param_parse data =
     (if length data < PARAM_HEADER_SIZE then Ret (length data, Inl PErrDone)
      else
        let typ = of_nat (be_nat (take 2 data));
            len = be_nat (take 2 (drop 2 data))
        in if len > length data then Ret (length data, Inl PErrIllegalFormat)
           else if len < PARAM_HEADER_SIZE then Ret (length data, Inl PErrIllegalFormat)
           else
             let v = take (len - PARAM_HEADER_SIZE) (drop PARAM_HEADER_SIZE data);
                 actual_len = min (padded_len len) (length data)
             in bindR (param_match typ v data) (\<lambda>res. Ret (actual_len, res)))"

fun param_serialized_size :: "'f fake_addr_impl \<Rightarrow> 'f param \<Rightarrow> usize" where
  "param_serialized_size I (PIpV4Addr _) = 8"
| "param_serialized_size I (PIpV6Addr _) = 20"
| "param_serialized_size I (PCookiePreservative _) = 8"
| "param_serialized_size I PHostNameDeprecated = 0"
| "param_serialized_size I (PSupportedAddrTypes support) =
     PARAM_HEADER_SIZE + (if sup_ipv4 support then 2 else 0) + (if sup_ipv6 support then 2 else 0)"
| "param_serialized_size I (PStateCookie c) = PARAM_HEADER_SIZE + state_cookie_serialized_size I c"
| "param_serialized_size I (PUnrecognized p) =
     PARAM_HEADER_SIZE + PARAM_HEADER_SIZE + length (up_data p)"

definition unrecognized_serialize_as_param :: "unrecognized_param \<Rightarrow> bytes" where
  "unrecognized_serialize_as_param p =
     put_u16 PARAM_UNRECOGNIZED @
     put_u16 (as_u16 (PARAM_HEADER_SIZE + PARAM_HEADER_SIZE + length (up_data p))) @
     put_u16 (up_typ p) @
     put_u16 (as_u16 (PARAM_HEADER_SIZE + length (up_data p))) @
     up_data p @
     put_zeros (padding_needed (length (up_data p)))"

definition state_cookie_serialize_as_param :: "'f fake_addr_impl \<Rightarrow> 'f state_cookie \<Rightarrow> bytes" where
  "state_cookie_serialize_as_param I c =
     (let size = PARAM_HEADER_SIZE + state_cookie_serialized_size I c
      in put_u16 PARAM_STATE_COOKIE @
         put_u16 (as_u16 size) @
         state_cookie_serialize I c @
         put_zeros (padding_needed size))"

fun param_serialize :: "'f fake_addr_impl \<Rightarrow> 'f param \<Rightarrow> bytes" where
  "param_serialize I (PIpV4Addr addr) = put_u16 PARAM_IPV4_ADDR @ put_u16 8 @ put_u32 addr"
| "param_serialize I (PIpV6Addr addr) = put_u16 PARAM_IPV6_ADDR @ put_u16 20 @ put_u128 addr"
| "param_serialize I (PCookiePreservative dur) =
     put_u16 PARAM_COOKIE_PRESERVATIVE @ put_u16 8 @ put_u32 (as_u32 (dur div 1000000))"
| "param_serialize I PHostNameDeprecated = []"
| "param_serialize I (PSupportedAddrTypes support) =
     (let size = param_serialized_size I (PSupportedAddrTypes support)
      in put_u16 PARAM_SUPPORTED_ADDRESSES @
         put_u16 (as_u16 size) @
         (if sup_ipv4 support then put_u16 PARAM_IPV4_ADDR else []) @
         (if sup_ipv6 support then put_u16 PARAM_IPV6_ADDR else []) @
         put_zeros (padding_needed size))"
| "param_serialize I (PStateCookie c) = state_cookie_serialize_as_param I c"
| "param_serialize I (PUnrecognized p) = unrecognized_serialize_as_param p"

subsection \<open>Padding\<close>

lemma padded_len_padding: "padded_len n = n + padding_needed n"
proof -
  define q r where "q = n div 4" and "r = n mod 4"
  then have n: "n = 4 * q + r" and r: "r < 4" by simp_all
  have "padded_len n = (q + (r + 3) div 4) * 4"
    by (simp add: padded_len_def n add.assoc)
  moreover have "padding_needed n = (4 - r) mod 4"
    by (simp add: padding_needed_def r_def)
  moreover have "(r + 3) div 4 * 4 = r + (4 - r) mod 4"
  proof -
    consider "r = 0" | "r = 1" | "r = 2" | "r = 3"
      using r by linarith
    then show ?thesis by cases simp_all
  qed
  ultimately show ?thesis
    by (simp add: n add_mult_distrib)
qed

lemma padded_len_ge: "n \<le> padded_len n"
  by (simp add: padded_len_padding)

lemma padded_len_less: "padded_len n < n + 4"
  by (simp add: padded_len_padding padding_needed_def)

lemma padding_needed_const [simp]:
  "padding_needed 0 = 0" "padding_needed 4 = 0" "padding_needed 8 = 0" "padding_needed 20 = 0"
  by (simp_all add: padding_needed_def)

lemma padding_needed_4 [simp]: "padding_needed (4 + n) = padding_needed n"
  by (simp add: padding_needed_def)

lemma padding_needed_8 [simp]: "padding_needed (8 + n) = padding_needed n"
  using padding_needed_4 [of "4 + n"] padding_needed_4 [of n] by (simp only: add.assoc [symmetric]) simp

lemma padding_needed_16 [simp]: "padding_needed (16 + n) = padding_needed n"
  using padding_needed_8 [of "8 + n"] padding_needed_8 [of n] by (simp only: add.assoc [symmetric]) simp

subsection \<open>Reading a type-length-value header\<close>

lemma take_put_u16 [wire]: "take 2 (put_u16 a @ r) = put_u16 a" "drop 2 (put_u16 a @ r) = r"
  by simp_all

lemma be_nat_put_u16 [simp, wire]: "be_nat (put_u16 a) = unat a"
  using unat_bound [of a] by (simp add: put_u16_def be_nat_be_bytes)

lemma supported_parse_returns: "returns (supported_parse v s)"
proof (induction v s rule: supported_parse.induct)
  case (1 v s)
  then show ?case
    by (subst supported_parse.simps) (simp add: get_enough)
qed

lemma param_match_returns: "returns (param_match typ v data)"
proof -
  obtain s where "supported_parse v \<lparr>sup_ipv4 = False, sup_ipv6 = False\<rparr> = Ret s"
    using supported_parse_returns by (auto simp: returns_iff)
  then show ?thesis
    by (simp add: param_match_def get_enough)
qed

lemma param_parse_returns: "returns (param_parse data)"
  by (simp add: param_parse_def Let_def returns_bindR param_match_returns [unfolded returns_iff])

text \<open>
  The parser makes progress and stays inside the buffer: it consumes at least one byte of a
  non-empty buffer and never more than there are.
\<close>

lemma param_parse_size:
  assumes "param_parse data = Ret (n, r)"
  shows "n \<le> length data" and "data \<noteq> [] \<Longrightarrow> 0 < n"
proof -
  have "n = length data \<or> (\<exists>len. 4 \<le> len \<and> n = min (padded_len len) (length data))"
    using assms
    by (auto simp: param_parse_def Let_def outcome PARAM_HEADER_SIZE_def not_less split: if_splits)
  moreover have "4 \<le> len \<Longrightarrow> 0 < padded_len len" for len
    using padded_len_ge [of len] by simp
  ultimately show "n \<le> length data" and "data \<noteq> [] \<Longrightarrow> 0 < n"
    by auto
qed

subsection \<open>Round trip\<close>

text \<open>
  What the peer sees of a parameter: a cookie of ours arrives as its bytes. A parameter fits
  the format when its length fits the 16-bit length field, a lifetime is a whole number of
  milliseconds below 2^32, and it is not the deprecated host name, which is never written.
\<close>

definition param_view :: "'f fake_addr_impl \<Rightarrow> 'f param \<Rightarrow> 'f param" where
  "param_view I p =
     (case p of PStateCookie c \<Rightarrow> PStateCookie (Opaque (state_cookie_serialize I c)) | _ \<Rightarrow> p)"

definition param_fits :: "'f fake_addr_impl \<Rightarrow> 'f param \<Rightarrow> bool" where
  "param_fits I p =
     (param_serialized_size I p < 65536 \<and>
      (case p of
         PHostNameDeprecated \<Rightarrow> False
       | PCookiePreservative d \<Rightarrow> d mod 1000000 = 0 \<and> d div 1000000 < 2 ^ 32
       | _ \<Rightarrow> True))"

lemma param_parse_tlv:
  assumes "unat l = 4 + length v" and "length pad = padding_needed (4 + length v)"
  shows "param_parse (put_u16 t @ put_u16 l @ v @ pad @ r) =
    bindR (param_match t v (put_u16 t @ put_u16 l @ v @ pad @ r))
      (\<lambda>res. Ret (padded_len (4 + length v), res))"
proof -
  have "padded_len (4 + length v) \<le> length (put_u16 t @ put_u16 l @ v @ pad @ r)"
    using assms by (simp add: padded_len_padding)
  then show ?thesis
    using assms
    by (simp add: param_parse_def PARAM_HEADER_SIZE_def Let_def min_def)
qed

lemma supported_parse_Nil [simp]: "supported_parse [] s = Ret s"
  by (simp add: supported_parse.simps)

lemma supported_parse_put [simp]:
  "supported_parse (put_u16 t @ v) s =
     supported_parse v
       (if t = PARAM_IPV4_ADDR then s\<lparr>sup_ipv4 := True\<rparr>
        else if t = PARAM_IPV6_ADDR then s\<lparr>sup_ipv6 := True\<rparr> else s)"
  by (subst supported_parse.simps) simp

lemma supported_parse_put_only [simp]:
  "supported_parse (put_u16 t) s =
     Ret (if t = PARAM_IPV4_ADDR then s\<lparr>sup_ipv4 := True\<rparr>
          else if t = PARAM_IPV6_ADDR then s\<lparr>sup_ipv6 := True\<rparr> else s)"
  using supported_parse_put [of t "[]" s] by simp

context fake_addr
begin

lemma state_cookie_length:
  "length (state_cookie_serialize I c) = state_cookie_serialized_size I c"
  by (cases c) (simp_all add: cookie_serialize_length)

lemma param_roundtrip_cookie:
  assumes "4 + state_cookie_serialized_size I c < 65536"
  shows "param_parse (state_cookie_serialize_as_param I c @ r) =
    Ret (padded_len (4 + state_cookie_serialized_size I c),
      Inr (PStateCookie (Opaque (state_cookie_serialize I c))))"
  using assms
    param_parse_tlv [of "as_u16 (4 + state_cookie_serialized_size I c)"
      "state_cookie_serialize I c"
      "put_zeros (padding_needed (4 + state_cookie_serialized_size I c))" PARAM_STATE_COOKIE r]
  by (simp add: state_cookie_serialize_as_param_def Let_def PARAM_HEADER_SIZE_def
      state_cookie_length unat_as_u16 param_match_def param_consts)

lemma param_roundtrip_unrecognized:
  assumes "8 + length (up_data p) < 65536"
  shows "param_parse (unrecognized_serialize_as_param p @ r) =
    Ret (padded_len (8 + length (up_data p)), Inr (PUnrecognized p))"
  using assms
    param_parse_tlv [of "as_u16 (8 + length (up_data p))"
      "put_u16 (up_typ p) @ put_u16 (as_u16 (4 + length (up_data p))) @ up_data p"
      "put_zeros (padding_needed (length (up_data p)))" PARAM_UNRECOGNIZED r]
  by (cases p) (simp add: unrecognized_serialize_as_param_def PARAM_HEADER_SIZE_def
      unat_as_u16 param_match_def param_consts)

lemma param_roundtrip_supported:
  "param_parse (param_serialize I (PSupportedAddrTypes s) @ r) =
    Ret (padded_len (param_serialized_size I (PSupportedAddrTypes s)), Inr (PSupportedAddrTypes s :: 'f param))"
  (is "_ = Ret (padded_len ?n, _)")
proof -
  let ?v = "(if sup_ipv4 s then put_u16 PARAM_IPV4_ADDR else []) @
    (if sup_ipv6 s then put_u16 PARAM_IPV6_ADDR else [])"
  have n: "4 + length ?v = ?n" "?n < 65536"
    by (simp_all add: PARAM_HEADER_SIZE_def)
  have m: "param_match PARAM_SUPPORTED_ADDRESSES ?v d = Ret (Inr (PSupportedAddrTypes s :: 'f param))" for d
    by (cases s) (simp add: param_match_def param_consts)
  show ?thesis
    using param_parse_tlv [where 'a = 'f, of "as_u16 ?n" ?v "put_zeros (padding_needed ?n)"
        PARAM_SUPPORTED_ADDRESSES r] n m
    by (simp only: unat_as_u16 param_serialize.simps Let_def append.assoc length_put bindR.simps)
qed

lemma param_roundtrip:
  assumes "param_fits I p"
  shows "param_parse (param_serialize I p @ r) =
    Ret (padded_len (param_serialized_size I p), Inr (param_view I p))"
proof (cases p)
  case (PUnrecognized u)
  with assms show ?thesis
    using param_roundtrip_unrecognized [of u r]
    by (simp add: param_fits_def param_view_def PARAM_HEADER_SIZE_def)
next
  case (PStateCookie c)
  with assms show ?thesis
    using param_roundtrip_cookie [of c r]
    by (simp add: param_fits_def param_view_def PARAM_HEADER_SIZE_def)
next
  case (PCookiePreservative d)
  moreover have "from_millis (d div 1000000) = d"
    using assms PCookiePreservative
    by (auto simp: param_fits_def from_millis_def mod_eq_0_iff_dvd)
  moreover have "unat (as_u32 (d div 1000000)) = d div 1000000"
    using assms PCookiePreservative by (simp add: param_fits_def unat_as_u32)
  ultimately show ?thesis
    using param_parse_tlv [of 8 "put_u32 (as_u32 (d div 1000000))" "[]"
        PARAM_COOKIE_PRESERVATIVE r]
    by (simp add: param_view_def param_match_def param_consts padding_needed_def)
next
  case (PIpV4Addr a)
  then show ?thesis
    using param_parse_tlv [of 8 "put_u32 a" "[]" PARAM_IPV4_ADDR r]
    by (simp add: param_view_def param_match_def param_consts padding_needed_def)
next
  case (PIpV6Addr a)
  then show ?thesis
    using param_parse_tlv [of 20 "put_u128 a" "[]" PARAM_IPV6_ADDR r]
    by (simp add: param_view_def param_match_def param_consts padding_needed_def)
next
  case PHostNameDeprecated
  with assms show ?thesis by (simp add: param_fits_def)
next
  case (PSupportedAddrTypes s)
  then show ?thesis
    using param_roundtrip_supported [of s r] by (simp add: param_view_def del: param_serialize.simps)
qed

lemma param_serialize_length:
  "p \<noteq> PHostNameDeprecated \<Longrightarrow>
     length (param_serialize I p) = padded_len (param_serialized_size I p)"
  by (cases p)
     (simp_all add: padded_len_padding state_cookie_length state_cookie_serialize_as_param_def
       unrecognized_serialize_as_param_def PARAM_HEADER_SIZE_def Let_def)

lemma param_fits_length:
  assumes "param_fits I p"
  shows "length (param_serialize I p) = padded_len (param_serialized_size I p)"
    and "param_serialize I p \<noteq> []"
proof -
  have p: "p \<noteq> PHostNameDeprecated"
    using assms by (auto simp: param_fits_def)
  then show len: "length (param_serialize I p) = padded_len (param_serialized_size I p)"
    by (rule param_serialize_length)
  have "0 < param_serialized_size I p"
    using p by (cases p) (simp_all add: PARAM_HEADER_SIZE_def)
  then have "0 < length (param_serialize I p)"
    using len padded_len_ge [of "param_serialized_size I p"] by simp
  then show "param_serialize I p \<noteq> []" by auto
qed

end

end
