(* ===== verification/Init_Chunks.thy ===== *)
theory Init_Chunks
  imports Param
begin

text \<open>
  The INIT and INIT ACK chunks (\<open>src/packet/init.rs\<close>): their fixed fields, the loop over their
  parameters, their sizes and serializers. Both loops terminate because the parameter parser
  always makes progress. The parsers take the chunk's value, the serializers write the whole
  chunk with its header.
\<close>

record 'f init_chunk =
  ic_initiate_tag :: u32
  ic_a_rwnd :: u32
  ic_outbound_streams :: u16
  ic_inbound_streams :: u16
  ic_initial_tsn :: u32
  ic_unrecognized :: "unrecognized_param list"
  ic_aliases :: "'f transport_address list"
  ic_cookie_preservative :: "duration option"
  ic_supported_addr_types :: "supported_addr_types option"

record 'f init_ack =
  ia_initiate_tag :: u32
  ia_a_rwnd :: u32
  ia_outbound_streams :: u16
  ia_inbound_streams :: u16
  ia_initial_tsn :: u32
  ia_cookie :: "'f state_cookie"
  ia_unrecognized :: "unrecognized_param list"
  ia_aliases :: "'f transport_address list"
  ia_cookie_preservative :: "duration option"
  ia_supported_addr_types :: "supported_addr_types option"

subsection \<open>INIT\<close>

fun init_add_param :: "'f param \<Rightarrow> 'f init_chunk \<Rightarrow> 'f init_chunk" where
  "init_add_param (PIpV4Addr addr) this = this\<lparr>ic_aliases := ic_aliases this @ [IpV4 addr]\<rparr>"
| "init_add_param (PIpV6Addr addr) this = this\<lparr>ic_aliases := ic_aliases this @ [IpV6 addr]\<rparr>"
| "init_add_param (PSupportedAddrTypes support) this =
     this\<lparr>ic_supported_addr_types := Some support\<rparr>"
| "init_add_param PHostNameDeprecated this = this"
| "init_add_param (PCookiePreservative d) this = this\<lparr>ic_cookie_preservative := Some d\<rparr>"
| "init_add_param _ this = this"

function init_params :: "bytes \<Rightarrow> 'f init_chunk \<Rightarrow> 'f init_chunk option rust" where
  "init_params data this =
     (if data = [] then Ret (Some this)
      else bindR (param_parse data) (\<lambda>(size, param).
           bindR (advance data size) (\<lambda>data.
             case param of
               Inr param \<Rightarrow> init_params data (init_add_param param this)
             | Inl PErrDone \<Rightarrow> Ret (Some this)
             | Inl PErrIllegalFormat \<Rightarrow> Ret None
             | Inl (PErrUnrecognized report stop t d) \<Rightarrow>
                 let this = (if report
                     then this\<lparr>ic_unrecognized := ic_unrecognized this @ [\<lparr>up_typ = t, up_data = d\<rparr>]\<rparr>
                     else this)
                 in if stop then Ret (Some this) else init_params data this)))"
  by pat_completeness auto
termination
  by (relation "measure (\<lambda>(data, this). length data)")
     (auto simp: advance_def split: if_splits dest: param_parse_size)

declare init_params.simps [simp del]

definition init_chunk_parse :: "bytes \<Rightarrow> 'f init_chunk option rust" where
  "init_chunk_parse data =
     (if length data < 16 then Ret None
      else
        bindR (get_u32 data) (\<lambda>(init_tag, data).
        bindR (get_u32 data) (\<lambda>(a_rwnd, data).
        bindR (get_u16 data) (\<lambda>(nos, data).
        bindR (get_u16 data) (\<lambda>(nis, data).
        bindR (get_u32 data) (\<lambda>(init_tsn, data).
          init_params data
            \<lparr> ic_initiate_tag = init_tag,
              ic_a_rwnd = a_rwnd,
              ic_outbound_streams = nos,
              ic_inbound_streams = nis,
              ic_initial_tsn = init_tsn,
              ic_unrecognized = [],
              ic_aliases = [],
              ic_cookie_preservative = None,
              ic_supported_addr_types = None \<rparr>))))))"

text \<open>An alias as a parameter; addresses of the \<open>Fake\<close> kind are not sent.\<close>

fun alias_params :: "'f transport_address \<Rightarrow> 'f param list" where
  "alias_params (Fake _) = []"
| "alias_params (IpV4 addr) = [PIpV4Addr addr]"
| "alias_params (IpV6 addr) = [PIpV6Addr addr]"

definition params_size :: "'f fake_addr_impl \<Rightarrow> 'f param list \<Rightarrow> usize" where
  "params_size I ps = (\<Sum>p \<leftarrow> ps. padded_len (param_serialized_size I p))"

definition params_serialize :: "'f fake_addr_impl \<Rightarrow> 'f param list \<Rightarrow> bytes" where
  "params_serialize I ps = concat (map (param_serialize I) ps)"

definition opt_params :: "('b \<Rightarrow> 'f param) \<Rightarrow> 'b option \<Rightarrow> 'f param list" where
  "opt_params f x = (case x of None \<Rightarrow> [] | Some v \<Rightarrow> [f v])"

definition init_chunk_params :: "'f init_chunk \<Rightarrow> 'f param list" where
  "init_chunk_params c =
     concat (map alias_params (ic_aliases c)) @
     opt_params PCookiePreservative (ic_cookie_preservative c) @
     opt_params PSupportedAddrTypes (ic_supported_addr_types c)"

definition init_chunk_serialized_size :: "'f fake_addr_impl \<Rightarrow> 'f init_chunk \<Rightarrow> usize" where
  "init_chunk_serialized_size I c = 4 + 16 + params_size I (init_chunk_params c)"

definition init_chunk_serialize :: "'f fake_addr_impl \<Rightarrow> 'f init_chunk \<Rightarrow> bytes" where
  "init_chunk_serialize I c =
     (let size = init_chunk_serialized_size I c
      in [1, 0] @
         put_u16 (as_u16 size) @
         put_u32 (ic_initiate_tag c) @
         put_u32 (ic_a_rwnd c) @
         put_u16 (ic_outbound_streams c) @
         put_u16 (ic_inbound_streams c) @
         put_u32 (ic_initial_tsn c) @
         params_serialize I (init_chunk_params c) @
         put_zeros (padding_needed size))"

subsection \<open>INIT ACK\<close>

text \<open>The local variables the parameter loop of \<open>InitAck::parse\<close> assigns.\<close>

record 'f init_ack_vars =
  iv_aliases :: "'f transport_address list"
  iv_unrecognized :: "unrecognized_param list"
  iv_cookie_preservative :: "duration option"
  iv_supported_addr_types :: "supported_addr_types option"
  iv_cookie :: "'f state_cookie option"

fun init_ack_add_param :: "'f param \<Rightarrow> 'f init_ack_vars \<Rightarrow> 'f init_ack_vars" where
  "init_ack_add_param (PIpV4Addr addr) v = v\<lparr>iv_aliases := iv_aliases v @ [IpV4 addr]\<rparr>"
| "init_ack_add_param (PIpV6Addr addr) v = v\<lparr>iv_aliases := iv_aliases v @ [IpV6 addr]\<rparr>"
| "init_ack_add_param (PSupportedAddrTypes support) v =
     v\<lparr>iv_supported_addr_types := Some support\<rparr>"
| "init_ack_add_param PHostNameDeprecated v = v"
| "init_ack_add_param (PCookiePreservative d) v = v\<lparr>iv_cookie_preservative := Some d\<rparr>"
| "init_ack_add_param (PUnrecognized p) v = v\<lparr>iv_unrecognized := iv_unrecognized v @ [p]\<rparr>"
| "init_ack_add_param (PStateCookie c) v = v\<lparr>iv_cookie := Some c\<rparr>"

function init_ack_params :: "bytes \<Rightarrow> 'f init_ack_vars \<Rightarrow> 'f init_ack_vars option rust" where
  "init_ack_params data v =
     (if data = [] then Ret (Some v)
      else bindR (param_parse data) (\<lambda>(size, param).
           bindR (advance data size) (\<lambda>data.
             case param of
               Inr param \<Rightarrow> init_ack_params data (init_ack_add_param param v)
             | Inl PErrDone \<Rightarrow> Ret (Some v)
             | Inl PErrIllegalFormat \<Rightarrow> Ret None
             | Inl (PErrUnrecognized report stop t d) \<Rightarrow>
                 if stop then Ret (Some v) else init_ack_params data v)))"
  by pat_completeness auto
termination
  by (relation "measure (\<lambda>(data, v). length data)")
     (auto simp: advance_def split: if_splits dest: param_parse_size)

declare init_ack_params.simps [simp del]

definition init_ack_parse :: "bytes \<Rightarrow> 'f init_ack option rust" where
  "init_ack_parse data =
     (if length data < 16 then Ret None
      else
        bindR (get_u32 data) (\<lambda>(init_tag, data).
        bindR (get_u32 data) (\<lambda>(a_rwnd, data).
        bindR (get_u16 data) (\<lambda>(nos, data).
        bindR (get_u16 data) (\<lambda>(nis, data).
        bindR (get_u32 data) (\<lambda>(init_tsn, data).
        bindR (init_ack_params data
            \<lparr> iv_aliases = [], iv_unrecognized = [], iv_cookie_preservative = None,
              iv_supported_addr_types = None, iv_cookie = None \<rparr>) (\<lambda>res.
          case res of
            None \<Rightarrow> Ret None
          | Some v \<Rightarrow>
              (case iv_cookie v of
                 None \<Rightarrow> Ret None
               | Some c \<Rightarrow>
                   Ret (Some
                     \<lparr> ia_initiate_tag = init_tag,
                       ia_a_rwnd = a_rwnd,
                       ia_outbound_streams = nos,
                       ia_inbound_streams = nis,
                       ia_initial_tsn = init_tsn,
                       ia_cookie = c,
                       ia_unrecognized = iv_unrecognized v,
                       ia_aliases = iv_aliases v,
                       ia_cookie_preservative = iv_cookie_preservative v,
                       ia_supported_addr_types = iv_supported_addr_types v \<rparr>)))))))))"

definition init_ack_params_out :: "'f init_ack \<Rightarrow> 'f param list" where
  "init_ack_params_out a =
     PStateCookie (ia_cookie a) #
     concat (map alias_params (ia_aliases a)) @
     map PUnrecognized (ia_unrecognized a) @
     opt_params PCookiePreservative (ia_cookie_preservative a) @
     opt_params PSupportedAddrTypes (ia_supported_addr_types a)"

text \<open>The size adds up the cookie, the aliases, the options and the unrecognized parameters.\<close>

definition init_ack_serialized_size :: "'f fake_addr_impl \<Rightarrow> 'f init_ack \<Rightarrow> usize" where
  "init_ack_serialized_size I a =
     4 + 16 + 4 + padded_len (state_cookie_serialized_size I (ia_cookie a))
     + params_size I (concat (map alias_params (ia_aliases a)))
     + params_size I (opt_params PCookiePreservative (ia_cookie_preservative a))
     + params_size I (opt_params PSupportedAddrTypes (ia_supported_addr_types a))
     + (\<Sum>u \<leftarrow> ia_unrecognized a. padded_len (PARAM_HEADER_SIZE + PARAM_HEADER_SIZE + length (up_data u)))"

definition init_ack_serialize :: "'f fake_addr_impl \<Rightarrow> 'f init_ack \<Rightarrow> bytes" where
  "init_ack_serialize I a =
     (let size = init_ack_serialized_size I a
      in [2, 0] @
         put_u16 (as_u16 size) @
         put_u32 (ia_initiate_tag a) @
         put_u32 (ia_a_rwnd a) @
         put_u16 (ia_outbound_streams a) @
         put_u16 (ia_inbound_streams a) @
         put_u32 (ia_initial_tsn a) @
         params_serialize I (init_ack_params_out a) @
         put_zeros (padding_needed size))"

subsection \<open>Parsing never panics\<close>

lemma init_params_returns: "returns (init_params data this)"
proof (induction data this rule: init_params.induct)
  case (1 data this)
  show ?case
  proof (cases "data = []")
    case True
    then show ?thesis by (simp add: init_params.simps)
  next
    case False
    obtain n r where nr: "param_parse data = Ret (n, r :: param_error + 'a param)"
      using param_parse_returns [where 'a = 'a, of data] by (auto simp: returns_iff)
    have adv: "advance data n = Ret (drop n data)"
      using param_parse_size(1) [OF nr] by simp
    note IH = 1 [OF False nr refl adv]
    show ?thesis
    proof (cases r)
      case (Inl e)
      with IH False nr adv show ?thesis
        by (cases e) (simp_all add: init_params.simps [of data this] Let_def)
    next
      case (Inr p)
      with IH False nr adv show ?thesis
        by (simp add: init_params.simps [of data this])
    qed
  qed
qed

lemma init_ack_params_returns: "returns (init_ack_params data v)"
proof (induction data v rule: init_ack_params.induct)
  case (1 data v)
  show ?case
  proof (cases "data = []")
    case True
    then show ?thesis by (simp add: init_ack_params.simps)
  next
    case False
    obtain n r where nr: "param_parse data = Ret (n, r :: param_error + 'a param)"
      using param_parse_returns [where 'a = 'a, of data] by (auto simp: returns_iff)
    have adv: "advance data n = Ret (drop n data)"
      using param_parse_size(1) [OF nr] by simp
    note IH = 1 [OF False nr refl adv]
    show ?thesis
    proof (cases r)
      case (Inl e)
      with IH False nr adv show ?thesis
        by (cases e) (simp_all add: init_ack_params.simps [of data v])
    next
      case (Inr p)
      with IH False nr adv show ?thesis
        by (simp add: init_ack_params.simps [of data v])
    qed
  qed
qed

lemma init_chunk_parse_returns: "returns (init_chunk_parse data)"
  by (simp add: init_chunk_parse_def get_enough init_params_returns)

lemma init_ack_parse_returns: "returns (init_ack_parse data :: 'f init_ack option rust)"
proof -
  obtain r where "init_ack_params (drop 16 data)
      \<lparr> iv_aliases = [] :: 'f transport_address list, iv_unrecognized = [],
        iv_cookie_preservative = None, iv_supported_addr_types = None, iv_cookie = None \<rparr> = Ret r"
    using init_ack_params_returns by (force simp: returns_iff)
  then show ?thesis
    by (simp add: init_ack_parse_def get_enough split: option.split)
qed

subsection \<open>Round trips\<close>

lemma init_params_Nil [simp]: "init_params [] c = Ret (Some c)"
  by (simp add: init_params.simps)

lemma init_ack_params_Nil [simp]: "init_ack_params [] v = Ret (Some v)"
  by (simp add: init_ack_params.simps)

lemma params_serialize_simps [simp]:
  "params_serialize I [] = []"
  "params_serialize I (p # ps) = param_serialize I p @ params_serialize I ps"
  by (simp_all add: params_serialize_def)

lemma params_size_simps [simp]:
  "params_size I [] = 0"
  "params_size I (p # ps) = padded_len (param_serialized_size I p) + params_size I ps"
  "params_size I (ps @ qs) = params_size I ps + params_size I qs"
  by (simp_all add: params_size_def)

lemma padding_padded_len [simp]: "padding_needed (padded_len n + m) = padding_needed m"
  by (simp add: padding_needed_def padded_len_def)

lemma padding_params_size [simp]: "padding_needed (params_size I ps) = 0"
  by (induction ps) simp_all

lemma padding_params_size_add [simp]: "padding_needed (params_size I ps + m) = padding_needed m"
  by (induction ps) (simp_all add: add.assoc)

lemma padding_20_params_size [simp]: "padding_needed (20 + params_size I ps) = 0"
  using padding_params_size_add [of I ps 20] by (simp add: add.commute)

lemma fold_alias_params_init:
  "fold init_add_param (concat (map alias_params as)) c =
     c\<lparr>ic_aliases := ic_aliases c @ filter (\<lambda>a. \<not> is_fake a) as\<rparr>"
proof (induction as arbitrary: c)
  case (Cons a as)
  then show ?case by (cases a) simp_all
qed simp

lemma fold_alias_params_init_ack:
  "fold init_ack_add_param (concat (map alias_params as)) v =
     v\<lparr>iv_aliases := iv_aliases v @ filter (\<lambda>a. \<not> is_fake a) as\<rparr>"
proof (induction as arbitrary: v)
  case (Cons a as)
  then show ?case by (cases a) simp_all
qed simp

lemma fold_unrecognized_init_ack:
  "fold init_ack_add_param (map PUnrecognized us) v =
     v\<lparr>iv_unrecognized := iv_unrecognized v @ us\<rparr>"
  by (induction us arbitrary: v) simp_all

lemma alias_params_fit: "\<forall>p \<in> set (concat (map alias_params as)). param_fits I p \<and> param_view I p = p"
proof (induction as)
  case (Cons a as)
  then show ?case by (cases a) (auto simp: param_fits_def param_view_def)
qed simp

text \<open>
  What survives the wire: an INIT arrives without its list of unrecognized parameters and
  without \<open>Fake\<close> aliases; an INIT ACK arrives with its cookie as bytes and without \<open>Fake\<close>
  aliases. A chunk fits when its size fits the 16-bit length and a cookie lifetime is a whole
  number of milliseconds below 2^32.
\<close>

definition lifetime_fits :: "duration option \<Rightarrow> bool" where
  "lifetime_fits d = (case d of None \<Rightarrow> True | Some d \<Rightarrow> d mod 1000000 = 0 \<and> d div 1000000 < 2 ^ 32)"

definition init_chunk_fits :: "'f fake_addr_impl \<Rightarrow> 'f init_chunk \<Rightarrow> bool" where
  "init_chunk_fits I c =
     (init_chunk_serialized_size I c < 65536 \<and> lifetime_fits (ic_cookie_preservative c))"

definition init_chunk_view :: "'f init_chunk \<Rightarrow> 'f init_chunk" where
  "init_chunk_view c =
     c\<lparr>ic_unrecognized := [], ic_aliases := filter (\<lambda>a. \<not> is_fake a) (ic_aliases c)\<rparr>"

definition init_ack_fits :: "'f fake_addr_impl \<Rightarrow> 'f init_ack \<Rightarrow> bool" where
  "init_ack_fits I a =
     (init_ack_serialized_size I a < 65536 \<and> lifetime_fits (ia_cookie_preservative a))"

definition init_ack_view :: "'f fake_addr_impl \<Rightarrow> 'f init_ack \<Rightarrow> 'f init_ack" where
  "init_ack_view I a =
     a\<lparr>ia_cookie := Opaque (state_cookie_serialize I (ia_cookie a)),
       ia_aliases := filter (\<lambda>a. \<not> is_fake a) (ia_aliases a)\<rparr>"

lemma opt_params_fit:
  "lifetime_fits d \<Longrightarrow> \<forall>p \<in> set (opt_params PCookiePreservative d). param_fits I p \<and> param_view I p = p"
  "\<forall>p \<in> set (opt_params PSupportedAddrTypes s). param_fits I p \<and> param_view I p = p"
  by (auto simp: opt_params_def lifetime_fits_def param_fits_def param_view_def
      PARAM_HEADER_SIZE_def split: option.splits)

lemma fold_opt_params:
  "fold init_add_param (opt_params PCookiePreservative d) c =
     (case d of None \<Rightarrow> c | Some t \<Rightarrow> c\<lparr>ic_cookie_preservative := Some t\<rparr>)"
  "fold init_add_param (opt_params PSupportedAddrTypes s) c =
     (case s of None \<Rightarrow> c | Some t \<Rightarrow> c\<lparr>ic_supported_addr_types := Some t\<rparr>)"
  "fold init_ack_add_param (opt_params PCookiePreservative d) v =
     (case d of None \<Rightarrow> v | Some t \<Rightarrow> v\<lparr>iv_cookie_preservative := Some t\<rparr>)"
  "fold init_ack_add_param (opt_params PSupportedAddrTypes s) v =
     (case s of None \<Rightarrow> v | Some t \<Rightarrow> v\<lparr>iv_supported_addr_types := Some t\<rparr>)"
  by (auto simp: opt_params_def split: option.splits)

lemma init_chunk_params_fit:
  "init_chunk_fits I c \<Longrightarrow>
     \<forall>p \<in> set (init_chunk_params c). param_fits I p \<and> param_view I p = p"
  using alias_params_fit [of "ic_aliases c" I] opt_params_fit(1) [of "ic_cookie_preservative c" I]
    opt_params_fit(2) [of "ic_supported_addr_types c" I]
  by (simp only: init_chunk_fits_def init_chunk_params_def set_append) blast

lemma map_param_view: "\<forall>p \<in> set ps. param_fits I p \<and> param_view I p = p \<Longrightarrow> map (param_view I) ps = ps"
  by (simp add: map_idI)

context fake_addr
begin

lemma params_serialize_length:
  "\<forall>p \<in> set ps. param_fits I p \<Longrightarrow> length (params_serialize I ps) = params_size I ps"
  by (induction ps) (simp_all add: param_fits_length)

lemma init_params_serialize:
  "\<forall>p \<in> set ps. param_fits I p \<Longrightarrow>
     init_params (params_serialize I ps) c = Ret (Some (fold init_add_param (map (param_view I) ps) c))"
proof (induction ps arbitrary: c)
  case (Cons p ps)
  then have p: "param_fits I p" by simp
  note len = param_fits_length [OF p]
  have "param_parse (params_serialize I (p # ps)) =
      Ret (length (param_serialize I p), Inr (param_view I p))"
    using param_roundtrip [OF p, of "params_serialize I ps"] len(1) by simp
  with Cons len(2) show ?case
    by (subst init_params.simps) simp
qed simp

lemma init_ack_params_serialize:
  "\<forall>p \<in> set ps. param_fits I p \<Longrightarrow>
     init_ack_params (params_serialize I ps) v =
       Ret (Some (fold init_ack_add_param (map (param_view I) ps) v))"
proof (induction ps arbitrary: v)
  case (Cons p ps)
  then have p: "param_fits I p" by simp
  note len = param_fits_length [OF p]
  have "param_parse (params_serialize I (p # ps)) =
      Ret (length (param_serialize I p), Inr (param_view I p))"
    using param_roundtrip [OF p, of "params_serialize I ps"] len(1) by simp
  with Cons len(2) show ?case
    by (subst init_ack_params.simps) simp
qed simp

lemma init_chunk_value_roundtrip:
  assumes "init_chunk_fits I c"
  shows "init_chunk_parse
      (put_u32 (ic_initiate_tag c) @ put_u32 (ic_a_rwnd c) @ put_u16 (ic_outbound_streams c) @
       put_u16 (ic_inbound_streams c) @ put_u32 (ic_initial_tsn c) @
       params_serialize I (init_chunk_params c)) = Ret (Some (init_chunk_view c))"
proof -
  note fit = init_chunk_params_fit [OF assms]
  have "init_params (params_serialize I (init_chunk_params c)) d =
      Ret (Some (fold init_add_param (init_chunk_params c) d))" for d
    using init_params_serialize [of "init_chunk_params c" d] fit map_param_view [OF fit] by simp
  then show ?thesis
    by (simp add: init_chunk_parse_def)
       (cases c, simp add: init_chunk_params_def fold_alias_params_init fold_opt_params
          init_chunk_view_def split: option.split)
qed

lemma init_ack_params_fit:
  assumes "init_ack_fits I a"
  shows "\<forall>p \<in> set (init_ack_params_out a). param_fits I p"
    and "\<forall>p \<in> set (tl (init_ack_params_out a)). param_fits I p \<and> param_view I p = p"
proof -
  have size: "init_ack_serialized_size I a < 65536"
    and life: "lifetime_fits (ia_cookie_preservative a)"
    using assms by (simp_all add: init_ack_fits_def)
  have "padded_len (state_cookie_serialized_size I (ia_cookie a)) + 4 < 65536"
    using size by (simp add: init_ack_serialized_size_def)
  then have cookie: "param_fits I (PStateCookie (ia_cookie a))"
    using padded_len_ge [of "state_cookie_serialized_size I (ia_cookie a)"]
    by (simp add: param_fits_def PARAM_HEADER_SIZE_def)
  have "8 + length (up_data u) < 65536" if "u \<in> set (ia_unrecognized a)" for u
    using size padded_len_ge [of "8 + length (up_data u)"]
      member_le_sum_list_map [OF that, of "\<lambda>u. padded_len (8 + length (up_data u))"]
    by (simp add: init_ack_serialized_size_def PARAM_HEADER_SIZE_def)
  then have unrec: "\<forall>p \<in> set (map PUnrecognized (ia_unrecognized a)). param_fits I p \<and> param_view I p = p"
    by (auto simp: param_fits_def param_view_def PARAM_HEADER_SIZE_def)
  show tl: "\<forall>p \<in> set (tl (init_ack_params_out a)). param_fits I p \<and> param_view I p = p"
    using alias_params_fit [of "ia_aliases a" I] opt_params_fit(1) [OF life, of I]
      opt_params_fit(2) [of "ia_supported_addr_types a" I] unrec
    by (simp only: init_ack_params_out_def list.sel set_append) blast
  show "\<forall>p \<in> set (init_ack_params_out a). param_fits I p"
    using tl cookie by (simp add: init_ack_params_out_def)
qed

lemma init_ack_value_roundtrip:
  assumes "init_ack_fits I a"
  shows "init_ack_parse
      (put_u32 (ia_initiate_tag a) @ put_u32 (ia_a_rwnd a) @ put_u16 (ia_outbound_streams a) @
       put_u16 (ia_inbound_streams a) @ put_u32 (ia_initial_tsn a) @
       params_serialize I (init_ack_params_out a)) = Ret (Some (init_ack_view I a))"
proof -
  note fit = init_ack_params_fit [OF assms]
  have view: "map (param_view I) (init_ack_params_out a) =
      PStateCookie (Opaque (state_cookie_serialize I (ia_cookie a))) # tl (init_ack_params_out a)"
    using map_param_view [OF fit(2)]
    by (simp add: init_ack_params_out_def param_view_def)
  have "init_ack_params (params_serialize I (init_ack_params_out a)) v =
      Ret (Some (fold init_ack_add_param (map (param_view I) (init_ack_params_out a)) v))" for v
    using init_ack_params_serialize [OF fit(1)] .
  then show ?thesis
    by (simp add: init_ack_parse_def view)
       (cases a, simp add: init_ack_params_out_def fold_alias_params_init_ack
          fold_unrecognized_init_ack fold_opt_params init_ack_view_def split: option.split)
qed

lemma init_chunk_serialize_length:
  assumes "init_chunk_fits I c"
  shows "length (init_chunk_serialize I c) = init_chunk_serialized_size I c"
  using params_serialize_length [of "init_chunk_params c"] init_chunk_params_fit [OF assms]
  by (simp add: init_chunk_serialize_def init_chunk_serialized_size_def Let_def)

lemma init_ack_size_params:
  "init_ack_serialized_size I a = 20 + params_size I (init_ack_params_out a)"
proof -
  have "params_size I (map PUnrecognized us) =
      (\<Sum>u \<leftarrow> us. padded_len (PARAM_HEADER_SIZE + PARAM_HEADER_SIZE + length (up_data u)))" for us
    by (induction us) simp_all
  then show ?thesis
    by (simp add: init_ack_serialized_size_def init_ack_params_out_def PARAM_HEADER_SIZE_def
        padded_len_padding)
qed

lemma init_ack_serialize_length:
  assumes "init_ack_fits I a"
  shows "length (init_ack_serialize I a) = init_ack_serialized_size I a"
  using params_serialize_length [OF init_ack_params_fit(1) [OF assms]]
  by (simp add: init_ack_serialize_def init_ack_size_params Let_def)

end

end
