(* ===== verification/Chunks.thy ===== *)
theory Chunks
  imports Init_Chunks
begin

unbundle bit_operations_syntax

text \<open>
  Packets and chunks (\<open>src/packet.rs\<close>, \<open>src/packet/data.rs\<close>, \<open>src/packet/sack.rs\<close>): the
  common header with its checksum, the chunk types, the dispatching parser, the serializer and
  the sizes. The CRC-32C of the \<open>crc\<close> crate is a parameter: a function of the bytes digested.
  The serializer panics (\<open>unimplemented!\<close>) on the chunk types it does not know.
\<close>

subsection \<open>Packet header\<close>

record packet =
  pk_from :: u16
  pk_to :: u16
  pk_verification_tag :: u32

type_synonym crc32 = "bytes \<Rightarrow> u32"

definition packet_new :: "u16 \<Rightarrow> u16 \<Rightarrow> u32 \<Rightarrow> packet" where
  "packet_new from to tag = \<lparr>pk_from = from, pk_to = to, pk_verification_tag = tag\<rparr>"

definition packet_parse :: "crc32 \<Rightarrow> bytes \<Rightarrow> packet option" where
  "packet_parse crc data =
     (if length data < 12 then None
      else
        let from = of_nat (be_nat (take 2 data));
            to = of_nat (be_nat (take 2 (drop 2 data)));
            tag = of_nat (be_nat (take 4 (drop 4 data)));
            checksum = of_nat (be_nat (rev (take 4 (drop 8 data))))
        in if crc (take 8 data @ [0, 0, 0, 0] @ drop 12 data) \<noteq> checksum then None
           else Some \<lparr>pk_from = from, pk_to = to, pk_verification_tag = tag\<rparr>)"

text \<open>The header only: the caller puts the chunks behind it.\<close>

definition packet_serialize :: "crc32 \<Rightarrow> packet \<Rightarrow> bytes \<Rightarrow> bytes" where
  "packet_serialize crc p chunks =
     (let head = put_u16 (pk_from p) @ put_u16 (pk_to p) @ put_u32 (pk_verification_tag p)
      in head @ put_u32_le (crc (head @ [0, 0, 0, 0] @ chunks)))"

subsection \<open>DATA\<close>

record data_chunk =
  dc_tsn :: tsn
  dc_stream_id :: u16
  dc_stream_seq_num :: sequence
  dc_ppid :: u32
  dc_buf :: bytes
  dc_immediate :: bool
  dc_unordered :: bool
  dc_begin :: bool
  dc_end :: bool

definition CHUNK_HEADER_SIZE :: usize where "CHUNK_HEADER_SIZE = 4"

definition data_chunk_parse :: "u8 \<Rightarrow> bytes \<Rightarrow> data_chunk option rust" where
  "data_chunk_parse flags data =
     (if length data < 13 then Ret None
      else
        bindR (get_u32 data) (\<lambda>(tsn, data).
        bindR (get_u16 data) (\<lambda>(stream_id, data).
        bindR (get_u16 data) (\<lambda>(stream_seq_num, data).
        bindR (get_u32 data) (\<lambda>(ppid, data).
          Ret (Some
            \<lparr> dc_tsn = tsn,
              dc_stream_id = stream_id,
              dc_stream_seq_num = stream_seq_num,
              dc_ppid = ppid,
              dc_buf = data,
              dc_immediate = (flags AND 8 = 8),
              dc_unordered = (flags AND 4 = 4),
              dc_begin = (flags AND 2 = 2),
              dc_end = (flags AND 1 = 1) \<rparr>))))))"

definition data_chunk_serialized_size :: "data_chunk \<Rightarrow> usize" where
  "data_chunk_serialized_size d = 16 + length (dc_buf d)"

definition data_chunk_serialize_flags :: "data_chunk \<Rightarrow> u8" where
  "data_chunk_serialize_flags d =
     (let flags = 0;
          flags = (if dc_immediate d then flags OR 8 else flags);
          flags = (if dc_unordered d then flags OR 4 else flags);
          flags = (if dc_begin d then flags OR 2 else flags);
          flags = (if dc_end d then flags OR 1 else flags)
      in flags)"

definition data_chunk_serialize :: "data_chunk \<Rightarrow> bytes" where
  "data_chunk_serialize d =
     (if dc_buf d = [] then []
      else
        let size = data_chunk_serialized_size d
        in [0, data_chunk_serialize_flags d] @
           put_u16 (as_u16 size) @
           put_u32 (dc_tsn d) @
           put_u16 (dc_stream_id d) @
           put_u16 (dc_stream_seq_num d) @
           put_u32 (dc_ppid d) @
           dc_buf d @
           put_zeros (padding_needed size))"

subsection \<open>SACK\<close>

record selective_ack =
  cum_tsn :: tsn
  sa_a_rwnd :: u32
  blocks :: "(u16 \<times> u16) list"
  duplicated_tsn :: "u32 list"

fun get_blocks :: "nat \<Rightarrow> bytes \<Rightarrow> ((u16 \<times> u16) list \<times> bytes) rust" where
  "get_blocks 0 data = Ret ([], data)"
| "get_blocks (Suc n) data =
     bindR (get_u16 data) (\<lambda>(a, data).
     bindR (get_u16 data) (\<lambda>(b, data).
     bindR (get_blocks n data) (\<lambda>(bs, data). Ret ((a, b) # bs, data))))"

fun get_dups :: "nat \<Rightarrow> bytes \<Rightarrow> (u32 list \<times> bytes) rust" where
  "get_dups 0 data = Ret ([], data)"
| "get_dups (Suc n) data =
     bindR (get_u32 data) (\<lambda>(t, data).
     bindR (get_dups n data) (\<lambda>(ts, data). Ret (t # ts, data)))"

definition sack_parse :: "bytes \<Rightarrow> selective_ack option rust" where
  "sack_parse data =
     (if length data < 4 + 4 + 2 + 2 then Ret None
      else
        bindR (get_u32 data) (\<lambda>(cum, data).
        bindR (get_u32 data) (\<lambda>(a_rwnd, data).
        bindR (get_u16 data) (\<lambda>(n_blocks, data).
        bindR (get_u16 data) (\<lambda>(n_dups, data).
          if length data < 4 * (unat n_blocks + unat n_dups) then Ret None
          else
            bindR (get_blocks (unat n_blocks) data) (\<lambda>(bs, data).
            bindR (get_dups (unat n_dups) data) (\<lambda>(dups, data).
              Ret (Some \<lparr>cum_tsn = cum, sa_a_rwnd = a_rwnd, blocks = bs, duplicated_tsn = dups\<rparr>))))))))"

definition sack_serialized_size :: "selective_ack \<Rightarrow> usize" where
  "sack_serialized_size s =
     CHUNK_HEADER_SIZE + 4 + 4 + 2 + 2 + length (blocks s) * 4 + length (duplicated_tsn s) * 4"

definition sack_serialize :: "selective_ack \<Rightarrow> bytes" where
  "sack_serialize s =
     (let size = sack_serialized_size s
      in [3, 0] @
         put_u16 (as_u16 size) @
         put_u32 (cum_tsn s) @
         put_u32 (sa_a_rwnd s) @
         put_u16 (as_u16 (length (blocks s))) @
         put_u16 (as_u16 (length (duplicated_tsn s))) @
         concat (map (\<lambda>(a, b). put_u16 a @ put_u16 b) (blocks s)) @
         concat (map put_u32 (duplicated_tsn s)) @
         put_zeros (padding_needed size))"

subsection \<open>HEARTBEAT and PAD\<close>

datatype heart_beat = HbOpaque bytes | HbOurs u32        \<comment> \<open>\<open>pmtu_probe\<close>\<close>
datatype heart_beat_ack = HbaOpaque bytes | HbaOurs u32  \<comment> \<open>\<open>pmtu_probe\<close>\<close>

definition next_multiple_of :: "usize \<Rightarrow> usize \<Rightarrow> usize" where
  "next_multiple_of n m = ((n + (m - 1)) div m) * m"

definition padding_chunk_serialize :: "usize \<Rightarrow> bytes" where
  "padding_chunk_serialize n =
     (let size = CHUNK_HEADER_SIZE + next_multiple_of n 4
      in [132, 0] @ put_u16 (as_u16 size) @ put_zeros (next_multiple_of n 4))"

definition padding_chunk_serialized_size :: "usize \<Rightarrow> usize" where
  "padding_chunk_serialized_size n = CHUNK_HEADER_SIZE + next_multiple_of n 4"

fun heart_beat_serialize :: "heart_beat \<Rightarrow> bytes" where
  "heart_beat_serialize (HbOpaque data) =
     (let size = length data + CHUNK_HEADER_SIZE
      in [4, 0] @ put_u16 (as_u16 size) @ data @ put_zeros (padding_needed size))"
| "heart_beat_serialize (HbOurs pmtu_probe) =
     (let size = CHUNK_HEADER_SIZE + 4 + 4
      in [4, 0] @ put_u16 (as_u16 size) @ put_u16 1 @ put_u16 8 @ put_u32 pmtu_probe @
         (if pmtu_probe > 0 then padding_chunk_serialize (unat pmtu_probe) else []))"

fun heart_beat_serialized_size :: "heart_beat \<Rightarrow> usize" where
  "heart_beat_serialized_size (HbOpaque data) = length data + CHUNK_HEADER_SIZE"
| "heart_beat_serialized_size (HbOurs pmtu_probe) =
     CHUNK_HEADER_SIZE + 4 + 4
       + (if pmtu_probe > 0 then padding_chunk_serialized_size (unat pmtu_probe) else 0)"

fun heart_beat_ack_from :: "heart_beat \<Rightarrow> heart_beat_ack" where
  "heart_beat_ack_from (HbOpaque data) = HbaOpaque data"
| "heart_beat_ack_from (HbOurs pmtu_probe) = HbaOurs pmtu_probe"

fun heart_beat_ack_serialize :: "heart_beat_ack \<Rightarrow> bytes" where
  "heart_beat_ack_serialize (HbaOpaque data) =
     (let size = length data + CHUNK_HEADER_SIZE
      in [5, 0] @ put_u16 (as_u16 size) @ data @ put_zeros (padding_needed size))"
| "heart_beat_ack_serialize (HbaOurs pmtu_probe) =
     (let size = CHUNK_HEADER_SIZE + 4 + 4
      in [5, 0] @ put_u16 (as_u16 size) @ put_u16 1 @ put_u16 8 @ put_u32 pmtu_probe)"

fun heart_beat_ack_serialized_size :: "heart_beat_ack \<Rightarrow> usize" where
  "heart_beat_ack_serialized_size (HbaOpaque data) = length data + CHUNK_HEADER_SIZE"
| "heart_beat_ack_serialized_size (HbaOurs _) = CHUNK_HEADER_SIZE + 4 + 4"

fun heart_beat_ack_ours :: "heart_beat_ack \<Rightarrow> u32 option rust" where
  "heart_beat_ack_ours (HbaOurs pmtu_probe) = Ret (Some pmtu_probe)"
| "heart_beat_ack_ours (HbaOpaque data) =
     bindR (get_u16 data) (\<lambda>(t, data).
       if t = 1 then
         bindR (get_u16 data) (\<lambda>(size, data).
           if size = 8 \<and> length data = 4
           then bindR (get_u32 data) (\<lambda>(p, _). Ret (Some p))
           else Ret None)
       else Ret None)"

subsection \<open>Chunks\<close>

datatype 'f chunk =
    CData data_chunk
  | CInit "'f init_chunk"
  | CInitAck "'f init_ack"
  | CSAck selective_ack
  | CHeartBeat heart_beat
  | CHeartBeatAck heart_beat_ack
  | CAbort bool bytes        \<comment> \<open>\<open>reflected\<close>, \<open>error_causes\<close>\<close>
  | CShutDown tsn
  | CShutDownAck
  | COpError
  | CStateCookie "'f state_cookie"
  | CStateCookieAck
  | CReservedECNE
  | CReservedCWR
  | CShutDownComplete bool   \<comment> \<open>\<open>reflected\<close>\<close>
  | CPadding usize

definition first_chunk_is :: "u8 \<Rightarrow> bytes \<Rightarrow> bool" where
  "first_chunk_is t data = (if length data < CHUNK_HEADER_SIZE then False else data ! 0 = t)"

definition is_init :: "bytes \<Rightarrow> bool" where "is_init data = first_chunk_is 1 data"
definition is_init_ack :: "bytes \<Rightarrow> bool" where "is_init_ack data = first_chunk_is 2 data"
definition is_cookie_echo :: "bytes \<Rightarrow> bool" where "is_cookie_echo data = first_chunk_is 10 data"
definition is_cookie_ack :: "bytes \<Rightarrow> bool" where "is_cookie_ack data = first_chunk_is 11 data"

definition chunk_parse_error :: "u8 \<Rightarrow> parse_error" where
  "chunk_parse_error typ =
     (let hi = drop_bit 6 typ
      in if hi = 0 then Unrecognized False True
         else if hi = 1 then Unrecognized True True
         else if hi = 2 then Unrecognized False False
         else Unrecognized True False)"

definition option_chunk :: "('b \<Rightarrow> 'f chunk) \<Rightarrow> 'b option \<Rightarrow> parse_error + 'f chunk" where
  "option_chunk C x = (case x of None \<Rightarrow> Inl IllegalFormat | Some v \<Rightarrow> Inr (C v))"

text \<open>The \<open>match\<close> on the chunk type.\<close>

definition chunk_match :: "u8 \<Rightarrow> u8 \<Rightarrow> bytes \<Rightarrow> (parse_error + 'f chunk) rust" where
  "chunk_match typ flags v =
     (if typ = 0 then bindR (data_chunk_parse flags v) (\<lambda>x. Ret (option_chunk CData x))
      else if typ = 1 then bindR (init_chunk_parse v) (\<lambda>x. Ret (option_chunk CInit x))
      else if typ = 2 then bindR (init_ack_parse v) (\<lambda>x. Ret (option_chunk CInitAck x))
      else if typ = 3 then bindR (sack_parse v) (\<lambda>x. Ret (option_chunk CSAck x))
      else if typ = 4 then Ret (Inr (CHeartBeat (HbOpaque v)))
      else if typ = 5 then Ret (Inr (CHeartBeatAck (HbaOpaque v)))
      else if typ = 6 then Ret (Inr (CAbort (flags AND 1 = 1) v))
      else if typ = 7 then
        if length v \<noteq> 4 then Ret (Inl IllegalFormat)
        else bindR (get_u32 v) (\<lambda>(t, _). Ret (Inr (CShutDown t)))
      else if typ = 8 then
        if v \<noteq> [] then Ret (Inl IllegalFormat) else Ret (Inr CShutDownAck)
      else if typ = 9 then Ret (Inr COpError)
      else if typ = 10 then Ret (Inr (CStateCookie (Opaque v)))
      else if typ = 11 then
        if v \<noteq> [] then Ret (Inl IllegalFormat) else Ret (Inr CStateCookieAck)
      else if typ = 12 then Ret (Inr CReservedECNE)
      else if typ = 13 then Ret (Inr CReservedCWR)
      else if typ = 14 then
        if v \<noteq> [] then Ret (Inl IllegalFormat) else Ret (Inr (CShutDownComplete (flags AND 1 = 1)))
      else if typ = 132 then Ret (Inr (CPadding (length v)))
      else Ret (Inl (chunk_parse_error typ)))"

definition chunk_parse :: "bytes \<Rightarrow> (usize \<times> (parse_error + 'f chunk)) rust" where
  "chunk_parse data =
     (if length data < CHUNK_HEADER_SIZE then Ret (length data, Inl Done)
      else
        let typ = data ! 0;
            flags = data ! 1;
            len = be_nat (take 2 (drop 2 data))
        in if len > length data then Ret (length data, Inl IllegalFormat)
           else if len < CHUNK_HEADER_SIZE then Ret (length data, Inl IllegalFormat)
           else
             let v = take (len - CHUNK_HEADER_SIZE) (drop CHUNK_HEADER_SIZE data);
                 padded = min (padded_len len) (length data)
             in bindR (chunk_match typ flags v) (\<lambda>res. Ret (padded, res)))"

definition COOKIE_ACK_BYTES :: bytes where "COOKIE_ACK_BYTES = [11, 0, 0, 4]"

fun chunk_serialize :: "'f fake_addr_impl \<Rightarrow> 'f chunk \<Rightarrow> bytes rust" where
  "chunk_serialize I (CData d) = Ret (data_chunk_serialize d)"
| "chunk_serialize I CStateCookieAck = Ret COOKIE_ACK_BYTES"
| "chunk_serialize I (CInit c) = Ret (init_chunk_serialize I c)"
| "chunk_serialize I (CInitAck a) = Ret (init_ack_serialize I a)"
| "chunk_serialize I (CStateCookie c) =
     (let size = state_cookie_serialized_size I c
      in Ret ([10, 0] @ put_u16 (as_u16 (CHUNK_HEADER_SIZE + size)) @
              state_cookie_serialize I c @ put_zeros (padding_needed size)))"
| "chunk_serialize I (CSAck s) = Ret (sack_serialize s)"
| "chunk_serialize I (CHeartBeat h) = Ret (heart_beat_serialize h)"
| "chunk_serialize I (CHeartBeatAck h) = Ret (heart_beat_ack_serialize h)"
| "chunk_serialize I (CAbort reflected error_causes) =
     (let size = CHUNK_HEADER_SIZE + length error_causes
      in Ret ([6, if reflected then 1 else 0] @ put_u16 (as_u16 size) @ error_causes @
              put_zeros (padding_needed size)))"
| "chunk_serialize I (CShutDown t) =
     (let size = 4 + CHUNK_HEADER_SIZE
      in Ret ([7, 0] @ put_u16 (as_u16 size) @ put_u32 t))"
| "chunk_serialize I CShutDownAck = Ret ([8, 0] @ put_u16 (as_u16 CHUNK_HEADER_SIZE))"
| "chunk_serialize I (CShutDownComplete reflected) =
     Ret ([14, if reflected then 1 else 0] @ put_u16 (as_u16 CHUNK_HEADER_SIZE))"
| "chunk_serialize I (CPadding n) = Ret (padding_chunk_serialize n)"
| "chunk_serialize I _ = Panic NotYetImplemented"

fun chunk_serialized_size :: "'f fake_addr_impl \<Rightarrow> 'f chunk \<Rightarrow> usize rust" where
  "chunk_serialized_size I (CData d) = Ret (data_chunk_serialized_size d)"
| "chunk_serialized_size I CStateCookieAck = Ret (length COOKIE_ACK_BYTES)"
| "chunk_serialized_size I (CInit c) = Ret (init_chunk_serialized_size I c)"
| "chunk_serialized_size I (CInitAck a) = Ret (init_ack_serialized_size I a)"
| "chunk_serialized_size I (CStateCookie c) =
     Ret (CHUNK_HEADER_SIZE + state_cookie_serialized_size I c)"
| "chunk_serialized_size I (CSAck s) = Ret (sack_serialized_size s)"
| "chunk_serialized_size I (CHeartBeat h) = Ret (heart_beat_serialized_size h)"
| "chunk_serialized_size I (CHeartBeatAck h) = Ret (heart_beat_ack_serialized_size h)"
| "chunk_serialized_size I (CAbort _ error_causes) =
     Ret (CHUNK_HEADER_SIZE + length error_causes)"
| "chunk_serialized_size I (CShutDown _) = Ret (CHUNK_HEADER_SIZE + 4)"
| "chunk_serialized_size I CShutDownAck = Ret CHUNK_HEADER_SIZE"
| "chunk_serialized_size I (CShutDownComplete _) = Ret CHUNK_HEADER_SIZE"
| "chunk_serialized_size I (CPadding n) = Ret (padding_chunk_serialized_size n)"
| "chunk_serialized_size I _ = Panic NotYetImplemented"

definition chunk_padded_serialized_size :: "'f fake_addr_impl \<Rightarrow> 'f chunk \<Rightarrow> usize rust" where
  "chunk_padded_serialized_size I c = bindR (chunk_serialized_size I c) (\<lambda>n. Ret (padded_len n))"

subsection \<open>Parsing never panics and makes progress\<close>

lemma get_blocks_returns:
  "4 * n \<le> length data \<Longrightarrow> \<exists>bs. get_blocks n data = Ret (bs, drop (4 * n) data)"
proof (induction n arbitrary: data)
  case (Suc n)
  have "4 * n \<le> length (drop 4 data)" using Suc.prems by simp
  then obtain bs where "get_blocks n (drop 4 data) = Ret (bs, drop (4 * n) (drop 4 data))"
    using Suc.IH by blast
  with Suc.prems show ?case by (simp add: get_enough add.commute)
qed simp

lemma get_dups_returns:
  "4 * n \<le> length data \<Longrightarrow> \<exists>ts. get_dups n data = Ret (ts, drop (4 * n) data)"
proof (induction n arbitrary: data)
  case (Suc n)
  have "4 * n \<le> length (drop 4 data)" using Suc.prems by simp
  then obtain ts where "get_dups n (drop 4 data) = Ret (ts, drop (4 * n) (drop 4 data))"
    using Suc.IH by blast
  with Suc.prems show ?case by (simp add: get_enough add.commute)
qed simp

lemma sack_parse_returns: "returns (sack_parse data)"
proof (cases "length data < 12")
  case True
  then show ?thesis by (simp add: sack_parse_def)
next
  case False
  define nb nd where "nb = unat (of_nat (be_nat (take 2 (drop 8 data))) :: u16)"
    and "nd = unat (of_nat (be_nat (take 2 (drop 10 data))) :: u16)"
  show ?thesis
  proof (cases "length (drop 12 data) < 4 * (nb + nd)")
    case True
    with False show ?thesis
      by (simp add: sack_parse_def get_enough nb_def nd_def)
  next
    case le: False
    then obtain bs where bs: "get_blocks nb (drop 12 data) = Ret (bs, drop (4 * nb) (drop 12 data))"
      using get_blocks_returns [of nb "drop 12 data"] by auto
    moreover have "4 * nd \<le> length (drop (4 * nb) (drop 12 data))"
      using le False by simp
    then obtain ts where "get_dups nd (drop (4 * nb) (drop 12 data)) =
        Ret (ts, drop (4 * nd) (drop (4 * nb) (drop 12 data)))"
      using get_dups_returns by blast
    ultimately show ?thesis
      using False le by (simp add: sack_parse_def get_enough nb_def nd_def)
  qed
qed

lemma data_chunk_parse_returns: "returns (data_chunk_parse flags data)"
  by (simp add: data_chunk_parse_def get_enough)

lemma chunk_match_returns: "returns (chunk_match typ flags v)"
  using data_chunk_parse_returns [of flags v] sack_parse_returns [of v]
    init_chunk_parse_returns [of v, where 'a = 'a] init_ack_parse_returns [of v, where 'f = 'a]
  by (auto simp: chunk_match_def returns_iff get_enough)

lemma chunk_parse_returns: "returns (chunk_parse data)"
  by (simp add: chunk_parse_def Let_def returns_bindR chunk_match_returns [unfolded returns_iff])

lemma chunk_parse_size:
  assumes "chunk_parse data = Ret (n, r)"
  shows "n \<le> length data" and "data \<noteq> [] \<Longrightarrow> 0 < n"
proof -
  have "n = length data \<or> (\<exists>len. 4 \<le> len \<and> n = min (padded_len len) (length data))"
    using assms
    by (auto simp: chunk_parse_def Let_def outcome CHUNK_HEADER_SIZE_def not_less split: if_splits)
  moreover have "4 \<le> len \<Longrightarrow> 0 < padded_len len" for len
    using padded_len_ge [of len] by simp
  ultimately show "n \<le> length data" and "data \<noteq> [] \<Longrightarrow> 0 < n"
    by auto
qed

subsection \<open>Round trips\<close>

lemma next_multiple_of_4 [simp]: "next_multiple_of n 4 = padded_len n"
  by (simp add: next_multiple_of_def padded_len_def)

lemma padded_len_idem [simp]: "padding_needed (padded_len n) = 0"
  by (simp add: padding_needed_def padded_len_def)

lemma chunk_parse_tlv:
  assumes "unat l = 4 + length v" and "length pad = padding_needed (4 + length v)"
  shows "chunk_parse ([t, f] @ put_u16 l @ v @ pad @ r) =
    bindR (chunk_match t f v) (\<lambda>res. Ret (padded_len (4 + length v), res))"
proof -
  have "padded_len (4 + length v) \<le> length ([t, f] @ put_u16 l @ v @ pad @ r)"
    using assms by (simp add: padded_len_padding)
  then show ?thesis
    using assms
    by (simp add: chunk_parse_def CHUNK_HEADER_SIZE_def Let_def min_def)
qed

lemma flags_roundtrip:
  assumes "f = data_chunk_serialize_flags d"
  shows "(f AND 8 = 8) = dc_immediate d" "(f AND 4 = 4) = dc_unordered d"
    "(f AND 2 = 2) = dc_begin d" "(f AND 1 = 1) = dc_end d"
  unfolding assms
  by (cases "dc_immediate d"; cases "dc_unordered d"; cases "dc_begin d"; cases "dc_end d";
      simp add: data_chunk_serialize_flags_def Let_def)+

lemma get_blocks_put:
  "get_blocks (length bs) (concat (map (\<lambda>(a, b). put_u16 a @ put_u16 b) bs) @ r) = Ret (bs, r)"
  by (induction bs) (simp_all split: prod.split)

lemma get_dups_put: "get_dups (length ts) (concat (map put_u32 ts) @ r) = Ret (ts, r)"
  by (induction ts) simp_all

lemma length_blocks_bytes [simp]:
  "length (concat (map (\<lambda>(a, b). put_u16 a @ put_u16 b) bs)) = 4 * length bs"
  by (induction bs) (simp_all split: prod.split)

lemma length_dups_bytes [simp]: "length (concat (map put_u32 ts)) = 4 * length ts"
  by (induction ts) simp_all

lemma data_chunk_roundtrip:
  assumes "dc_buf d \<noteq> []" and "data_chunk_serialized_size d < 65536"
  shows "chunk_parse (data_chunk_serialize d @ r) =
    Ret (padded_len (data_chunk_serialized_size d), Inr (CData d))"
proof -
  let ?v = "put_u32 (dc_tsn d) @ put_u16 (dc_stream_id d) @ put_u16 (dc_stream_seq_num d) @
    put_u32 (dc_ppid d) @ dc_buf d"
  have "\<not> length ?v < 13"
    using assms(1) by (cases "dc_buf d") simp_all
  then have "data_chunk_parse (data_chunk_serialize_flags d) ?v = Ret (Some d)"
    unfolding data_chunk_parse_def by (simp only: if_False wire bindR.simps prod.case)
      (simp add: flags_roundtrip [OF refl])
  then show ?thesis
    using assms chunk_parse_tlv [of "as_u16 (16 + length (dc_buf d))" ?v
        "put_zeros (padding_needed (16 + length (dc_buf d)))" 0 "data_chunk_serialize_flags d" r]
    by (simp add: data_chunk_serialize_def data_chunk_serialized_size_def Let_def unat_as_u16
        chunk_match_def option_chunk_def)
qed

lemma sack_value_roundtrip:
  assumes "sack_serialized_size s < 65536"
  shows "sack_parse
     (put_u32 (cum_tsn s) @ put_u32 (sa_a_rwnd s) @ put_u16 (as_u16 (length (blocks s))) @
      put_u16 (as_u16 (length (duplicated_tsn s))) @
      concat (map (\<lambda>(a, b). put_u16 a @ put_u16 b) (blocks s)) @
      concat (map put_u32 (duplicated_tsn s))) = Ret (Some s)"
proof -
  have "length (blocks s) < 65536" "length (duplicated_tsn s) < 65536"
    using assms by (simp_all add: sack_serialized_size_def CHUNK_HEADER_SIZE_def)
  then show ?thesis
    using get_dups_put [of "duplicated_tsn s" "[]"]
    by (simp add: sack_parse_def unat_as_u16 get_blocks_put)
qed

lemma sack_padding: "padding_needed (sack_serialized_size s) = 0"
  by (simp add: sack_serialized_size_def CHUNK_HEADER_SIZE_def padding_needed_def mod_add_eq)

lemma sack_roundtrip:
  assumes "sack_serialized_size s < 65536"
  shows "chunk_parse (sack_serialize s @ r) =
    Ret (padded_len (sack_serialized_size s), Inr (CSAck s))"
proof -
  let ?v = "put_u32 (cum_tsn s) @ put_u32 (sa_a_rwnd s) @ put_u16 (as_u16 (length (blocks s))) @
      put_u16 (as_u16 (length (duplicated_tsn s))) @
      concat (map (\<lambda>(a, b). put_u16 a @ put_u16 b) (blocks s)) @
      concat (map put_u32 (duplicated_tsn s))"
  have size: "sack_serialized_size s = 4 + length ?v"
    by (simp add: sack_serialized_size_def CHUNK_HEADER_SIZE_def)
  then show ?thesis
    using assms sack_value_roundtrip [OF assms] sack_padding [of s]
      chunk_parse_tlv [of "as_u16 (sack_serialized_size s)" ?v "[]" 3 0 r]
    by (simp add: sack_serialize_def Let_def unat_as_u16 chunk_match_def option_chunk_def put_zeros_def)
qed

text \<open>
  What survives the wire of a chunk, and which chunks fit the format: the serializer knows
  their type, their size fits the 16-bit length, a DATA chunk has a payload, and a heartbeat
  carries no probe (a probe is followed by a padding chunk of its own).
\<close>

definition probe_bytes :: "u32 \<Rightarrow> bytes" where
  "probe_bytes p = put_u16 1 @ put_u16 8 @ put_u32 p"

definition chunk_view :: "'f fake_addr_impl \<Rightarrow> 'f chunk \<Rightarrow> 'f chunk" where
  "chunk_view I c =
     (case c of
        CInit i \<Rightarrow> CInit (init_chunk_view i)
      | CInitAck a \<Rightarrow> CInitAck (init_ack_view I a)
      | CStateCookie k \<Rightarrow> CStateCookie (Opaque (state_cookie_serialize I k))
      | CHeartBeat (HbOurs p) \<Rightarrow> CHeartBeat (HbOpaque (probe_bytes p))
      | CHeartBeatAck (HbaOurs p) \<Rightarrow> CHeartBeatAck (HbaOpaque (probe_bytes p))
      | CPadding n \<Rightarrow> CPadding (padded_len n)
      | _ \<Rightarrow> c)"

definition chunk_fits :: "'f fake_addr_impl \<Rightarrow> 'f chunk \<Rightarrow> bool" where
  "chunk_fits I c =
     (case c of
        CData d \<Rightarrow> dc_buf d \<noteq> [] \<and> data_chunk_serialized_size d < 65536
      | CInit i \<Rightarrow> init_chunk_fits I i
      | CInitAck a \<Rightarrow> init_ack_fits I a
      | CSAck s \<Rightarrow> sack_serialized_size s < 65536
      | CHeartBeat (HbOpaque d) \<Rightarrow> 4 + length d < 65536
      | CHeartBeat (HbOurs p) \<Rightarrow> p = 0
      | CHeartBeatAck (HbaOpaque d) \<Rightarrow> 4 + length d < 65536
      | CHeartBeatAck (HbaOurs _) \<Rightarrow> True
      | CAbort _ e \<Rightarrow> 4 + length e < 65536
      | CStateCookie k \<Rightarrow> 4 + state_cookie_serialized_size I k < 65536
      | CPadding n \<Rightarrow> 4 + padded_len n < 65536
      | COpError \<Rightarrow> False
      | CReservedECNE \<Rightarrow> False
      | CReservedCWR \<Rightarrow> False
      | CShutDown _ \<Rightarrow> True
      | CShutDownAck \<Rightarrow> True
      | CShutDownComplete _ \<Rightarrow> True
      | CStateCookieAck \<Rightarrow> True)"

definition chunk_roundtrips :: "'f fake_addr_impl \<Rightarrow> 'f chunk \<Rightarrow> bool" where
  "chunk_roundtrips I c =
     (\<exists>bs n. chunk_serialize I c = Ret bs \<and> chunk_serialized_size I c = Ret n
        \<and> length bs = padded_len n
        \<and> (\<forall>r. chunk_parse (bs @ r) = Ret (padded_len n, Inr (chunk_view I c))))"

lemma chunk_roundtripsI:
  assumes "chunk_serialize I c = Ret ([t, f] @ put_u16 (as_u16 (4 + length v)) @ v @
      put_zeros (padding_needed (4 + length v)))"
    and "chunk_serialized_size I c = Ret (4 + length v)" and "4 + length v < 65536"
    and "chunk_match t f v = Ret (Inr (chunk_view I c))"
  shows "chunk_roundtrips I c"
proof -
  have "chunk_parse (([t, f] @ put_u16 (as_u16 (4 + length v)) @ v @
      put_zeros (padding_needed (4 + length v))) @ r) =
      Ret (padded_len (4 + length v), Inr (chunk_view I c))" for r
    using chunk_parse_tlv [where 'a = 'a, of "as_u16 (4 + length v)" v "put_zeros (padding_needed (4 + length v))" t f r]
      assms(3,4) by (simp add: unat_as_u16)
  then show ?thesis
    using assms(1,2) by (auto simp: chunk_roundtrips_def padded_len_padding)
qed

lemma put_u16_4: "put_u16 (as_u16 4) = [0, 4]"
proof -
  have "be_bytes 2 4 = [0, 4]"
    by (subst numeral_2_eq_2) simp
  then show ?thesis by (simp add: put_u16_def unat_as_u16)
qed

lemma probe_match [simp]:
  "heart_beat_ack_ours (HbaOpaque (probe_bytes p)) = Ret (Some p)" "length (probe_bytes p) = 8"
  by (simp_all add: probe_bytes_def)

context fake_addr
begin

lemma init_roundtrips: "init_chunk_fits I c \<Longrightarrow> chunk_roundtrips I (CInit c)"
proof (rule chunk_roundtripsI)
  assume fit: "init_chunk_fits I c"
  let ?v = "put_u32 (ic_initiate_tag c) @ put_u32 (ic_a_rwnd c) @ put_u16 (ic_outbound_streams c) @
       put_u16 (ic_inbound_streams c) @ put_u32 (ic_initial_tsn c) @
       params_serialize I (init_chunk_params c)"
  have len: "4 + length ?v = init_chunk_serialized_size I c"
    using params_serialize_length [of "init_chunk_params c"] init_chunk_params_fit [OF fit]
    by (simp add: init_chunk_serialized_size_def)
  then show "chunk_serialize I (CInit c) = Ret ([1, 0] @ put_u16 (as_u16 (4 + length ?v)) @ ?v @
      put_zeros (padding_needed (4 + length ?v)))"
    by (simp only: len) (simp add: init_chunk_serialize_def Let_def)
  show "chunk_serialized_size I (CInit c) = Ret (4 + length ?v)"
    by (simp only: len) simp
  show "4 + length ?v < 65536"
    using fit by (simp only: len init_chunk_fits_def)
  show "chunk_match 1 0 ?v = Ret (Inr (chunk_view I (CInit c)))"
    using init_chunk_value_roundtrip [OF fit]
    by (simp add: chunk_match_def option_chunk_def chunk_view_def)
qed

lemma init_ack_roundtrips: "init_ack_fits I a \<Longrightarrow> chunk_roundtrips I (CInitAck a)"
proof (rule chunk_roundtripsI)
  assume fit: "init_ack_fits I a"
  let ?v = "put_u32 (ia_initiate_tag a) @ put_u32 (ia_a_rwnd a) @ put_u16 (ia_outbound_streams a) @
       put_u16 (ia_inbound_streams a) @ put_u32 (ia_initial_tsn a) @
       params_serialize I (init_ack_params_out a)"
  have len: "4 + length ?v = init_ack_serialized_size I a"
    using params_serialize_length [OF init_ack_params_fit(1) [OF fit]]
    by (simp add: init_ack_size_params)
  then show "chunk_serialize I (CInitAck a) = Ret ([2, 0] @ put_u16 (as_u16 (4 + length ?v)) @ ?v @
      put_zeros (padding_needed (4 + length ?v)))"
    by (simp only: len) (simp add: init_ack_serialize_def Let_def)
  show "chunk_serialized_size I (CInitAck a) = Ret (4 + length ?v)"
    by (simp only: len) simp
  show "4 + length ?v < 65536"
    using fit by (simp only: len init_ack_fits_def)
  show "chunk_match 2 0 ?v = Ret (Inr (chunk_view I (CInitAck a)))"
    using init_ack_value_roundtrip [OF fit]
    by (simp add: chunk_match_def option_chunk_def chunk_view_def)
qed

lemma data_roundtrips:
  assumes "dc_buf d \<noteq> []" and "data_chunk_serialized_size d < 65536"
  shows "chunk_roundtrips I (CData d)"
proof -
  have "length (data_chunk_serialize d) = padded_len (data_chunk_serialized_size d)"
    using assms(1) by (simp add: data_chunk_serialize_def data_chunk_serialized_size_def Let_def
        padded_len_padding)
  then show ?thesis
    using data_chunk_roundtrip [where 'a = 'f, OF assms] by (simp add: chunk_roundtrips_def chunk_view_def)
qed

lemma sack_roundtrips:
  assumes "sack_serialized_size s < 65536"
  shows "chunk_roundtrips I (CSAck s)"
proof -
  have "length (sack_serialize s) = padded_len (sack_serialized_size s)"
    by (simp add: sack_serialize_def sack_serialized_size_def CHUNK_HEADER_SIZE_def Let_def
        padded_len_padding)
  then show ?thesis
    using sack_roundtrip [where 'a = 'f, OF assms] by (simp add: chunk_roundtrips_def chunk_view_def)
qed

lemma chunk_fits_roundtrips:
  assumes "chunk_fits I c"
  shows "chunk_roundtrips I c"
proof (cases c)
  case (CData d)
  with assms show ?thesis by (simp add: data_roundtrips chunk_fits_def)
next
  case (CInit i)
  with assms show ?thesis by (simp add: init_roundtrips chunk_fits_def)
next
  case (CInitAck a)
  with assms show ?thesis by (simp add: init_ack_roundtrips chunk_fits_def)
next
  case (CSAck s)
  with assms show ?thesis by (simp add: sack_roundtrips chunk_fits_def)
next
  case (CHeartBeat h)
  show ?thesis
  proof (cases h)
    case (HbOpaque d)
    with assms CHeartBeat show ?thesis
      by (intro chunk_roundtripsI [of I c 4 0 d])
         (simp_all add: chunk_fits_def CHUNK_HEADER_SIZE_def chunk_match_def chunk_view_def Let_def
            add.commute [of "length d"])
  next
    case (HbOurs p)
    with assms CHeartBeat show ?thesis
      by (intro chunk_roundtripsI [of I c 4 0 "probe_bytes p"])
         (simp_all add: chunk_fits_def CHUNK_HEADER_SIZE_def chunk_match_def chunk_view_def,
          simp add: probe_bytes_def put_zeros_def padding_needed_def)
  qed
next
  case (CHeartBeatAck h)
  show ?thesis
  proof (cases h)
    case (HbaOpaque d)
    with assms CHeartBeatAck show ?thesis
      by (intro chunk_roundtripsI [of I c 5 0 d])
         (simp_all add: chunk_fits_def CHUNK_HEADER_SIZE_def chunk_match_def chunk_view_def Let_def
            add.commute [of "length d"])
  next
    case (HbaOurs p)
    with CHeartBeatAck show ?thesis
      by (intro chunk_roundtripsI [of I c 5 0 "probe_bytes p"])
         (simp_all add: CHUNK_HEADER_SIZE_def chunk_match_def chunk_view_def,
          simp add: probe_bytes_def put_zeros_def padding_needed_def)
  qed
next
  case (CAbort r e)
  with assms show ?thesis
    by (intro chunk_roundtripsI [of I c 6 "if r then 1 else 0" e])
       (simp_all add: chunk_fits_def CHUNK_HEADER_SIZE_def chunk_match_def chunk_view_def)
next
  case (CShutDown t)
  then show ?thesis
    by (intro chunk_roundtripsI [of I c 7 0 "put_u32 t"])
       (simp_all add: CHUNK_HEADER_SIZE_def chunk_match_def chunk_view_def put_zeros_def)
next
  case CShutDownAck
  then show ?thesis
    by (intro chunk_roundtripsI [of I c 8 0 "[]"])
       (simp_all add: CHUNK_HEADER_SIZE_def chunk_match_def chunk_view_def put_zeros_def)
next
  case (CStateCookie k)
  with assms show ?thesis
    by (intro chunk_roundtripsI [of I c 10 0 "state_cookie_serialize I k"])
       (simp_all add: chunk_fits_def CHUNK_HEADER_SIZE_def chunk_match_def chunk_view_def
          state_cookie_length Let_def)
next
  case CStateCookieAck
  then show ?thesis
    by (intro chunk_roundtripsI [of I c 11 0 "[]"])
       (simp_all add: COOKIE_ACK_BYTES_def chunk_match_def chunk_view_def put_zeros_def put_u16_4)
next
  case (CShutDownComplete r)
  then show ?thesis
    by (intro chunk_roundtripsI [of I c 14 "if r then 1 else 0" "[]"])
       (simp_all add: CHUNK_HEADER_SIZE_def chunk_match_def chunk_view_def put_zeros_def)
next
  case (CPadding n)
  with assms show ?thesis
    by (intro chunk_roundtripsI [of I c 132 0 "put_zeros (padded_len n)"])
       (simp_all add: chunk_fits_def CHUNK_HEADER_SIZE_def chunk_match_def chunk_view_def
          padding_chunk_serialize_def padding_chunk_serialized_size_def put_zeros_def)
qed (use assms in \<open>simp_all add: chunk_fits_def\<close>)

end

subsection \<open>Packets\<close>

lemma packet_serialize_length: "length (packet_serialize crc p chunks) = 12"
  by (simp add: packet_serialize_def Let_def)

lemma be_nat_put_u32 [simp, wire]: "be_nat (put_u32 a) = unat a"
  using unat_bound [of a] by (simp add: put_u32_def be_nat_be_bytes)

lemma packet_parse_serialize:
  "packet_parse crc (packet_serialize crc p chunks @ chunks) = Some p"
  by (simp add: packet_parse_def packet_serialize_def Let_def put_u32_le_def)

subsection \<open>Properties\<close>

text \<open>
  C19. Every chunk that fits the format survives the wire: serializing it does not panic, the
  bytes written are its announced size padded to four, and parsing them, whatever follows,
  consumes exactly these bytes and gives the chunk back (in the peer's view: a cookie as bytes,
  an INIT without unrecognized parameters and \<open>Fake\<close> aliases, padding rounded up).
\<close>

theorem chunk_roundtrip:
  assumes "chunk_fits fake_addr_socket c"
  shows "\<exists>bs n. chunk_serialize fake_addr_socket c = Ret bs
    \<and> chunk_serialized_size fake_addr_socket c = Ret n
    \<and> length bs = padded_len n
    \<and> (\<forall>r. chunk_parse (bs @ r) = Ret (padded_len n, Inr (chunk_view fake_addr_socket c)))"
  using socket_addr.chunk_fits_roundtrips [OF assms] by (simp add: chunk_roundtrips_def)

definition sack_example :: selective_ack where
  "sack_example = \<lparr>cum_tsn = 1234, sa_a_rwnd = 1234, blocks = [(1, 2), (3, 4)],
     duplicated_tsn = [1, 2, 3, 4]\<rparr>"

theorem chunk_roundtrip_witness:
  "\<exists>bs n. chunk_serialize fake_addr_socket (CSAck sack_example) = Ret bs
    \<and> chunk_serialized_size fake_addr_socket (CSAck sack_example) = Ret n
    \<and> length bs = padded_len n
    \<and> (\<forall>r. chunk_parse (bs @ r) = Ret (padded_len n, Inr (CSAck sack_example :: socket_addr chunk)))"
  using chunk_roundtrip [of "CSAck sack_example"]
  by (simp add: chunk_fits_def chunk_view_def sack_serialized_size_def CHUNK_HEADER_SIZE_def
      sack_example_def)

text \<open>
  C21. Parsing a chunk never panics, whatever the bytes: it returns how many bytes it consumed,
  never more than there are and at least one of a non-empty buffer, so that a loop over the
  chunks of a packet ends and never advances past its end.
\<close>

theorem chunk_parse_total:
  "\<exists>n (r :: parse_error + 'f chunk). chunk_parse data = Ret (n, r) \<and> n \<le> length data \<and> (data \<noteq> [] \<longrightarrow> 0 < n)"
proof -
  obtain n and r :: "parse_error + 'f chunk" where nr: "chunk_parse data = Ret (n, r)"
    using chunk_parse_returns [where 'a = 'f, of data] by (auto simp: returns_iff)
  then show ?thesis
    using chunk_parse_size [OF nr] by blast
qed

theorem chunk_parse_total_witness:
  "\<exists>n (r :: parse_error + u64 chunk). chunk_parse [3, 0, 255, 255, 1] = Ret (n, r) \<and> n \<le> 5 \<and> 0 < n"
  using chunk_parse_total [where 'f = u64, of "[3, 0, 255, 255, 1]"] by (simp add: eval_nat_numeral)

text \<open>
  C20. A packet header written in front of some chunks parses back to the same header; and a
  header is accepted only if the checksum field equals the CRC of the packet with that field
  zeroed, for any CRC function.
\<close>

theorem packet_roundtrip:
  "packet_parse crc (packet_serialize crc p chunks @ chunks) = Some p
   \<and> (packet_parse crc data = Some q \<longrightarrow>
        12 \<le> length data
        \<and> take 4 (drop 8 data) = put_u32_le (crc (take 8 data @ [0, 0, 0, 0] @ drop 12 data)))"
proof (intro conjI impI)
  show "packet_parse crc (packet_serialize crc p chunks @ chunks) = Some p"
    by (rule packet_parse_serialize)
next
  assume *: "packet_parse crc data = Some q"
  show len: "12 \<le> length data"
    using * by (simp add: packet_parse_def split: if_splits)
  define c where "c = take 4 (drop 8 data)"
  have "length (rev c) = 4" using len by (simp add: c_def)
  moreover have "be_nat (rev c) < 4294967296"
    using be_nat_bound [of "rev c"] calculation by simp
  ultimately have "put_u32_le (of_nat (be_nat (rev c))) = c"
    using be_bytes_be_nat [of "rev c"]
    by (simp add: put_u32_le_def put_u32_def unat_of_nat)
  moreover have "crc (take 8 data @ [0, 0, 0, 0] @ drop 12 data) = of_nat (be_nat (rev c))"
    using * by (simp add: packet_parse_def Let_def c_def split: if_splits)
  ultimately show "take 4 (drop 8 data) = put_u32_le (crc (take 8 data @ [0, 0, 0, 0] @ drop 12 data))"
    by (simp add: c_def)
qed

theorem packet_roundtrip_witness:
  "12 \<le> length (packet_serialize (\<lambda>_. 7) (packet_new 1 2 3) [])
   \<and> take 4 (drop 8 (packet_serialize (\<lambda>_. 7) (packet_new 1 2 3) [])) = put_u32_le 7"
proof -
  have "packet_parse (\<lambda>_. 7) (packet_serialize (\<lambda>_. 7) (packet_new 1 2 3) []) = Some (packet_new 1 2 3)"
    using packet_roundtrip [of "\<lambda>_. 7" "packet_new 1 2 3" "[]"] by simp
  then show ?thesis
    using packet_roundtrip [of "\<lambda>_. 7" "packet_new 1 2 3" "[]"
        "packet_serialize (\<lambda>_. 7) (packet_new 1 2 3) []"] by blast
qed

text \<open>
  The answer to a path MTU probe is recognised: the acknowledgement of our own heartbeat,
  echoed by the peer as the bytes it received, gives the probed size back. But the same code
  reads two bytes before it checks that there are any, so an acknowledgement with fewer than
  two bytes, or one with type 1 and fewer than four, panics.
\<close>

theorem heart_beat_ack_probe:
  "heart_beat_ack_ours (HbaOpaque (probe_bytes p)) = Ret (Some p)
   \<and> (heart_beat_ack_ours (HbaOpaque data) = Panic BufUnderflow
       \<longleftrightarrow> length data < 2 \<or> (length data < 4 \<and> be_nat (take 2 data) = 1))"
proof (intro conjI)
  show "heart_beat_ack_ours (HbaOpaque (probe_bytes p)) = Ret (Some p)"
    by (rule probe_match)
next
  have "be_nat (take 2 data) < 65536"
    using be_nat_bound [of "take 2 data"] power_increasing [of "length (take 2 data)" 2 "256 :: nat"]
    by simp
  then have one: "(of_nat (be_nat (take 2 data)) :: u16) = 1 \<longleftrightarrow> be_nat (take 2 data) = 1"
    by (simp add: word_unat_eq_iff unat_of_nat)
  show "heart_beat_ack_ours (HbaOpaque data) = Panic BufUnderflow
       \<longleftrightarrow> length data < 2 \<or> (length data < 4 \<and> be_nat (take 2 data) = 1)"
  proof (cases "length data < 2")
    case True
    then show ?thesis by (simp add: get_too_short)
  next
    case False
    then show ?thesis
      by (cases "length data < 4") (auto simp: get_enough get_too_short one)
  qed
qed

end
