(* ===== verification/Congestion.thy ===== *)
theory Congestion
  imports Rust_Base
begin

text \<open>
  Congestion control of the one destination an association sends to
  (\<open>src/assoc/tx/congestion.rs\<close>): the window, the slow-start threshold and the four-state
  machine driven by acknowledgements, duplicate acknowledgements and timeouts. The
  specification is the relation \<open>cong_step\<close>, which names the legal changes of the state, and
  the locale \<open>congestion_control\<close>, which says what the transmitter relies on.
\<close>

datatype congestion_state = SlowStart | FastRecovery | CongestionAvoidance | LossRecovery

record per_destination_info =
  cg_state :: congestion_state
  pmcds :: usize
  cwnd :: usize
  ssthresh :: usize
  partial_bytes_acked :: usize

definition update_pmtu :: "per_destination_info \<Rightarrow> usize \<Rightarrow> per_destination_info rust" where
  "update_pmtu c pmtu = bindR (usize_sub pmtu 12) (\<lambda>n. Ret (c\<lparr>pmcds := n\<rparr>))"

text \<open>The initial window, \<open>min(4 * pmcds, max(2 * pmcds, 4404))\<close>.\<close>

definition initial_window :: "usize \<Rightarrow> usize" where
  "initial_window n = min (4 * n) (max (2 * n) 4404)"

definition per_destination_new :: "usize \<Rightarrow> per_destination_info rust" where
  "per_destination_new pmtu =
     bindR (usize_sub pmtu 12) (\<lambda>n.
       Ret \<lparr> cg_state = SlowStart, pmcds = n, cwnd = initial_window n,
             ssthresh = usize_MAX, partial_bytes_acked = 0 \<rparr>)"

definition change_state :: "per_destination_info \<Rightarrow> congestion_state \<Rightarrow> per_destination_info" where
  "change_state c s = c\<lparr>cg_state := s\<rparr>"

definition bytes_acked ::
  "per_destination_info \<Rightarrow> usize \<Rightarrow> usize \<Rightarrow> usize \<Rightarrow> per_destination_info" where
  "bytes_acked c partial acked in_flight_before_sack =
     (case cg_state c of
        FastRecovery \<Rightarrow> if acked > 0 then change_state c SlowStart else c
      | LossRecovery \<Rightarrow> if acked > 0 then change_state c SlowStart else c
      | CongestionAvoidance \<Rightarrow>
          let c = c\<lparr>partial_bytes_acked := partial_bytes_acked c + (acked + partial)\<rparr>
          in if partial_bytes_acked c \<ge> cwnd c then
               if in_flight_before_sack < cwnd c then c\<lparr>partial_bytes_acked := cwnd c\<rparr>
               else let c = c\<lparr>partial_bytes_acked := partial_bytes_acked c - cwnd c\<rparr>
                    in c\<lparr>cwnd := cwnd c + min (pmcds c) 1000\<rparr>
             else c
      | SlowStart \<Rightarrow>
          let c = (if in_flight_before_sack \<ge> cwnd c
                   then c\<lparr>cwnd := cwnd c + max (2 * pmcds c) acked\<rparr> else c)
          in if cwnd c \<ge> ssthresh c
             then change_state (c\<lparr>cwnd := ssthresh c\<rparr>) CongestionAvoidance
             else c)"

definition enter_fast_recovery :: "per_destination_info \<Rightarrow> per_destination_info" where
  "enter_fast_recovery c =
     (if cg_state c = CongestionAvoidance then
        let c = c\<lparr>ssthresh := cwnd c div 2\<rparr>;
            c = c\<lparr>cwnd := max (ssthresh c) (initial_window (pmcds c))\<rparr>
        in change_state c FastRecovery
      else c)"

definition cong_rto_expired :: "per_destination_info \<Rightarrow> per_destination_info" where
  "cong_rto_expired c =
     (let c = c\<lparr>ssthresh := cwnd c div 2\<rparr>;
          c = c\<lparr>cwnd := initial_window (pmcds c)\<rparr>
      in change_state c LossRecovery)"

subsection \<open>The state machine\<close>

text \<open>What can happen to the congestion state, by the kind of event.\<close>

datatype cong_event =
    Acked usize usize usize  \<comment> \<open>partially and fully acknowledged bytes, bytes in flight before\<close>
  | DuplicateAcks
  | RtoExpired

fun cong_apply :: "cong_event \<Rightarrow> per_destination_info \<Rightarrow> per_destination_info" where
  "cong_apply (Acked p a i) c = bytes_acked c p a i"
| "cong_apply DuplicateAcks c = enter_fast_recovery c"
| "cong_apply RtoExpired c = cong_rto_expired c"

inductive cong_step :: "congestion_state \<Rightarrow> cong_event \<Rightarrow> congestion_state \<Rightarrow> bool" where
  stay_ack: "cong_step s (Acked p a i) s"
| stay_dup: "s \<noteq> CongestionAvoidance \<Longrightarrow> cong_step s DuplicateAcks s"
| threshold: "cong_step SlowStart (Acked p a i) CongestionAvoidance"
| recovered: "s = FastRecovery \<or> s = LossRecovery \<Longrightarrow> 0 < a \<Longrightarrow> cong_step s (Acked p a i) SlowStart"
| dup_acks: "cong_step CongestionAvoidance DuplicateAcks FastRecovery"
| timeout: "cong_step s RtoExpired LossRecovery"

inductive_cases to_loss_recovery: "cong_step s e LossRecovery"
inductive_cases to_fast_recovery: "cong_step s e FastRecovery"
inductive_cases from_loss_recovery: "cong_step LossRecovery e s"
inductive_simps cong_step_dup: "cong_step s DuplicateAcks t"
inductive_simps cong_step_rto: "cong_step s RtoExpired t"

lemma cong_apply_step: "cong_step (cg_state c) e (cg_state (cong_apply e c))"
proof (cases e)
  case (Acked p a i)
  then show ?thesis
    by (cases "cg_state c")
       (auto simp: bytes_acked_def Let_def change_state_def intro: cong_step.intros)
next
  case DuplicateAcks
  then show ?thesis
    by (cases "cg_state c")
       (auto simp: enter_fast_recovery_def Let_def change_state_def cong_step_dup)
next
  case RtoExpired
  then show ?thesis
    by (auto simp: cong_rto_expired_def Let_def change_state_def cong_step_rto)
qed

subsection \<open>What the transmitter relies on\<close>

text \<open>
  The transmitter panics when it is in loss recovery without an outstanding packet. It relies
  on three things: only a timeout enters loss recovery, an acknowledgement of at least one byte
  leaves it, and duplicate acknowledgements change nothing there.
\<close>

locale congestion_control =
  fixes state :: "'c \<Rightarrow> congestion_state"
    and ack :: "'c \<Rightarrow> usize \<Rightarrow> usize \<Rightarrow> usize \<Rightarrow> 'c"
    and dup :: "'c \<Rightarrow> 'c"
  assumes ack_not_into_loss: "state (ack c p a i) = LossRecovery \<Longrightarrow> state c = LossRecovery"
    and ack_leaves_loss: "state c = LossRecovery \<Longrightarrow> 0 < a \<Longrightarrow> state (ack c p a i) \<noteq> LossRecovery"
    and ack_stays_in_loss: "state c = LossRecovery \<Longrightarrow> ack c p 0 i = c"
    and dup_not_into_loss: "state (dup c) = LossRecovery \<Longrightarrow> state c = LossRecovery"
begin

lemma loss_ack_iff: "state (ack c p a i) = LossRecovery \<longleftrightarrow> state c = LossRecovery \<and> a = 0"
  using ack_not_into_loss ack_leaves_loss ack_stays_in_loss by (metis gr0I)

lemma loss_dup_ack:
  "state (ack (dup c) p 0 i) = LossRecovery \<Longrightarrow> state c = LossRecovery"
  using ack_not_into_loss dup_not_into_loss by blast

end

interpretation cong: congestion_control cg_state bytes_acked enter_fast_recovery
proof
  show "cg_state (bytes_acked c p a i) = LossRecovery \<Longrightarrow> cg_state c = LossRecovery" for c p a i
    using cong_apply_step [of c "Acked p a i"] by (auto elim: to_loss_recovery)
  show "cg_state c = LossRecovery \<Longrightarrow> 0 < a \<Longrightarrow> cg_state (bytes_acked c p a i) \<noteq> LossRecovery" for c p a i
    by (simp add: bytes_acked_def change_state_def)
  show "cg_state c = LossRecovery \<Longrightarrow> bytes_acked c p 0 i = c" for c p i
    by (simp add: bytes_acked_def)
  show "cg_state (enter_fast_recovery c) = LossRecovery \<Longrightarrow> cg_state c = LossRecovery" for c
    using cong_apply_step [of c DuplicateAcks] by (auto elim: to_loss_recovery)
qed

subsection \<open>Windows\<close>

lemma initial_window_bounds: "0 < n \<Longrightarrow> 2 * n \<le> initial_window n \<and> initial_window n \<le> 4 * n"
  by (auto simp: initial_window_def)

lemma bytes_acked_ssthresh [simp]: "ssthresh (bytes_acked c p a i) = ssthresh c"
  by (auto simp: bytes_acked_def Let_def change_state_def split: congestion_state.split)

lemma bytes_acked_pmcds [simp]: "pmcds (bytes_acked c p a i) = pmcds c"
  by (auto simp: bytes_acked_def Let_def change_state_def split: congestion_state.split)

subsection \<open>Properties\<close>

text \<open>
  C23. Congestion control follows the slow-start / avoidance / recovery state machine: each
  event changes the state only along an edge of \<open>cong_step\<close>. In particular loss recovery is
  entered by a timeout only, and is left as soon as a byte is acknowledged.
\<close>

theorem congestion_refines_state_machine:
  "cong_step (cg_state c) e (cg_state (cong_apply e c))
   \<and> (cg_state (cong_apply e c) = LossRecovery \<longrightarrow> cg_state c = LossRecovery \<or> e = RtoExpired)
   \<and> (e = Acked p a i \<and> 0 < a \<longrightarrow> cg_state (cong_apply e c) \<noteq> LossRecovery)"
proof (intro conjI impI)
  show step: "cong_step (cg_state c) e (cg_state (cong_apply e c))"
    by (rule cong_apply_step)
  show "cg_state c = LossRecovery \<or> e = RtoExpired" if "cg_state (cong_apply e c) = LossRecovery"
    using step unfolding that by (auto elim: to_loss_recovery)
  show "cg_state (cong_apply e c) \<noteq> LossRecovery" if "e = Acked p a i \<and> 0 < a"
    using that by (simp add: cong.loss_ack_iff)
qed

theorem congestion_refines_state_machine_witness:
  "cg_state (cong_apply (Acked 0 10 0)
      \<lparr>cg_state = LossRecovery, pmcds = 1488, cwnd = 4404, ssthresh = 2202,
       partial_bytes_acked = 0\<rparr>) \<noteq> LossRecovery"
  using congestion_refines_state_machine
    [of "\<lparr>cg_state = LossRecovery, pmcds = 1488, cwnd = 4404, ssthresh = 2202,
       partial_bytes_acked = 0\<rparr>" "Acked 0 10 0" 0 10 0]
  by (simp del: cong_apply.simps)

text \<open>
  How an acknowledgement changes the congestion window. In slow start the window grows,
  by at least two segments, only when it was fully used, and stops at the threshold, where
  congestion avoidance begins; in congestion avoidance it grows by at most one segment (at
  most 1000 bytes) per window of acknowledged bytes; in recovery it does not change.
\<close>

theorem bytes_acked_window:
  "(cg_state c = SlowStart \<longrightarrow>
      cwnd (bytes_acked c p a i) =
        min (ssthresh c) (if cwnd c \<le> i then cwnd c + max (2 * pmcds c) a else cwnd c)
      \<and> (cg_state (bytes_acked c p a i) = CongestionAvoidance
           \<longleftrightarrow> cwnd (bytes_acked c p a i) = ssthresh c))
   \<and> (cg_state c = CongestionAvoidance \<longrightarrow>
      cwnd (bytes_acked c p a i) =
        (if cwnd c \<le> partial_bytes_acked c + a + p \<and> cwnd c \<le> i
         then cwnd c + min (pmcds c) 1000 else cwnd c))
   \<and> (cg_state c = FastRecovery \<or> cg_state c = LossRecovery \<longrightarrow>
      cwnd (bytes_acked c p a i) = cwnd c)"
  by (auto simp: bytes_acked_def Let_def change_state_def min_def)

theorem bytes_acked_window_witness:
  "cwnd (bytes_acked \<lparr>cg_state = SlowStart, pmcds = 1488, cwnd = 4404, ssthresh = 100000,
       partial_bytes_acked = 0\<rparr> 0 100 5000) = 7380"
  using bytes_acked_window
    [of "\<lparr>cg_state = SlowStart, pmcds = 1488, cwnd = 4404, ssthresh = 100000,
       partial_bytes_acked = 0\<rparr>" 0 100 5000]
  by simp

end
