(* ===== verification/Pmtu.thy ===== *)
theory Pmtu
  imports Rust_Base
begin

text \<open>
  Path MTU discovery by probing (\<open>src/assoc/tx/pmtu.rs\<close>): the size tested last, the largest size
  that was acknowledged, and whether a probe is outstanding.
\<close>

record pmtu_probe =
  last_tested_size :: usize
  highest_successful :: usize
  last_success :: bool
  probe_in_flight :: bool

definition PROBE_STEP_SIZE :: usize where "PROBE_STEP_SIZE = 1024 * 2"

definition pmtu_new :: pmtu_probe where
  "pmtu_new = \<lparr>last_tested_size = 1200, highest_successful = 1200, last_success = True,
     probe_in_flight = False\<rparr>"

definition get_pmtu :: "pmtu_probe \<Rightarrow> usize" where
  "get_pmtu p = highest_successful p"

definition next_probe_size :: "pmtu_probe \<Rightarrow> pmtu_probe \<times> usize" where
  "next_probe_size p =
     (let probe_size = last_tested_size p + PROBE_STEP_SIZE
      in (p\<lparr>last_tested_size := probe_size, probe_in_flight := True\<rparr>, probe_size))"

definition probe_success :: "pmtu_probe \<Rightarrow> usize \<Rightarrow> pmtu_probe" where
  "probe_success p n =
     p\<lparr>highest_successful := max (highest_successful p) n, last_success := True,
       probe_in_flight := False\<rparr>"

definition probe_timed_out :: "pmtu_probe \<Rightarrow> pmtu_probe rust" where
  "probe_timed_out p =
     bindR (usize_sub (last_tested_size p) (PROBE_STEP_SIZE + 128)) (\<lambda>n.
       Ret (p\<lparr>last_tested_size := n, last_success := False, probe_in_flight := False\<rparr>))"

definition next_probe :: "pmtu_probe \<Rightarrow> instant \<Rightarrow> instant" where
  "next_probe p now =
     (if last_success p then now + from_millis 100 else now + from_millis 2000)"

subsection \<open>Events\<close>

datatype probe_event = ProbeSent | ProbeAcked usize | ProbeLost

fun probe_apply :: "probe_event \<Rightarrow> pmtu_probe \<Rightarrow> pmtu_probe rust" where
  "probe_apply ProbeSent p = Ret (fst (next_probe_size p))"
| "probe_apply (ProbeAcked n) p = Ret (probe_success p n)"
| "probe_apply ProbeLost p = probe_timed_out p"

abbreviation probe_run :: "probe_event list \<Rightarrow> pmtu_probe \<Rightarrow> pmtu_probe rust" where
  "probe_run es p \<equiv> runR probe_apply es p"

lemma probe_apply_pmtu: "probe_apply e p = Ret q \<Longrightarrow> get_pmtu p \<le> get_pmtu q"
  by (cases e) (auto simp: next_probe_size_def Let_def probe_success_def probe_timed_out_def
      get_pmtu_def outcome)

interpretation probing: ordered_system probe_apply "\<lambda>_. True" "\<lambda>_. True"
  "\<lambda>p q. get_pmtu p \<le> get_pmtu q"
  by unfold_locales (auto dest: probe_apply_pmtu)

lemma probe_lost_round:
  "probe_run [ProbeSent, ProbeLost] p =
     (if 128 \<le> last_tested_size p
      then Ret (p\<lparr>last_tested_size := last_tested_size p - 128, last_success := False,
                  probe_in_flight := False\<rparr>)
      else Panic ArithOverflow)"
  by (simp add: next_probe_size_def Let_def probe_timed_out_def PROBE_STEP_SIZE_def usize_sub_def)

lemma probe_lost_rounds:
  "128 * n \<le> last_tested_size p \<Longrightarrow> 0 < n \<Longrightarrow>
     probe_run (concat (replicate n [ProbeSent, ProbeLost])) p =
       Ret (p\<lparr>last_tested_size := last_tested_size p - 128 * n, last_success := False,
              probe_in_flight := False\<rparr>)"
proof (induction n arbitrary: p)
  case 0
  then show ?case by simp
next
  case (Suc n)
  then have "128 \<le> last_tested_size p" by simp
  have "concat (replicate (Suc n) [ProbeSent, ProbeLost]) =
      [ProbeSent, ProbeLost] @ concat (replicate n [ProbeSent, ProbeLost])"
    by simp
  with \<open>128 \<le> last_tested_size p\<close>
  have "probe_run (concat (replicate (Suc n) [ProbeSent, ProbeLost])) p =
      probe_run (concat (replicate n [ProbeSent, ProbeLost]))
        (p\<lparr>last_tested_size := last_tested_size p - 128, last_success := False,
           probe_in_flight := False\<rparr>)"
    by (simp only: runR_append probe_lost_round bindR.simps if_True)
  with Suc show ?case
    by (cases "n = 0") (simp_all add: algebra_simps)
qed

subsection \<open>Properties\<close>

text \<open>
  The path MTU estimate never falls, over any sequence of probes, answers and losses, and
  so never below the 1200 bytes it starts from.
\<close>

theorem pmtu_monotone:
  "probe_run es p = Ret q \<longrightarrow>
     get_pmtu p \<le> get_pmtu q \<and> (p = pmtu_new \<longrightarrow> 1200 \<le> get_pmtu q)"
  using probing.run_below [where s = p and es = es and s' = q] by (auto simp: list_all_iff pmtu_new_def get_pmtu_def)

theorem pmtu_monotone_witness:
  "get_pmtu pmtu_new \<le> get_pmtu (probe_success (fst (next_probe_size pmtu_new)) 3248)
   \<and> 1200 \<le> get_pmtu (probe_success (fst (next_probe_size pmtu_new)) 3248)"
proof -
  have "probe_run [ProbeSent, ProbeAcked 3248] pmtu_new =
      Ret (probe_success (fst (next_probe_size pmtu_new)) 3248)"
    by simp
  then show ?thesis
    using pmtu_monotone [of "[ProbeSent, ProbeAcked 3248]" pmtu_new
        "probe_success (fst (next_probe_size pmtu_new)) 3248"] by blast
qed

text \<open>
  A path that answers no probe makes the transmitter panic: every lost probe lowers the
  tested size by 128 bytes net and nothing stops it at zero, so from the initial 1200 bytes
  nine rounds of probe and loss return and the tenth underflows.
\<close>

theorem pmtu_ten_losses_panic:
  "returns (probe_run (concat (replicate 9 [ProbeSent, ProbeLost])) pmtu_new)
   \<and> probe_run (concat (replicate 10 [ProbeSent, ProbeLost])) pmtu_new = Panic ArithOverflow"
proof
  define q where "q = pmtu_new\<lparr>last_tested_size := 48, last_success := False, probe_in_flight := False\<rparr>"
  have nine: "probe_run (concat (replicate 9 [ProbeSent, ProbeLost])) pmtu_new = Ret q"
    using probe_lost_rounds [of 9 pmtu_new] by (simp add: pmtu_new_def q_def del: replicate.simps)
  then show "returns (probe_run (concat (replicate 9 [ProbeSent, ProbeLost])) pmtu_new)"
    by simp
  have "concat (replicate 10 [ProbeSent, ProbeLost]) =
      concat (replicate 9 [ProbeSent, ProbeLost]) @ [ProbeSent, ProbeLost]"
    by (simp add: eval_nat_numeral)
  then show "probe_run (concat (replicate 10 [ProbeSent, ProbeLost])) pmtu_new = Panic ArithOverflow"
    using probe_lost_round [of q] by (simp only: runR_append nine bindR.simps) (simp add: q_def)
qed

end
