(* ===== verification/Srtt.thy ===== *)
theory Srtt
  imports Serial "HOL-Library.Signed_Division"
begin

text \<open>
  Round-trip time measurement and the retransmission timeout (\<open>src/assoc/srtt.rs\<close>). Durations
  are natural numbers of nanoseconds; the variance is an \<open>i64\<close>, modelled as an integer whose
  operations panic outside the 64-bit range, with division truncating towards zero (\<open>sdiv\<close>)
  and the casts of the source written out.
\<close>

record srtt =
  uninited :: bool
  measure_for_tsn :: "(tsn \<times> instant) option"
  sr_srtt :: duration
  rttvar :: int
  sr_rto :: duration

definition as_i64 :: "int \<Rightarrow> int" where
  "as_i64 n = signed_take_bit 63 n"

definition i64_checked :: "int \<Rightarrow> int rust" where
  "i64_checked n = (if - (2 ^ 63) \<le> n \<and> n < 2 ^ 63 then Ret n else Panic ArithOverflow)"

definition srtt_new :: srtt where
  "srtt_new = \<lparr>uninited = True, measure_for_tsn = None, sr_srtt = 0, rttvar = 0, sr_rto = 0\<rparr>"

definition tsn_sent :: "srtt \<Rightarrow> tsn \<Rightarrow> instant \<Rightarrow> srtt" where
  "tsn_sent s t now =
     (if measure_for_tsn s = None then s\<lparr>measure_for_tsn := Some (t, now)\<rparr> else s)"

text \<open>The update of the estimate: the first measurement, or the weighted ones.\<close>

definition srtt_estimate :: "srtt \<Rightarrow> duration \<Rightarrow> srtt rust" where
  "srtt_estimate s m =
     (if uninited s then
        Ret (s\<lparr>uninited := False, sr_srtt := m, rttvar := as_i64 (int (m div 2))\<rparr>)
      else
        bindR (i64_checked (rttvar s * (4 - 1))) (\<lambda>v3.
        bindR (i64_checked (as_i64 (int (sr_srtt s)) - as_i64 (int m))) (\<lambda>d.
        bindR (i64_checked (v3 sdiv 4 + d sdiv 4)) (\<lambda>v.
          Ret (s\<lparr>rttvar := v, sr_srtt := sr_srtt s * (8 - 1) div 8 + m div 8\<rparr>)))))"

text \<open>\<open>as u64\<close> of a negative number wraps around, and so becomes larger than the upper bound.\<close>

definition measured :: "srtt \<Rightarrow> duration \<Rightarrow> srtt rust" where
  "measured s m =
     bindR (srtt_estimate s m) (\<lambda>s.
     bindR (i64_checked (rttvar s * 4)) (\<lambda>v4.
     bindR (i64_checked (as_i64 (int (sr_srtt s)) + v4)) (\<lambda>r.
       Ret (s\<lparr>sr_rto := min (max (nat (take_bit 64 r)) (from_millis 1)) (from_millis 200)\<rparr>))))"

definition srtt_tsn_acked :: "srtt \<Rightarrow> tsn \<Rightarrow> instant \<Rightarrow> srtt rust" where
  "srtt_tsn_acked s t now =
     (case measure_for_tsn s of
        None \<Rightarrow> Ret s
      | Some (measure_for, start) \<Rightarrow>
          if tsn_le measure_for t
          then measured (s\<lparr>measure_for_tsn := None\<rparr>) (now - start)
          else Ret s)"

definition rto_duration :: "srtt \<Rightarrow> duration" where
  "rto_duration s = (if uninited s then from_secs 3 else sr_rto s)"

definition srtt_rto_expired :: "srtt \<Rightarrow> srtt" where
  "srtt_rto_expired s = s\<lparr>sr_rto := min (sr_rto s * 2) (from_millis 200)\<rparr>"

subsection \<open>The estimator stays in range\<close>

text \<open>
  As long as no single round trip is measured at more than 2^60 nanoseconds (36 years), the
  estimate and the variance stay within that bound, no operation overflows, and the timeout is
  between one and 200 milliseconds once there was a measurement.
\<close>

definition srtt_inv :: "srtt \<Rightarrow> bool" where
  "srtt_inv s =
     (sr_srtt s \<le> 2 ^ 60 \<and> \<bar>rttvar s\<bar> \<le> 2 ^ 60 \<and>
      (uninited s \<or> (from_millis 1 \<le> sr_rto s \<and> sr_rto s \<le> from_millis 200)))"

lemma as_i64_id: "- (2 ^ 63) \<le> n \<Longrightarrow> n < 2 ^ 63 \<Longrightarrow> as_i64 n = n"
  by (simp add: as_i64_def signed_take_bit_int_eq_self)

lemma i64_checked_ok: "\<bar>n\<bar> < 2 ^ 63 \<Longrightarrow> i64_checked n = Ret n"
  by (auto simp: i64_checked_def)

lemma sdiv4_bounds: "\<bar>a sdiv 4 :: int\<bar> \<le> \<bar>a\<bar> div 4" "0 \<le> a \<Longrightarrow> 0 \<le> a sdiv 4" "a \<le> 0 \<Longrightarrow> a sdiv 4 \<le> 0"
  by (auto simp: signed_divide_int_def abs_mult sgn_if)

lemma srtt_estimate_returns:
  assumes "srtt_inv s" and "m \<le> 2 ^ 60"
  shows "\<exists>s'. srtt_estimate s m = Ret s' \<and> \<not> uninited s' \<and> sr_srtt s' \<le> 2 ^ 60 \<and> \<bar>rttvar s'\<bar> \<le> 2 ^ 60"
proof (cases "uninited s")
  case True
  have "int (m div 2) < 2 ^ 63"
    using assms(2) by simp
  with True assms(2) show ?thesis
    by (simp add: srtt_estimate_def as_i64_id)
next
  case False
  have b: "int (sr_srtt s) \<le> 2 ^ 60" "\<bar>rttvar s\<bar> \<le> 2 ^ 60" "int m \<le> 2 ^ 60"
    using assms by (simp_all add: srtt_inv_def)
  define v where "v = (rttvar s * 3) sdiv 4 + (int (sr_srtt s) - int m) sdiv 4"
  have "\<bar>(rttvar s * 3) sdiv 4\<bar> \<le> (\<bar>rttvar s\<bar> * 3) div 4"
    using sdiv4_bounds(1) [of "rttvar s * 3"] by (simp add: abs_mult)
  moreover have "\<bar>(int (sr_srtt s) - int m) sdiv 4\<bar> \<le> \<bar>int (sr_srtt s) - int m\<bar> div 4"
    by (rule sdiv4_bounds)
  ultimately have v: "\<bar>v\<bar> \<le> 2 ^ 60"
    using b unfolding v_def by linarith
  have "sr_srtt s * 7 div 8 \<le> 2 ^ 60 * 7 div 8" and "m div 8 \<le> 2 ^ 60 div 8"
    using assms by (intro div_le_mono; simp add: srtt_inv_def)+
  then have "sr_srtt s * 7 div 8 + m div 8 \<le> 2 ^ 60"
    by simp
  moreover have "i64_checked (rttvar s * 3) = Ret (rttvar s * 3)"
    "i64_checked (int (sr_srtt s) - int m) = Ret (int (sr_srtt s) - int m)"
    "i64_checked v = Ret v"
    using b v by (intro i64_checked_ok; simp add: abs_mult; linarith)+
  moreover have "as_i64 (int (sr_srtt s)) = int (sr_srtt s)" "as_i64 (int m) = int m"
    using b by (simp_all add: as_i64_id)
  ultimately show ?thesis
    using False v by (simp add: srtt_estimate_def v_def)
qed

lemma measured_returns:
  assumes "srtt_inv s" and "m \<le> 2 ^ 60"
  shows "\<exists>s'. measured s m = Ret s' \<and> srtt_inv s' \<and> \<not> uninited s'"
proof -
  obtain s' where s': "srtt_estimate s m = Ret s'" "\<not> uninited s'"
    "sr_srtt s' \<le> 2 ^ 60" "\<bar>rttvar s'\<bar> \<le> 2 ^ 60"
    using srtt_estimate_returns [OF assms] by blast
  have "int (sr_srtt s') \<le> 2 ^ 60"
    using s'(3) by simp
  with s' show ?thesis
    by (auto simp: measured_def i64_checked_def as_i64_id srtt_inv_def from_millis_def)
qed

lemma srtt_rto_expired_inv: "srtt_inv s \<Longrightarrow> srtt_inv (srtt_rto_expired s)"
  by (auto simp: srtt_inv_def srtt_rto_expired_def from_millis_def)

lemma tsn_sent_inv: "srtt_inv s \<Longrightarrow> srtt_inv (tsn_sent s t now)"
  by (simp add: srtt_inv_def tsn_sent_def)

lemma srtt_tsn_acked_returns:
  assumes "srtt_inv s" and "now \<le> 2 ^ 60"
  shows "\<exists>s'. srtt_tsn_acked s t now = Ret s' \<and> srtt_inv s'"
proof (cases "measure_for_tsn s")
  case None
  with assms show ?thesis by (simp add: srtt_tsn_acked_def)
next
  case (Some p)
  obtain t0 start where "p = (t0, start)" by fastforce
  moreover have "srtt_inv (s\<lparr>measure_for_tsn := None\<rparr>)" and "now - start \<le> 2 ^ 60"
    using assms by (simp_all add: srtt_inv_def)
  then have "\<exists>s'. measured (s\<lparr>measure_for_tsn := None\<rparr>) (now - start) = Ret s' \<and> srtt_inv s'"
    using measured_returns by blast
  ultimately show ?thesis
    using assms Some by (simp add: srtt_tsn_acked_def)
qed

subsection \<open>Properties\<close>

text \<open>
  C25. The timeout estimator never overflows and keeps the retransmission timeout between one
  and 200 milliseconds (three seconds before the first measurement): a measurement of at most
  2^60 nanoseconds returns, keeps the invariant and ends with a timeout in these bounds, and
  so does the doubling after an expiry.
\<close>

theorem srtt_bounds:
  assumes "srtt_inv s" and "m \<le> 2 ^ 60"
  shows "\<exists>s'. measured s m = Ret s' \<and> srtt_inv s'
    \<and> from_millis 1 \<le> rto_duration s' \<and> rto_duration s' \<le> from_millis 200
    \<and> from_millis 1 \<le> rto_duration (srtt_rto_expired s')
    \<and> rto_duration (srtt_rto_expired s') \<le> from_millis 200"
proof -
  obtain s' where s': "measured s m = Ret s'" "srtt_inv s'" "\<not> uninited s'"
    using measured_returns [OF assms] by blast
  moreover have "srtt_inv (srtt_rto_expired s')"
    by (rule srtt_rto_expired_inv [OF s'(2)])
  ultimately show ?thesis
    by (auto simp: srtt_inv_def rto_duration_def srtt_rto_expired_def)
qed

theorem srtt_bounds_witness:
  "\<exists>s'. measured srtt_new (from_millis 80) = Ret s' \<and> srtt_inv s'
    \<and> from_millis 1 \<le> rto_duration s' \<and> rto_duration s' \<le> from_millis 200
    \<and> from_millis 1 \<le> rto_duration (srtt_rto_expired s')
    \<and> rto_duration (srtt_rto_expired s') \<le> from_millis 200"
  using srtt_bounds [of srtt_new "from_millis 80"]
  by (simp add: srtt_inv_def srtt_new_def from_millis_def)

text \<open>
  The variance estimate is updated with the signed difference of the estimate and the
  measurement, where RFC 2988 (the document the source names) takes its absolute value: a
  round trip longer than the estimate lowers the variance to at most three quarters, and a long
  enough one makes it negative.
\<close>

theorem srtt_variance_signed:
  "(srtt_inv s \<and> \<not> uninited s \<and> 0 \<le> rttvar s \<and> sr_srtt s \<le> m \<and> m \<le> 2 ^ 60 \<longrightarrow>
      (\<exists>s'. srtt_estimate s m = Ret s' \<and> rttvar s' \<le> rttvar s * 3 div 4))
   \<and> (\<exists>s'. srtt_estimate
        (srtt_new\<lparr>uninited := False, sr_srtt := from_millis 100, rttvar := 50000000\<rparr>)
        (from_millis 1000) = Ret s' \<and> rttvar s' < 0)"
proof (intro conjI impI)
  assume *: "srtt_inv s \<and> \<not> uninited s \<and> 0 \<le> rttvar s \<and> sr_srtt s \<le> m \<and> m \<le> 2 ^ 60"
  then obtain s' where s': "srtt_estimate s m = Ret s'"
    using srtt_estimate_returns by blast
  have b: "int (sr_srtt s) < 2 ^ 63" "int m < 2 ^ 63"
    using * by (simp_all add: srtt_inv_def)
  have "(int (sr_srtt s) - int m) sdiv 4 \<le> 0"
    using * by (simp add: sdiv4_bounds)
  moreover have "(rttvar s * 3) sdiv 4 = rttvar s * 3 div 4"
    using * by (simp add: signed_divide_int_def sgn_if)
  moreover have "rttvar s' = (rttvar s * 3) sdiv 4 + (int (sr_srtt s) - int m) sdiv 4"
    using s' * b by (auto simp: srtt_estimate_def i64_checked_def as_i64_id outcome split: if_splits)
  ultimately show "\<exists>s'. srtt_estimate s m = Ret s' \<and> rttvar s' \<le> rttvar s * 3 div 4"
    using s' by simp
next
  show "\<exists>s'. srtt_estimate
        (srtt_new\<lparr>uninited := False, sr_srtt := from_millis 100, rttvar := 50000000\<rparr>)
        (from_millis 1000) = Ret s' \<and> rttvar s' < 0"
    by (simp add: srtt_estimate_def srtt_new_def from_millis_def i64_checked_def as_i64_id)
qed

theorem srtt_variance_signed_witness:
  "\<exists>s'. srtt_estimate (srtt_new\<lparr>uninited := False, sr_srtt := 100, rttvar := 40, sr_rto := from_millis 1\<rparr>) 200
      = Ret s' \<and> rttvar s' \<le> 40 * 3 div 4"
  using conjunct1 [OF srtt_variance_signed,
      of "srtt_new\<lparr>uninited := False, sr_srtt := 100, rttvar := 40, sr_rto := from_millis 1\<rparr>" 200]
  by (simp add: srtt_inv_def srtt_new_def from_millis_def)

end
