(* ===== verification/Tx.thy ===== *)
theory Tx
  imports Chunks Congestion Pmtu Srtt
begin

text \<open>
  The transmitter of an association (\<open>src/assoc/tx.rs\<close>, \<open>src/assoc/tx/ack.rs\<close>,
  \<open>src/assoc/tx/timeouts.rs\<close>, and \<open>ShutdownState\<close> of \<open>src/assoc.rs\<close>): the queues of data to
  send and of data in flight, acknowledgement processing, fragmentation, the three timers and
  the shutdown handshake. One definition per method, in the state-passing form
  \<open>state \<Rightarrow> (state \<times> result) rust\<close>. This theory holds the model; the invariants are in
  \<open>Tx_Inv\<close>.
\<close>

subsection \<open>Data\<close>

datatype shutdown_state =
    TryingTo
  | ShutdownSent
  | ShutdownReceived
  | ShutdownAckSent
  | Complete
  | AbortReceived

definition is_completely_shutdown :: "shutdown_state option \<Rightarrow> bool" where
  "is_completely_shutdown s = (s = Some Complete \<or> s = Some AbortReceived)"

record timer =
  tm_marker :: u64
  tm_at :: instant

definition timer_cmp :: "timer \<Rightarrow> timer \<Rightarrow> ordering" where
  "timer_cmp a b =
     (if tm_at a < tm_at b then Less else if tm_at a = tm_at b then Equal else Greater)"

text \<open>\<open>Ord::min\<close> returns its first argument unless the second is smaller.\<close>

definition timer_min :: "timer \<Rightarrow> timer \<Rightarrow> timer" where
  "timer_min a b = (if timer_cmp a b = Greater then b else a)"

record resend_entry =
  queued_at :: instant
  re_data :: data_chunk
  marked_for_retransmit :: bool
  marked_for_fast_retransmit :: bool
  marked_was_fast_retransmit :: bool
  partially_acked :: bool

definition resend_entry_new :: "data_chunk \<Rightarrow> instant \<Rightarrow> resend_entry" where
  "resend_entry_new d now =
     \<lparr> queued_at = now, re_data = d, marked_for_retransmit = False,
       marked_for_fast_retransmit = False, marked_was_fast_retransmit = False,
       partially_acked = False \<rparr>"

datatype 'f tx_note =
    TxSend "'f chunk"
  | TxSAck selective_ack instant
  | TxAbort
  | TxShutdown
  | TxPeerShutdown
  | TxPeerShutdownAck
  | TxPeerShutdownComplete
  | TxHeartBeatAck heart_beat_ack instant
  | TxPrimaryPathChanged "'f transport_address"

record 'f assoc_tx_settings =
  ts_primary_path :: "'f transport_address"
  ts_peer_verification_tag :: u32
  ts_local_port :: u16
  ts_peer_port :: u16
  ts_init_tsn :: tsn
  ts_out_streams :: u16
  ts_out_buffer_limit :: usize
  ts_peer_arwnd :: u32

datatype send_error_kind = Closed | BufferFull | UnknownStream

record send_error =
  se_data :: bytes
  se_kind :: send_error_kind

datatype 'a poll_send_result = PollNone | PollSome 'a | PollClosed

definition poll_is_none :: "'a poll_send_result \<Rightarrow> bool" where
  "poll_is_none r = (case r of PollNone \<Rightarrow> True | _ \<Rightarrow> False)"

definition poll_is_some :: "'a poll_send_result \<Rightarrow> bool" where
  "poll_is_some r = (case r of PollSome _ \<Rightarrow> True | _ \<Rightarrow> False)"

definition poll_is_err :: "'a poll_send_result \<Rightarrow> bool" where
  "poll_is_err r = (case r of PollClosed \<Rightarrow> True | _ \<Rightarrow> False)"

definition poll_unwrap :: "'a poll_send_result \<Rightarrow> 'a rust" where
  "poll_unwrap r = (case r of PollSome t \<Rightarrow> Ret t | PollNone \<Rightarrow> Panic PanicMessage | PollClosed \<Rightarrow> Panic PanicMessage)"

definition poll_some :: "'a poll_send_result \<Rightarrow> 'a option" where
  "poll_some r = (case r of PollSome t \<Rightarrow> Some t | PollNone \<Rightarrow> None | PollClosed \<Rightarrow> None)"

definition poll_from_option :: "'a option \<Rightarrow> 'a poll_send_result" where
  "poll_from_option x = (case x of Some t \<Rightarrow> PollSome t | None \<Rightarrow> PollNone)"

text \<open>The closure of \<open>or_else\<close> polls the transmitter again, so it is passed the state.\<close>

definition poll_or_else ::
  "'s \<times> 'a poll_send_result \<Rightarrow> ('s \<Rightarrow> ('s \<times> 'a poll_send_result) rust) \<Rightarrow> ('s \<times> 'a poll_send_result) rust" where
  "poll_or_else x f =
     (case x of (s, r) \<Rightarrow> (case r of PollNone \<Rightarrow> f s | _ \<Rightarrow> Ret (s, r)))"

definition poll_map :: "('a \<Rightarrow> 'b) \<Rightarrow> 'a poll_send_result \<Rightarrow> 'b poll_send_result" where
  "poll_map f r =
     (case r of PollNone \<Rightarrow> PollNone | PollClosed \<Rightarrow> PollClosed | PollSome t \<Rightarrow> PollSome (f t))"

text \<open>\<open>PerStreamInfo\<close> of the transmitter holds the next sequence number only.\<close>

record 'f assoc_tx =
  tx_id :: assoc_id
  primary_path :: "'f transport_address"
  primary_congestion :: per_destination_info
  peer_verification_tag :: u32
  local_port :: u16
  peer_port :: u16
  out_queue :: "data_chunk list"
  resend_queue :: "resend_entry list"
  send_next :: "'f chunk list"
  tx_tsn_counter :: tsn
  last_acked_tsn :: tsn
  peer_last_acked_tsn :: tsn
  duplicated_acks :: usize
  out_buffer_limit :: usize
  current_out_buffered :: usize
  current_in_flight :: usize
  tx_per_stream :: "sequence list"
  peer_rcv_window :: u32
  tx_srtt :: srtt
  timer_ctr :: u64
  rto_timer :: "timer option"
  shutdown_rto_timer :: "timer option"
  heartbeat_timer :: "timer option"
  heartbeats_unacked :: usize
  tx_pmtu_probe :: pmtu_probe
  tx_shutdown_state :: "shutdown_state option"

definition assoc_tx_new ::
  "assoc_id \<Rightarrow> 'f assoc_tx_settings \<Rightarrow> instant \<Rightarrow> 'f assoc_tx rust" where
  "assoc_tx_new i st now =
     bindR (per_destination_new 1500) (\<lambda>cong.
     Ret
      \<lparr> tx_id = i,
        primary_path = ts_primary_path st,
        primary_congestion = cong,
        peer_verification_tag = ts_peer_verification_tag st,
        local_port = ts_local_port st,
        peer_port = ts_peer_port st,
        out_queue = [],
        resend_queue = [],
        send_next = [],
        tx_tsn_counter = ts_init_tsn st,
        last_acked_tsn = 0,
        peer_last_acked_tsn = 0,
        duplicated_acks = 0,
        out_buffer_limit = ts_out_buffer_limit st,
        current_out_buffered = 0,
        current_in_flight = 0,
        tx_per_stream = replicate (unat (ts_out_streams st)) 0,
        peer_rcv_window = ts_peer_arwnd st,
        tx_srtt = srtt_new,
        timer_ctr = 1,
        rto_timer = None,
        shutdown_rto_timer = None,
        heartbeat_timer = Some \<lparr>tm_marker = 0, tm_at = now + from_millis 10\<rparr>,
        heartbeats_unacked = 0,
        tx_pmtu_probe = pmtu_new,
        tx_shutdown_state = None \<rparr>)"

subsection \<open>Timers\<close>

definition set_heartbeat_timeout :: "'f assoc_tx \<Rightarrow> instant \<Rightarrow> 'f assoc_tx" where
  "set_heartbeat_timeout s now =
     s\<lparr>heartbeat_timer := Some \<lparr>tm_marker = timer_ctr s, tm_at = next_probe (tx_pmtu_probe s) now\<rparr>,
       timer_ctr := timer_ctr s + 1\<rparr>"

definition set_rto_timeout :: "'f assoc_tx \<Rightarrow> instant \<Rightarrow> 'f assoc_tx" where
  "set_rto_timeout s now =
     s\<lparr>rto_timer := Some \<lparr>tm_marker = timer_ctr s, tm_at = now + rto_duration (tx_srtt s)\<rparr>,
       timer_ctr := timer_ctr s + 1\<rparr>"

definition set_shutdown_rto_timeout :: "'f assoc_tx \<Rightarrow> instant \<Rightarrow> 'f assoc_tx" where
  "set_shutdown_rto_timeout s now =
     s\<lparr>shutdown_rto_timer := Some \<lparr>tm_marker = timer_ctr s, tm_at = now + rto_duration (tx_srtt s)\<rparr>,
       timer_ctr := timer_ctr s + 1\<rparr>"

definition push_send_next :: "'f assoc_tx \<Rightarrow> 'f chunk \<Rightarrow> 'f assoc_tx" where
  "push_send_next s c = s\<lparr>send_next := send_next s @ [c]\<rparr>"

definition handle_heartbeat_timeout :: "'f assoc_tx \<Rightarrow> timer \<Rightarrow> 'f assoc_tx rust" where
  "handle_heartbeat_timeout s timeout =
     bindR
       (if probe_in_flight (tx_pmtu_probe s) then
          bindR (probe_timed_out (tx_pmtu_probe s)) (\<lambda>p.
            Ret (s\<lparr>tx_pmtu_probe := p, heartbeats_unacked := heartbeats_unacked s + 1\<rparr>))
        else
          let (p, probe_size) = next_probe_size (tx_pmtu_probe s)
          in Ret (push_send_next (s\<lparr>tx_pmtu_probe := p\<rparr>) (CHeartBeat (HbOurs (as_u32 probe_size)))))
       (\<lambda>s. Ret (set_heartbeat_timeout s (tm_at timeout)))"

definition process_heartbeat_ack ::
  "'f assoc_tx \<Rightarrow> heart_beat_ack \<Rightarrow> instant \<Rightarrow> 'f assoc_tx rust" where
  "process_heartbeat_ack s data now =
     (let s = s\<lparr>heartbeats_unacked := 0\<rparr>
      in bindR (heart_beat_ack_ours data) (\<lambda>ours.
           bindR
             (case ours of
                None \<Rightarrow> Ret s
              | Some probe \<Rightarrow>
                  let s = s\<lparr>tx_pmtu_probe := probe_success (tx_pmtu_probe s) (unat probe)\<rparr>
                  in bindR (update_pmtu (primary_congestion s) (get_pmtu (tx_pmtu_probe s))) (\<lambda>c.
                       Ret (s\<lparr>primary_congestion := c\<rparr>)))
             (\<lambda>s. Ret (set_heartbeat_timeout s now))))"

definition handle_shutdown_rto_timeout :: "'f assoc_tx \<Rightarrow> timer \<Rightarrow> 'f assoc_tx" where
  "handle_shutdown_rto_timeout s timeout =
     (case tx_shutdown_state s of
        Some ShutdownSent \<Rightarrow>
          set_shutdown_rto_timeout (push_send_next s (CShutDown (peer_last_acked_tsn s))) (tm_at timeout)
      | Some ShutdownAckSent \<Rightarrow>
          set_shutdown_rto_timeout (push_send_next s CShutDownAck) (tm_at timeout)
      | _ \<Rightarrow> s)"

text \<open>An outstanding packet that is old enough is marked for retransmission.\<close>

definition mark_expired :: "duration \<Rightarrow> instant \<Rightarrow> resend_entry \<Rightarrow> resend_entry" where
  "mark_expired rto at p =
     (if \<not> marked_for_retransmit p \<and> queued_at p + rto \<le> at
      then p\<lparr>marked_for_retransmit := True, queued_at := at\<rparr> else p)"

definition handle_rto_timeout :: "'f assoc_tx \<Rightarrow> timer \<Rightarrow> 'f assoc_tx" where
  "handle_rto_timeout s timeout =
     (if resend_queue s = [] then s\<lparr>rto_timer := None\<rparr>
      else
        let s = s\<lparr>primary_congestion := cong_rto_expired (primary_congestion s)\<rparr>;
            s = s\<lparr>tx_srtt := srtt_rto_expired (tx_srtt s)\<rparr>;
            s = s\<lparr>resend_queue :=
                  map (mark_expired (rto_duration (tx_srtt s)) (tm_at timeout)) (resend_queue s)\<rparr>
        in set_rto_timeout s (tm_at timeout))"

definition timer_matches :: "timer option \<Rightarrow> timer \<Rightarrow> bool" where
  "timer_matches current timeout =
     (case current of None \<Rightarrow> False | Some t \<Rightarrow> tm_marker t = tm_marker timeout)"

definition handle_timeout :: "'f assoc_tx \<Rightarrow> timer \<Rightarrow> 'f assoc_tx rust" where
  "handle_timeout s timeout =
     (let s = (if timer_matches (rto_timer s) timeout then handle_rto_timeout s timeout else s);
          s = (if timer_matches (shutdown_rto_timer s) timeout
               then handle_shutdown_rto_timeout s timeout else s)
      in if timer_matches (heartbeat_timer s) timeout
         then handle_heartbeat_timeout s timeout else Ret s)"

fun find_next_timer_from :: "timer option \<Rightarrow> timer option list \<Rightarrow> timer option" where
  "find_next_timer_from minimum [] = minimum"
| "find_next_timer_from minimum (t # ts) =
     find_next_timer_from
       (case minimum of
          Some current \<Rightarrow>
            (case t of Some timer \<Rightarrow> Some (timer_min current timer) | None \<Rightarrow> minimum)
        | None \<Rightarrow> t) ts"

definition find_next_timer :: "timer option list \<Rightarrow> timer option" where
  "find_next_timer ts = find_next_timer_from None ts"

definition next_timeout :: "'f assoc_tx \<Rightarrow> timer option" where
  "next_timeout s = find_next_timer [shutdown_rto_timer s, rto_timer s, heartbeat_timer s]"

subsection \<open>Acknowledgements\<close>

text \<open>The next gap block, as TSNs; the iterator adds the offsets with overflow checks.\<close>

fun next_block :: "tsn \<Rightarrow> (u16 \<times> u16) list \<Rightarrow> ((tsn \<times> tsn) option \<times> (u16 \<times> u16) list) rust" where
  "next_block cum [] = Ret (None, [])"
| "next_block cum ((start, end) # bs) =
     bindR (word_add cum (ucast start)) (\<lambda>s.
     bindR (word_add cum (ucast end)) (\<lambda>e. Ret (Some (s, e), bs)))"

lemma next_block_decreases:
  "next_block cum bs = Ret (nb, bs') \<Longrightarrow>
     (case nb of None \<Rightarrow> 0 | Some _ \<Rightarrow> Suc (length bs')) < Suc (length bs)"
  by (cases bs) (auto simp: outcome)

function gap_loop ::
  "tsn \<Rightarrow> (tsn \<times> tsn) option \<Rightarrow> (u16 \<times> u16) list \<Rightarrow> resend_entry list \<Rightarrow> usize
   \<Rightarrow> (resend_entry list \<times> usize) rust" where
  "gap_loop cum None bs ps acked = Ret (ps, acked)"
| "gap_loop cum (Some b) bs [] acked = Ret ([], acked)"
| "gap_loop cum (Some b) bs (p # ps) acked =
     (let t = dc_tsn (re_data p)
      in if partially_acked p then
           bindR (gap_loop cum (Some b) bs ps acked) (\<lambda>(ps, acked). Ret (p # ps, acked))
         else if tsn_cmp t (fst b) = Less then
           bindR (gap_loop cum (Some b) bs ps acked) (\<lambda>(ps, acked).
             Ret (p\<lparr>marked_for_fast_retransmit := True\<rparr> # ps, acked))
         else if tsn_cmp t (fst b) \<noteq> Less \<and> tsn_cmp t (snd b) = Less then
           bindR (gap_loop cum (Some b) bs ps (acked + length (dc_buf (re_data p)))) (\<lambda>(ps, acked).
             Ret (p\<lparr>partially_acked := True\<rparr> # ps, acked))
         else
           bindR (next_block cum bs) (\<lambda>(nb, bs). gap_loop cum nb bs (p # ps) acked))"
  by pat_completeness auto
termination
  by (relation "measure (\<lambda>(cum, b, bs, ps, acked).
        (case b of None \<Rightarrow> 0 | Some _ \<Rightarrow> Suc (length bs)) + length ps)")
     (auto dest: next_block_decreases)

declare gap_loop.simps(3) [simp del]

definition process_sack_gap_blocks ::
  "'f assoc_tx \<Rightarrow> selective_ack \<Rightarrow> usize \<Rightarrow> usize \<Rightarrow> 'f assoc_tx rust" where
  "process_sack_gap_blocks s sack fully_acked in_flight_before_sack =
     bindR (next_block (cum_tsn sack) (blocks sack)) (\<lambda>(b, bs).
     bindR (gap_loop (cum_tsn sack) b bs (resend_queue s) 0) (\<lambda>(q, partial).
       Ret (s\<lparr>resend_queue := q,
              primary_congestion :=
                bytes_acked (primary_congestion s) partial fully_acked in_flight_before_sack\<rparr>)))"

text \<open>The loop that drops the cumulatively acknowledged packets from the resend queue.\<close>

fun pop_acked :: "'f assoc_tx \<Rightarrow> tsn \<Rightarrow> resend_entry list \<Rightarrow> usize \<Rightarrow> ('f assoc_tx \<times> usize) rust" where
  "pop_acked s cum [] acked = Ret (s\<lparr>resend_queue := []\<rparr>, acked)"
| "pop_acked s cum (p # q) acked =
     (if tsn_le (dc_tsn (re_data p)) cum then
        let n = length (dc_buf (re_data p))
        in bindR (usize_sub (current_out_buffered s) n) (\<lambda>ob.
           bindR (usize_sub (current_in_flight s) n) (\<lambda>inf.
             pop_acked (s\<lparr>current_out_buffered := ob, current_in_flight := inf\<rparr>) cum q (acked + n)))
      else Ret (s\<lparr>resend_queue := p # q\<rparr>, acked))"

definition handle_sack :: "'f assoc_tx \<Rightarrow> selective_ack \<Rightarrow> instant \<Rightarrow> 'f assoc_tx rust" where
  "handle_sack s sack now =
     (let in_flight_before_sack = current_in_flight s
      in if tsn_cmp (last_acked_tsn s) (cum_tsn sack) = Greater then Ret s
         else if cum_tsn sack = last_acked_tsn s then
           let s = s\<lparr>peer_rcv_window :=
                     saturating_sub (sa_a_rwnd sack) (as_u32 (current_in_flight s))\<rparr>;
               s = s\<lparr>duplicated_acks := duplicated_acks s + 1\<rparr>;
               s = (if duplicated_acks s \<ge> 2 \<and> resend_queue s \<noteq> []
                    then s\<lparr>primary_congestion := enter_fast_recovery (primary_congestion s)\<rparr>
                    else s)
           in process_sack_gap_blocks s sack 0 in_flight_before_sack
         else
           let s = s\<lparr>last_acked_tsn := cum_tsn sack, duplicated_acks := 0\<rparr>
           in bindR (pop_acked s (cum_tsn sack) (resend_queue s) 0) (\<lambda>(s, acked).
              bindR (process_sack_gap_blocks s sack acked in_flight_before_sack) (\<lambda>s.
                let s = s\<lparr>peer_rcv_window :=
                          saturating_sub (sa_a_rwnd sack) (as_u32 (current_in_flight s))\<rparr>
                in bindR (srtt_tsn_acked (tx_srtt s) (cum_tsn sack) now) (\<lambda>r.
                     let s = s\<lparr>tx_srtt := r\<rparr>
                     in Ret (if acked > 0
                             then if current_in_flight s > 0 then set_rto_timeout s now
                                  else s\<lparr>rto_timer := None\<rparr>
                             else s)))))"

subsection \<open>Notifications and shutdown\<close>

definition tx_notification :: "'f assoc_tx \<Rightarrow> 'f tx_note \<Rightarrow> 'f assoc_tx rust" where
  "tx_notification s n =
     (case n of
        TxSend c \<Rightarrow>
          (case c of
             CData d \<Rightarrow> Ret (s\<lparr>out_queue := out_queue s @ [d]\<rparr>)
           | CSAck sack \<Rightarrow>
               let s = s\<lparr>peer_last_acked_tsn := cum_tsn sack\<rparr>;
                   s = (if tx_shutdown_state s = Some ShutdownSent
                        then push_send_next s (CShutDown (peer_last_acked_tsn s)) else s)
               in Ret (push_send_next s c)
           | _ \<Rightarrow> Ret (push_send_next s c))
      | TxPrimaryPathChanged addr \<Rightarrow> Ret (s\<lparr>primary_path := addr\<rparr>)
      | TxSAck sack recv_at \<Rightarrow> handle_sack s sack recv_at
      | TxAbort \<Rightarrow> Ret (s\<lparr>tx_shutdown_state := Some AbortReceived\<rparr>)
      | TxShutdown \<Rightarrow>
          Ret (if tx_shutdown_state s = None then s\<lparr>tx_shutdown_state := Some TryingTo\<rparr> else s)
      | TxPeerShutdown \<Rightarrow>
          (case tx_shutdown_state s of
             None \<Rightarrow> Ret (s\<lparr>tx_shutdown_state := Some ShutdownReceived\<rparr>)
           | Some ShutdownSent \<Rightarrow> Ret (push_send_next s CShutDownAck)
           | Some ShutdownAckSent \<Rightarrow> Ret (push_send_next s CShutDownAck)
           | Some _ \<Rightarrow> Ret s)
      | TxPeerShutdownAck \<Rightarrow>
          Ret ((push_send_next s (CShutDownComplete False))\<lparr>tx_shutdown_state := Some Complete\<rparr>)
      | TxPeerShutdownComplete \<Rightarrow> Ret (s\<lparr>tx_shutdown_state := Some Complete\<rparr>)
      | TxHeartBeatAck data now \<Rightarrow> process_heartbeat_ack s data now)"

definition shutdown_complete :: "'f assoc_tx \<Rightarrow> bool" where
  "shutdown_complete s = is_completely_shutdown (tx_shutdown_state s)"

definition initiate_shutdown :: "'f assoc_tx \<Rightarrow> 'f assoc_tx" where
  "initiate_shutdown s = s\<lparr>tx_shutdown_state := Some TryingTo\<rparr>"

subsection \<open>Sending\<close>

definition queued_bytes :: "data_chunk list \<Rightarrow> usize" where
  "queued_bytes q = (\<Sum>d \<leftarrow> q. length (dc_buf d))"

definition resend_bytes :: "resend_entry list \<Rightarrow> usize" where
  "resend_bytes q = (\<Sum>p \<leftarrow> q. length (dc_buf (re_data p)))"

definition tx_assert_invariants :: "'f assoc_tx \<Rightarrow> bool" where
  "tx_assert_invariants s =
     (current_out_buffered s = queued_bytes (out_queue s) + resend_bytes (resend_queue s)
      \<and> current_in_flight s = resend_bytes (resend_queue s))"

definition try_send_data ::
  "'f assoc_tx \<Rightarrow> bytes \<Rightarrow> u16 \<Rightarrow> u32 \<Rightarrow> bool \<Rightarrow> bool \<Rightarrow> ('f assoc_tx \<times> (send_error + unit)) rust" where
  "try_send_data s data stream ppid immediate unordered =
     (if tx_shutdown_state s \<noteq> None then Ret (s, Inl \<lparr>se_data = data, se_kind = Closed\<rparr>)
      else if \<not> unat stream < length (tx_per_stream s)
      then Ret (s, Inl \<lparr>se_data = data, se_kind = UnknownStream\<rparr>)
      else if current_out_buffered s + length data > out_buffer_limit s then
        if tx_assert_invariants s then Ret (s, Inl \<lparr>se_data = data, se_kind = BufferFull\<rparr>)
        else Panic AssertionFailed
      else
        let seqnum_ctr = tx_per_stream s ! unat stream;
            s = s\<lparr>current_out_buffered := current_out_buffered s + length data\<rparr>;
            s = s\<lparr>out_queue := out_queue s @
                  [\<lparr> dc_tsn = 0, dc_stream_id = stream, dc_stream_seq_num = seqnum_ctr,
                     dc_ppid = ppid, dc_buf = data, dc_immediate = immediate,
                     dc_unordered = unordered, dc_begin = True, dc_end = True \<rparr>]\<rparr>
        in Ret (if unordered then s
                else s\<lparr>tx_per_stream := (tx_per_stream s)[unat stream := seq_increase seqnum_ctr]\<rparr>,
                Inr ()))"

definition packet_header :: "'f assoc_tx \<Rightarrow> packet" where
  "packet_header s = packet_new (local_port s) (peer_port s) (peer_verification_tag s)"

definition poll_signal_to_send ::
  "'f fake_addr_impl \<Rightarrow> 'f assoc_tx \<Rightarrow> usize \<Rightarrow> usize \<Rightarrow> instant
   \<Rightarrow> ('f assoc_tx \<times> 'f chunk poll_send_result) rust" where
  "poll_signal_to_send I s limit already_packed now =
     (let pmtu = get_pmtu (tx_pmtu_probe s);
          limit = min limit (pmtu - min pmtu already_packed)
      in case send_next s of
           front # rest \<Rightarrow>
             bindR (chunk_serialized_size I front) (\<lambda>n.
               if n \<le> limit then Ret (s\<lparr>send_next := rest\<rparr>, PollSome front)
               else if (case front of CHeartBeat _ \<Rightarrow> True | _ \<Rightarrow> False) \<and> already_packed = 0
               then Ret (s\<lparr>send_next := rest\<rparr>, PollSome front)
               else Ret (s, PollNone))
         | [] \<Rightarrow>
             (case tx_shutdown_state s of
                Some TryingTo \<Rightarrow>
                  if resend_queue s = [] \<and> out_queue s = [] then
                    Ret (set_shutdown_rto_timeout (s\<lparr>tx_shutdown_state := Some ShutdownSent\<rparr>) now,
                         PollSome (CShutDown (peer_last_acked_tsn s)))
                  else Ret (s, PollNone)
              | Some ShutdownReceived \<Rightarrow>
                  if resend_queue s = [] \<and> out_queue s = [] then
                    Ret (set_shutdown_rto_timeout (s\<lparr>tx_shutdown_state := Some ShutdownAckSent\<rparr>) now,
                         PollSome CShutDownAck)
                  else Ret (s, PollNone)
              | Some AbortReceived \<Rightarrow> Ret (s, PollClosed)
              | Some Complete \<Rightarrow> Ret (s, PollClosed)
              | Some ShutdownSent \<Rightarrow> Ret (s, PollNone)
              | Some ShutdownAckSent \<Rightarrow> Ret (s, PollNone)
              | None \<Rightarrow> Ret (s, PollNone)))"

text \<open>The three cases of \<open>_poll_data_to_send\<close>, by the state of congestion control.\<close>

definition poll_loss_recovery ::
  "'f assoc_tx \<Rightarrow> usize \<Rightarrow> instant \<Rightarrow> ('f assoc_tx \<times> data_chunk poll_send_result) rust" where
  "poll_loss_recovery s data_limit now =
     (case resend_queue s of
        [] \<Rightarrow> Panic LossRecoveryNoPackets
      | front # rest \<Rightarrow>
          if length (dc_buf (re_data front)) \<le> data_limit \<and> marked_for_retransmit front then
            let rtx = re_data front;
                s = s\<lparr>resend_queue := front\<lparr>marked_for_retransmit := False\<rparr> # rest\<rparr>;
                s = (if rto_timer s = None then set_rto_timeout s now else s)
            in Ret (s, PollSome rtx)
          else Ret (s, PollNone))"

fun fast_retransmit ::
  "usize \<Rightarrow> resend_entry list \<Rightarrow> resend_entry list \<times> data_chunk poll_send_result" where
  "fast_retransmit data_limit [] = ([], PollNone)"
| "fast_retransmit data_limit (p # q) =
     (if marked_for_fast_retransmit p \<and> \<not> marked_was_fast_retransmit p
         \<and> length (dc_buf (re_data p)) \<le> data_limit
      then (p\<lparr>marked_was_fast_retransmit := True, marked_for_fast_retransmit := False\<rparr> # q,
            PollSome (re_data p))
      else let (q, r) = fast_retransmit data_limit q in (p # q, r))"

text \<open>The chunk to put on the wire next: the whole front of the queue, or a fragment of it.\<close>

definition next_new_chunk ::
  "'f assoc_tx \<Rightarrow> usize \<Rightarrow> ('f assoc_tx \<times> data_chunk) option" where
  "next_new_chunk s data_limit =
     (case out_queue s of
        [] \<Rightarrow> None
      | front # rest \<Rightarrow>
          let front_buf_len = length (dc_buf front)
          in if front_buf_len \<le> data_limit then
               Some (s\<lparr>out_queue := rest\<rparr>, front\<lparr>dc_tsn := tx_tsn_counter s, dc_end := True\<rparr>)
             else if front_buf_len > get_pmtu (tx_pmtu_probe s) then
               if data_limit = 0 then None
               else
                 Some (s\<lparr>out_queue :=
                           front\<lparr>dc_begin := False, dc_buf := drop data_limit (dc_buf front)\<rparr> # rest\<rparr>,
                       \<lparr> dc_tsn = tx_tsn_counter s, dc_stream_id = dc_stream_id front,
                         dc_stream_seq_num = dc_stream_seq_num front, dc_ppid = dc_ppid front,
                         dc_buf = take data_limit (dc_buf front),
                         dc_immediate = dc_immediate front, dc_unordered = dc_unordered front,
                         dc_begin = dc_begin front, dc_end = False \<rparr>)
             else None)"

definition poll_new_data ::
  "'f assoc_tx \<Rightarrow> usize \<Rightarrow> instant \<Rightarrow> ('f assoc_tx \<times> data_chunk poll_send_result) rust" where
  "poll_new_data s data_limit now =
     (if out_queue s = [] then Ret (s, PollNone)
      else if current_in_flight s > cwnd (primary_congestion s) then Ret (s, PollNone)
      else
        let data_limit = min data_limit (unat (peer_rcv_window s))
        in case next_new_chunk s data_limit of
             None \<Rightarrow> Ret (s, PollNone)
           | Some (s, packet) \<Rightarrow>
               let s = s\<lparr>tx_tsn_counter := tsn_increase (tx_tsn_counter s)\<rparr>
               in bindR (word_sub (peer_rcv_window s) (as_u32 (length (dc_buf packet)))) (\<lambda>w.
                    let s = s\<lparr>peer_rcv_window := w\<rparr>;
                        s = s\<lparr>current_in_flight := current_in_flight s + length (dc_buf packet)\<rparr>;
                        s = s\<lparr>resend_queue := resend_queue s @ [resend_entry_new packet now]\<rparr>;
                        s = s\<lparr>tx_srtt := tsn_sent (tx_srtt s) (dc_tsn packet) now\<rparr>;
                        s = (if rto_timer s = None then set_rto_timeout s now else s)
                    in Ret (s, PollSome packet)))"

definition poll_data_to_send ::
  "'f assoc_tx \<Rightarrow> usize \<Rightarrow> usize \<Rightarrow> instant \<Rightarrow> ('f assoc_tx \<times> data_chunk poll_send_result) rust" where
  "poll_data_to_send s data_limit already_packed now =
     (let pmtu = get_pmtu (tx_pmtu_probe s)
      in if pmtu \<le> already_packed then Ret (s, PollNone)
         else
           let data_limit = min data_limit (pmtu - already_packed)
           in if data_limit \<le> 16 then Ret (s, PollNone)
              else
                let data_limit = data_limit - 16
                in case cg_state (primary_congestion s) of
                     LossRecovery \<Rightarrow> poll_loss_recovery s data_limit now
                   | FastRecovery \<Rightarrow>
                       let (q, r) = fast_retransmit data_limit (resend_queue s)
                       in Ret (s\<lparr>resend_queue := q\<rparr>, r)
                   | CongestionAvoidance \<Rightarrow> poll_new_data s data_limit now
                   | SlowStart \<Rightarrow> poll_new_data s data_limit now)"

end
