(* ===== verification/Tx_Inv.thy ===== *)
theory Tx_Inv
  imports Tx
begin

text \<open>
  The invariant of the transmitter and the properties of its operations. The events that drive
  a transmitter are collected in \<open>tx_op\<close>; the invariant \<open>tx_inv\<close> holds in every state that a
  sequence of admissible events reaches, and under it no call of the two polls and no
  acknowledgement panics.
\<close>

subsection \<open>Events\<close>

datatype 'f tx_op =
    OpSend bytes u16 u32 bool bool
  | OpNotify "'f tx_note"
  | OpTimeout timer
  | OpShutdown
  | OpPollSignal usize usize instant
  | OpPollData usize usize instant

fun tx_apply :: "'f fake_addr_impl \<Rightarrow> 'f tx_op \<Rightarrow> 'f assoc_tx \<Rightarrow> 'f assoc_tx rust" where
  "tx_apply I (OpSend data stream ppid immediate unordered) s =
     bindR (try_send_data s data stream ppid immediate unordered) (\<lambda>(s, r). Ret s)"
| "tx_apply I (OpNotify n) s = tx_notification s n"
| "tx_apply I (OpTimeout t) s = handle_timeout s t"
| "tx_apply I OpShutdown s = Ret (initiate_shutdown s)"
| "tx_apply I (OpPollSignal limit packed now) s =
     bindR (poll_signal_to_send I s limit packed now) (\<lambda>(s, r). Ret s)"
| "tx_apply I (OpPollData limit packed now) s =
     bindR (poll_data_to_send s limit packed now) (\<lambda>(s, r). Ret s)"

text \<open>
  The events the invariant admits: messages are not empty, the clock has run for less than
  2^60 nanoseconds, and no data chunk is queued by the notification \<open>Send\<close>, which does not
  account for it.
\<close>

fun notification_ok :: "'f tx_note \<Rightarrow> bool" where
  "notification_ok (TxSend (CData d)) = False"
| "notification_ok (TxSAck sack now) = (now \<le> 2 ^ 60)"
| "notification_ok _ = True"

fun tx_op_ok :: "'f tx_op \<Rightarrow> bool" where
  "tx_op_ok (OpSend data _ _ _ _) = (data \<noteq> [])"
| "tx_op_ok (OpNotify n) = notification_ok n"
| "tx_op_ok _ = True"

subsection \<open>The invariant\<close>

text \<open>The chunks in flight, oldest first.\<close>

definition outstanding :: "'f assoc_tx \<Rightarrow> data_chunk list" where
  "outstanding s = map re_data (resend_queue s)"

fun tsns_from :: "tsn \<Rightarrow> nat \<Rightarrow> tsn list" where
  "tsns_from t 0 = []"
| "tsns_from t (Suc n) = t # tsns_from (tsn_increase t) n"

definition nonempty_chunks :: "data_chunk list \<Rightarrow> bool" where
  "nonempty_chunks = list_all (\<lambda>d. dc_buf d \<noteq> [])"

text \<open>
  The byte counters are the sums over the queues and stay within the buffer limit; no chunk is
  empty; the chunks in flight carry the consecutive TSNs just below the counter; a queued
  message has its end flag; loss recovery has something to recover.
\<close>

definition tx_inv :: "'f assoc_tx \<Rightarrow> bool" where
  "tx_inv s =
     (current_in_flight s = queued_bytes (outstanding s)
      \<and> current_out_buffered s = queued_bytes (out_queue s) + queued_bytes (outstanding s)
      \<and> current_out_buffered s \<le> out_buffer_limit s
      \<and> nonempty_chunks (out_queue s) \<and> nonempty_chunks (outstanding s)
      \<and> list_all dc_end (out_queue s)
      \<and> map dc_tsn (outstanding s) =
          tsns_from (tx_tsn_counter s - of_nat (length (outstanding s))) (length (outstanding s))
      \<and> (cg_state (primary_congestion s) = LossRecovery \<longrightarrow> outstanding s \<noteq> [])
      \<and> srtt_inv (tx_srtt s)
      \<and> 1200 \<le> get_pmtu (tx_pmtu_probe s))"

lemma resend_bytes_data: "resend_bytes q = queued_bytes (map re_data q)"
  by (simp add: resend_bytes_def queued_bytes_def comp_def)

lemma tx_inv_asserts: "tx_inv s \<Longrightarrow> tx_assert_invariants s"
  by (simp add: tx_inv_def tx_assert_invariants_def resend_bytes_data outstanding_def)

lemma queued_bytes_simps [simp]:
  "queued_bytes [] = 0"
  "queued_bytes (d # q) = length (dc_buf d) + queued_bytes q"
  "queued_bytes (q @ r) = queued_bytes q + queued_bytes r"
  by (simp_all add: queued_bytes_def)

lemma nonempty_chunks_simps [simp]:
  "nonempty_chunks []"
  "nonempty_chunks (d # q) \<longleftrightarrow> dc_buf d \<noteq> [] \<and> nonempty_chunks q"
  "nonempty_chunks (q @ r) \<longleftrightarrow> nonempty_chunks q \<and> nonempty_chunks r"
  by (simp_all add: nonempty_chunks_def)

lemma nonempty_queued_bytes: "nonempty_chunks q \<Longrightarrow> queued_bytes q = 0 \<longleftrightarrow> q = []"
  by (cases q) auto

lemma nonempty_length_le: "nonempty_chunks q \<Longrightarrow> length q \<le> queued_bytes q"
proof (induction q)
  case (Cons d q)
  then have "1 \<le> length (dc_buf d)" "length q \<le> queued_bytes q" by (simp_all add: Suc_le_eq)
  then show ?case by simp
qed simp

lemma tsns_from_snoc: "tsns_from t (Suc n) = tsns_from t n @ [t + of_nat n]"
proof (induction n arbitrary: t)
  case (Suc n)
  show ?case
    using Suc [of "tsn_increase t"] by (simp add: tsn_increase_def add.assoc)
qed simp

lemma length_tsns_from [simp]: "length (tsns_from t n) = n"
  by (induction n arbitrary: t) simp_all

lemma nth_tsns_from: "i < n \<Longrightarrow> tsns_from t n ! i = t + of_nat i"
proof (induction n arbitrary: t i)
  case (Suc n)
  then show ?case
    by (cases i) (simp_all add: tsn_increase_def add.assoc)
qed simp

text \<open>The suffix of a run of TSNs below a counter is such a run.\<close>

lemma tsns_from_drop: "drop k (tsns_from t n) = tsns_from (t + of_nat k) (n - k)"
proof (induction k arbitrary: t n)
  case (Suc k)
  then show ?case
    by (cases n) (simp_all add: tsn_increase_def add.assoc)
qed simp

lemma below_counter_drop:
  assumes "map dc_tsn q = tsns_from (c - of_nat (length q)) (length q)"
  shows "map dc_tsn (drop k q) = tsns_from (c - of_nat (length (drop k q))) (length (drop k q))"
proof (cases "k \<le> length q")
  case True
  then have "c - of_nat (length q) + of_nat k = c - of_nat (length q - k)"
    by (simp add: of_nat_diff)
  then show ?thesis
    unfolding drop_map [symmetric] assms length_drop tsns_from_drop by (simp only:)
qed simp

subsection \<open>What the components guarantee\<close>

lemmas tx_timer_setters =
  set_heartbeat_timeout_def set_rto_timeout_def set_shutdown_rto_timeout_def

lemma outstanding_update [simp]:
  "outstanding (s\<lparr>resend_queue := q\<rparr>) = map re_data q"
  "outstanding (s\<lparr>primary_congestion := c\<rparr>) = outstanding s"
  "outstanding (s\<lparr>out_queue := d\<rparr>) = outstanding s"
  "outstanding (s\<lparr>tx_tsn_counter := t\<rparr>) = outstanding s"
  "outstanding (s\<lparr>current_in_flight := n\<rparr>) = outstanding s"
  "outstanding (s\<lparr>current_out_buffered := n\<rparr>) = outstanding s"
  "outstanding (s\<lparr>tx_srtt := r\<rparr>) = outstanding s"
  by (simp_all add: outstanding_def)

text \<open>An update outside the fields the invariant reads keeps it.\<close>

definition tx_core ::
  "'f assoc_tx \<Rightarrow> data_chunk list \<times> data_chunk list \<times> tsn \<times> nat \<times> nat \<times> nat \<times> congestion_state \<times> srtt" where
  "tx_core s = (out_queue s, outstanding s, tx_tsn_counter s, current_in_flight s,
     current_out_buffered s, out_buffer_limit s, cg_state (primary_congestion s), tx_srtt s)"

lemma tx_inv_core:
  "tx_inv s \<Longrightarrow> tx_core t = tx_core s \<Longrightarrow> get_pmtu (tx_pmtu_probe s) \<le> get_pmtu (tx_pmtu_probe t)
   \<Longrightarrow> tx_inv t"
  by (simp add: tx_inv_def tx_core_def)

lemma tx_core_setters [simp]:
  "tx_core (set_heartbeat_timeout s now) = tx_core s"
  "tx_core (set_rto_timeout s now) = tx_core s"
  "tx_core (set_shutdown_rto_timeout s now) = tx_core s"
  "tx_core (push_send_next s c) = tx_core s"
  "tx_core (s\<lparr>send_next := q\<rparr>) = tx_core s"
  "tx_core (s\<lparr>peer_last_acked_tsn := t\<rparr>) = tx_core s"
  "tx_core (s\<lparr>tx_shutdown_state := x\<rparr>) = tx_core s"
  "tx_core (s\<lparr>primary_path := a\<rparr>) = tx_core s"
  "tx_core (s\<lparr>rto_timer := tm\<rparr>) = tx_core s"
  "tx_core (s\<lparr>peer_rcv_window := w\<rparr>) = tx_core s"
  "tx_core (s\<lparr>duplicated_acks := n\<rparr>) = tx_core s"
  "tx_core (s\<lparr>tx_pmtu_probe := p\<rparr>) = tx_core s"
  "tx_core (s\<lparr>heartbeats_unacked := n\<rparr>) = tx_core s"
  "tx_core (s\<lparr>last_acked_tsn := t\<rparr>) = tx_core s"
  by (simp_all add: tx_core_def outstanding_def tx_timer_setters push_send_next_def)

lemma pmtu_setters [simp]:
  "tx_pmtu_probe (set_heartbeat_timeout s now) = tx_pmtu_probe s"
  "tx_pmtu_probe (set_rto_timeout s now) = tx_pmtu_probe s"
  "tx_pmtu_probe (set_shutdown_rto_timeout s now) = tx_pmtu_probe s"
  "tx_pmtu_probe (push_send_next s c) = tx_pmtu_probe s"
  by (simp_all add: tx_timer_setters push_send_next_def)

lemma outstanding_setters [simp]:
  "outstanding (set_heartbeat_timeout s now) = outstanding s"
  "outstanding (set_rto_timeout s now) = outstanding s"
  "outstanding (set_shutdown_rto_timeout s now) = outstanding s"
  "outstanding (push_send_next s c) = outstanding s"
  by (simp_all add: outstanding_def tx_timer_setters push_send_next_def)

lemma tx_inv_setters [simp]:
  "tx_inv (set_heartbeat_timeout s now) = tx_inv s"
  "tx_inv (set_rto_timeout s now) = tx_inv s"
  "tx_inv (set_shutdown_rto_timeout s now) = tx_inv s"
  "tx_inv (push_send_next s c) = tx_inv s"
  "tx_inv (s\<lparr>send_next := q\<rparr>) = tx_inv s"
  "tx_inv (s\<lparr>peer_last_acked_tsn := t\<rparr>) = tx_inv s"
  "tx_inv (s\<lparr>tx_shutdown_state := x\<rparr>) = tx_inv s"
  "tx_inv (s\<lparr>primary_path := a\<rparr>) = tx_inv s"
  "tx_inv (s\<lparr>rto_timer := tm\<rparr>) = tx_inv s"
  "tx_inv (s\<lparr>peer_rcv_window := w\<rparr>) = tx_inv s"
  "tx_inv (s\<lparr>duplicated_acks := n\<rparr>) = tx_inv s"
  "tx_inv (s\<lparr>heartbeats_unacked := n\<rparr>) = tx_inv s"
  "tx_inv (s\<lparr>last_acked_tsn := t\<rparr>) = tx_inv s"
  by (simp_all add: tx_inv_def outstanding_def tx_timer_setters push_send_next_def)

text \<open>What only sending and polling for data change.\<close>

definition tx_feed :: "'f assoc_tx \<Rightarrow> data_chunk list \<times> tsn \<times> usize" where
  "tx_feed s = (out_queue s, tx_tsn_counter s, out_buffer_limit s)"

lemma tx_feed_core: "tx_core t = tx_core s \<Longrightarrow> tx_feed t = tx_feed s"
  by (simp add: tx_core_def tx_feed_def)

subsection \<open>Timers\<close>

lemma mark_expired_data [simp]: "re_data (mark_expired r a p) = re_data p"
  by (simp add: mark_expired_def)

lemma map_mark_expired [simp]: "map re_data (map (mark_expired r a) q) = map re_data q"
  by simp

lemma handle_rto_timeout_inv: "tx_inv s \<Longrightarrow> tx_inv (handle_rto_timeout s t)"
  by (simp add: handle_rto_timeout_def Let_def)
     (simp add: tx_inv_def outstanding_def comp_def srtt_rto_expired_inv)

lemma handle_shutdown_rto_timeout_inv: "tx_inv s \<Longrightarrow> tx_inv (handle_shutdown_rto_timeout s t)"
  by (simp add: handle_shutdown_rto_timeout_def split: option.split shutdown_state.split)

lemma tx_inv_pmtu:
  "tx_inv s \<Longrightarrow> get_pmtu (tx_pmtu_probe s) \<le> get_pmtu p \<Longrightarrow> tx_inv (s\<lparr>tx_pmtu_probe := p\<rparr>)"
  by (rule tx_inv_core) simp_all

lemma handle_heartbeat_timeout_inv:
  "tx_inv s \<Longrightarrow> handle_heartbeat_timeout s t = Ret s' \<Longrightarrow> tx_inv s'"
  using probe_apply_pmtu [of ProbeSent "tx_pmtu_probe s"]
    probe_apply_pmtu [of ProbeLost "tx_pmtu_probe s"]
  by (auto simp: handle_heartbeat_timeout_def outcome Let_def next_probe_size_def tx_inv_pmtu
      split: if_splits prod.splits)

lemma handle_timeout_inv: "tx_inv s \<Longrightarrow> handle_timeout s t = Ret s' \<Longrightarrow> tx_inv s'"
  by (auto simp: handle_timeout_def Let_def handle_rto_timeout_inv handle_shutdown_rto_timeout_inv
      elim!: handle_heartbeat_timeout_inv [rotated] split: if_splits)

lemma process_heartbeat_ack_inv:
  "tx_inv s \<Longrightarrow> process_heartbeat_ack s d now = Ret s' \<Longrightarrow> tx_inv s'"
  by (auto simp: process_heartbeat_ack_def outcome Let_def update_pmtu_def tx_inv_def outstanding_def
      tx_timer_setters probe_success_def get_pmtu_def split: option.splits)

subsection \<open>Acknowledgements\<close>

abbreviation acked_by :: "tsn \<Rightarrow> data_chunk \<Rightarrow> bool" where
  "acked_by cum d \<equiv> tsn_le (dc_tsn d) cum"

lemma pop_acked_eq:
  "resend_bytes q \<le> current_out_buffered s \<Longrightarrow> resend_bytes q \<le> current_in_flight s \<Longrightarrow>
   pop_acked s cum q a =
     Ret (s\<lparr>current_out_buffered := current_out_buffered s
               - queued_bytes (takeWhile (acked_by cum) (map re_data q)),
            current_in_flight := current_in_flight s
               - queued_bytes (takeWhile (acked_by cum) (map re_data q)),
            resend_queue := dropWhile (acked_by cum \<circ> re_data) q\<rparr>,
          a + queued_bytes (takeWhile (acked_by cum) (map re_data q)))"
proof (induction q arbitrary: s a)
  case (Cons p q)
  then have "length (dc_buf (re_data p)) \<le> current_out_buffered s"
    and "length (dc_buf (re_data p)) \<le> current_in_flight s"
    by (simp_all add: resend_bytes_data)
  with Cons show ?case
    by (simp add: resend_bytes_data add.assoc comp_def Let_def)
qed simp

lemma gap_loop_data:
  "gap_loop cum b bs ps n = Ret (q, m) \<Longrightarrow> map re_data q = map re_data ps"
proof (induction cum b bs ps n arbitrary: q m rule: gap_loop.induct)
  case (3 cum b bs p ps n)
  show ?case
    using "3.prems" "3.IH"(1-4) [OF refl]
    by (auto simp: gap_loop.simps(3) Let_def outcome split: if_splits)
qed simp_all

text \<open>The gap blocks of a SACK that stay below the top of the TSN space.\<close>

definition gap_blocks_fit :: "tsn \<Rightarrow> (u16 \<times> u16) list \<Rightarrow> bool" where
  "gap_blocks_fit cum = list_all (\<lambda>(a, b).
     unat cum + unat a < 4294967296 \<and> unat cum + unat b < 4294967296)"

lemma next_block_fits:
  assumes "gap_blocks_fit cum bs"
  shows "\<exists>b bs'. next_block cum bs = Ret (b, bs') \<and> gap_blocks_fit cum bs'"
proof (cases bs)
  case (Cons p bs')
  obtain a b where p: "p = (a, b)" by fastforce
  have "unat (ucast a :: u32) = unat a" "unat (ucast b :: u32) = unat b"
    using unat_u16_bound [of a] unat_u16_bound [of b]
    by (simp_all add: unsigned_ucast_eq take_bit_nat_eq_self)
  with assms show ?thesis
    by (simp add: Cons p gap_blocks_fit_def word_add_def)
qed (simp add: gap_blocks_fit_def)

lemma gap_loop_fits: "gap_blocks_fit cum bs \<Longrightarrow> returns (gap_loop cum b bs ps n)"
proof (induction cum b bs ps n rule: gap_loop.induct)
  case (3 cum b bs p ps n)
  obtain nb bs' where nb: "next_block cum bs = Ret (nb, bs')" "gap_blocks_fit cum bs'"
    using next_block_fits [OF "3.prems"] by blast
  show ?case
    using "3.IH" "3.prems" nb
    by (auto simp: gap_loop.simps(3) Let_def returns_bindR returns_iff)
qed simp_all

lemma process_gap_blocks_cases:
  assumes "process_sack_gap_blocks s sack a i = Ret s'"
  obtains q n where "map re_data q = outstanding s"
    and "s' = s\<lparr>resend_queue := q,
               primary_congestion := bytes_acked (primary_congestion s) n a i\<rparr>"
proof -
  from assms obtain b bs q n where "gap_loop (cum_tsn sack) b bs (resend_queue s) 0 = Ret (q, n)"
    and "s' = s\<lparr>resend_queue := q,
               primary_congestion := bytes_acked (primary_congestion s) n a i\<rparr>"
    by (auto simp: process_sack_gap_blocks_def outcome)
  with that show thesis
    using gap_loop_data by (metis outstanding_def)
qed

lemma process_gap_blocks_returns:
  assumes "gap_blocks_fit (cum_tsn sack) (blocks sack)"
  shows "returns (process_sack_gap_blocks s sack a i)"
proof -
  obtain b bs where "next_block (cum_tsn sack) (blocks sack) = Ret (b, bs)"
    and "gap_blocks_fit (cum_tsn sack) bs"
    using next_block_fits [OF assms] by blast
  moreover from this obtain q n where "gap_loop (cum_tsn sack) b bs (resend_queue s) 0 = Ret (q, n)"
    using gap_loop_fits [of "cum_tsn sack" bs b "resend_queue s" 0] by (auto simp: returns_iff)
  ultimately show ?thesis
    by (simp add: process_sack_gap_blocks_def)
qed

text \<open>Dropping the oldest \<open>k\<close> chunks and their bytes keeps the invariant.\<close>

lemma tx_inv_ack:
  assumes "tx_inv s" and "map re_data q = drop k (outstanding s)"
    and "cg_state c = LossRecovery \<Longrightarrow> drop k (outstanding s) \<noteq> []"
  shows "tx_inv (s\<lparr>current_out_buffered := current_out_buffered s - queued_bytes (take k (outstanding s)),
                  current_in_flight := current_in_flight s - queued_bytes (take k (outstanding s)),
                  resend_queue := q, primary_congestion := c\<rparr>)"
proof -
  have "queued_bytes (outstanding s) =
      queued_bytes (take k (outstanding s)) + queued_bytes (drop k (outstanding s))"
    by (metis append_take_drop_id queued_bytes_simps(3))
  moreover have "nonempty_chunks (drop k (outstanding s))"
    using assms(1) by (metis append_take_drop_id nonempty_chunks_simps(3) tx_inv_def)
  ultimately show ?thesis
    using assms below_counter_drop [of "outstanding s" "tx_tsn_counter s" k]
    by (auto simp: tx_inv_def outstanding_def)
qed

lemma takeWhile_take_drop:
  obtains k where "takeWhile P xs = take k xs" "dropWhile P xs = drop k xs"
    "k \<le> length xs" "k = 0 \<or> P (xs ! (k - 1))"
proof
  show "takeWhile P xs = take (length (takeWhile P xs)) xs"
    by (rule takeWhile_eq_take)
  show "dropWhile P xs = drop (length (takeWhile P xs)) xs"
    by (rule dropWhile_eq_drop)
  show "length (takeWhile P xs) \<le> length xs"
    by (rule length_takeWhile_le)
  show "length (takeWhile P xs) = 0 \<or> P (xs ! (length (takeWhile P xs) - 1))"
    by (metis diff_less length_greater_0_conv less_numeral_extra(1) neq0_conv nth_mem
        set_takeWhileD takeWhile_nth)
qed

lemma dropWhile_map_data:
  "map re_data (dropWhile (P \<circ> re_data) q) = dropWhile P (map re_data q)"
  by (simp add: dropWhile_map)

text \<open>A duplicate acknowledgement drops nothing.\<close>

lemma handle_sack_duplicate:
  assumes "tx_inv s" and "cum_tsn sack = last_acked_tsn s" and "handle_sack s sack now = Ret s'"
  shows "tx_inv s' \<and> outstanding s' = outstanding s \<and> tx_feed s' = tx_feed s"
proof -
  define t where "t = (let s = s\<lparr>peer_rcv_window :=
      saturating_sub (sa_a_rwnd sack) (as_u32 (current_in_flight s)),
      duplicated_acks := duplicated_acks s + 1\<rparr>
    in if duplicated_acks s \<ge> 2 \<and> resend_queue s \<noteq> []
       then s\<lparr>primary_congestion := enter_fast_recovery (primary_congestion s)\<rparr> else s)"
  have "process_sack_gap_blocks t sack 0 (current_in_flight s) = Ret s'"
    using assms(2,3) by (auto simp: handle_sack_def Let_def t_def split: if_splits)
  then obtain q n where q: "map re_data q = outstanding t"
    and s': "s' = t\<lparr>resend_queue := q, primary_congestion :=
        bytes_acked (primary_congestion t) n 0 (current_in_flight s)\<rparr>"
    by (rule process_gap_blocks_cases)
  have t: "tx_core t = (out_queue s, outstanding s, tx_tsn_counter s, current_in_flight s,
      current_out_buffered s, out_buffer_limit s, cg_state (primary_congestion t), tx_srtt s)"
    "tx_pmtu_probe t = tx_pmtu_probe s"
    "primary_congestion t = primary_congestion s
      \<or> primary_congestion t = enter_fast_recovery (primary_congestion s)"
    by (auto simp: t_def Let_def tx_core_def outstanding_def)
  have "cg_state (primary_congestion s) = LossRecovery"
    if "cg_state (bytes_acked (primary_congestion t) n 0 (current_in_flight s)) = LossRecovery"
    using t(3)
  proof
    assume "primary_congestion t = primary_congestion s"
    with that show ?thesis by (auto dest: cong.ack_not_into_loss)
  next
    assume "primary_congestion t = enter_fast_recovery (primary_congestion s)"
    with that show ?thesis by (auto intro: cong.loss_dup_ack)
  qed
  with assms(1) t q show ?thesis
    by (auto simp: s' tx_inv_def tx_core_def tx_feed_def)
qed

lemma handle_sack_cases:
  assumes "tx_inv s" and "tsn_cmp (last_acked_tsn s) (cum_tsn sack) = Less"
    and "handle_sack s sack now = Ret s'"
  obtains q n r where
    "map re_data q = dropWhile (acked_by (cum_tsn sack)) (outstanding s)"
    "srtt_tsn_acked (tx_srtt s) (cum_tsn sack) now = Ret r"
    "tx_core s' = tx_core (s\<lparr>
       current_out_buffered := current_out_buffered s
         - queued_bytes (takeWhile (acked_by (cum_tsn sack)) (outstanding s)),
       current_in_flight := current_in_flight s
         - queued_bytes (takeWhile (acked_by (cum_tsn sack)) (outstanding s)),
       resend_queue := q,
       primary_congestion := bytes_acked (primary_congestion s) n
         (queued_bytes (takeWhile (acked_by (cum_tsn sack)) (outstanding s))) (current_in_flight s),
       tx_srtt := r\<rparr>)"
    "tx_pmtu_probe s' = tx_pmtu_probe s" "last_acked_tsn s' = cum_tsn sack"
    "duplicated_acks s' = 0"
    "peer_rcv_window s' = saturating_sub (sa_a_rwnd sack) (as_u32 (current_in_flight s'))"
proof -
  let ?acked = "queued_bytes (takeWhile (acked_by (cum_tsn sack)) (outstanding s))"
  define t where "t = s\<lparr>last_acked_tsn := cum_tsn sack, duplicated_acks := 0,
      current_out_buffered := current_out_buffered s - ?acked,
      current_in_flight := current_in_flight s - ?acked,
      resend_queue := dropWhile (acked_by (cum_tsn sack) \<circ> re_data) (resend_queue s)\<rparr>"
  have bytes: "resend_bytes (resend_queue s) \<le> current_out_buffered s"
    "resend_bytes (resend_queue s) \<le> current_in_flight s"
    using assms(1) by (simp_all add: tx_inv_def outstanding_def resend_bytes_data)
  have "pop_acked (s\<lparr>last_acked_tsn := cum_tsn sack, duplicated_acks := 0\<rparr>) (cum_tsn sack)
      (resend_queue s) 0 = Ret (t, ?acked)"
    using bytes by (subst pop_acked_eq) (simp_all add: t_def outstanding_def)
  moreover have "cum_tsn sack \<noteq> last_acked_tsn s"
    using assms(2) by auto
  ultimately have "bindR (process_sack_gap_blocks t sack ?acked (current_in_flight s)) (\<lambda>s.
      let s = s\<lparr>peer_rcv_window := saturating_sub (sa_a_rwnd sack) (as_u32 (current_in_flight s))\<rparr>
      in bindR (srtt_tsn_acked (tx_srtt s) (cum_tsn sack) now) (\<lambda>r.
           let s = s\<lparr>tx_srtt := r\<rparr>
           in Ret (if ?acked > 0
                   then if current_in_flight s > 0 then set_rto_timeout s now
                        else s\<lparr>rto_timer := None\<rparr>
                   else s))) = Ret s'"
    using assms(2,3) unfolding handle_sack_def Let_def by simp
  then obtain u r where u: "process_sack_gap_blocks t sack ?acked (current_in_flight s) = Ret u"
    and r: "srtt_tsn_acked (tx_srtt u) (cum_tsn sack) now = Ret r"
    and s': "s' = (let s = u\<lparr>peer_rcv_window :=
          saturating_sub (sa_a_rwnd sack) (as_u32 (current_in_flight u)), tx_srtt := r\<rparr>
        in if ?acked > 0
           then if current_in_flight s > 0 then set_rto_timeout s now else s\<lparr>rto_timer := None\<rparr>
           else s)"
    unfolding Let_def bindR_eq_Ret by auto
  from u obtain q n where q: "map re_data q = outstanding t"
    and u': "u = t\<lparr>resend_queue := q,
        primary_congestion := bytes_acked (primary_congestion t) n ?acked (current_in_flight s)\<rparr>"
    by (rule process_gap_blocks_cases)
  show thesis
  proof (rule that [where n = n])
    show "map re_data q = dropWhile (acked_by (cum_tsn sack)) (outstanding s)"
      using q by (simp add: t_def dropWhile_map_data outstanding_def)
    show "srtt_tsn_acked (tx_srtt s) (cum_tsn sack) now = Ret r"
      using r by (simp add: u' t_def)
  qed (simp_all add: s' u' t_def Let_def tx_core_def outstanding_def set_rto_timeout_def)
qed

lemma handle_sack_inv:
  assumes "tx_inv s" and "now \<le> 2 ^ 60" and "handle_sack s sack now = Ret s'"
  shows "tx_inv s'"
proof (cases "tsn_cmp (last_acked_tsn s) (cum_tsn sack)")
  case Less
  let ?P = "acked_by (cum_tsn sack)"
  from assms(1) Less assms(3) show ?thesis
  proof (cases rule: handle_sack_cases)
    case (1 q n r)
    obtain k where k: "takeWhile ?P (outstanding s) = take k (outstanding s)"
      "dropWhile ?P (outstanding s) = drop k (outstanding s)"
      by (rule takeWhile_take_drop)
    define c where "c = bytes_acked (primary_congestion s) n
        (queued_bytes (take k (outstanding s))) (current_in_flight s)"
    have "drop k (outstanding s) \<noteq> []" if "cg_state c = LossRecovery"
    proof -
      from that have "outstanding s \<noteq> []" and "queued_bytes (take k (outstanding s)) = 0"
        using assms(1) by (simp_all add: c_def cong.loss_ack_iff tx_inv_def)
      moreover have "nonempty_chunks (take k (outstanding s))"
        using assms(1) by (metis append_take_drop_id nonempty_chunks_simps(3) tx_inv_def)
      ultimately show ?thesis
        using nonempty_queued_bytes by fastforce
    qed
    with assms(1) 1(1) have "tx_inv (s\<lparr>
        current_out_buffered := current_out_buffered s - queued_bytes (take k (outstanding s)),
        current_in_flight := current_in_flight s - queued_bytes (take k (outstanding s)),
        resend_queue := q, primary_congestion := c\<rparr>)"
      unfolding k by (rule tx_inv_ack)
    moreover have "srtt_inv r"
      using srtt_tsn_acked_returns [of "tx_srtt s" now "cum_tsn sack"] assms(1,2) 1(2)
      by (auto simp: tx_inv_def)
    ultimately show ?thesis
      using 1(3,4) unfolding k c_def by (simp add: tx_inv_def tx_core_def)
  qed
next
  case Equal
  then have "cum_tsn sack = last_acked_tsn s" by simp
  with assms show ?thesis
    using handle_sack_duplicate by blast
next
  case Greater
  with assms show ?thesis by (simp add: handle_sack_def)
qed

lemma handle_sack_returns:
  assumes "tx_inv s" and "now \<le> 2 ^ 60" and "gap_blocks_fit (cum_tsn sack) (blocks sack)"
  shows "returns (handle_sack s sack now)"
proof -
  have bytes: "resend_bytes (resend_queue s) \<le> current_out_buffered s"
    "resend_bytes (resend_queue s) \<le> current_in_flight s"
    using assms(1) by (simp_all add: tx_inv_def outstanding_def resend_bytes_data)
  have srtt: "\<exists>r. srtt_tsn_acked (tx_srtt s) (cum_tsn sack) now = Ret r"
    using srtt_tsn_acked_returns [of "tx_srtt s" now "cum_tsn sack"] assms(1,2)
    by (auto simp: tx_inv_def)
  have gap: "\<exists>u. process_sack_gap_blocks t sack a i = Ret u" for t a i
    using process_gap_blocks_returns [OF assms(3)] by (auto simp: returns_iff)
  have gap_srtt: "process_sack_gap_blocks t sack a i = Ret u \<Longrightarrow> tx_srtt u = tx_srtt t" for t a i u
    by (erule process_gap_blocks_cases) simp
  obtain t a where t: "pop_acked (s\<lparr>last_acked_tsn := cum_tsn sack, duplicated_acks := 0\<rparr>)
      (cum_tsn sack) (resend_queue s) 0 = Ret (t, a)" "tx_srtt t = tx_srtt s"
    using pop_acked_eq [of "resend_queue s" "s\<lparr>last_acked_tsn := cum_tsn sack, duplicated_acks := 0\<rparr>"]
      bytes by simp
  obtain u where "process_sack_gap_blocks t sack a (current_in_flight s) = Ret u"
    "tx_srtt u = tx_srtt s"
    using gap [of t a "current_in_flight s"] gap_srtt t(2) by metis
  with t srtt show ?thesis
    using gap by (auto simp: handle_sack_def Let_def returns_iff)
qed

subsection \<open>Notifications, sending and polling\<close>

lemma tx_notification_inv:
  assumes "tx_inv s" and "notification_ok n" and "tx_notification s n = Ret s'"
  shows "tx_inv s'"
proof (cases n)
  case (TxSend c)
  with assms show ?thesis
    by (cases c) (auto simp: tx_notification_def Let_def split: if_splits)
next
  case (TxSAck sack now)
  with assms show ?thesis
    by (auto simp: tx_notification_def intro: handle_sack_inv)
next
  case (TxHeartBeatAck d now)
  with assms show ?thesis
    by (auto simp: tx_notification_def intro: process_heartbeat_ack_inv)
next
  case TxPeerShutdown
  with assms show ?thesis
    by (auto simp: tx_notification_def split: option.splits shutdown_state.splits)
qed (use assms in \<open>auto simp: tx_notification_def split: if_splits\<close>)

lemma try_send_data_inv:
  "tx_inv s \<Longrightarrow> data \<noteq> [] \<Longrightarrow> try_send_data s data stream ppid im un = Ret (s', r) \<Longrightarrow> tx_inv s'"
  by (auto simp: try_send_data_def Let_def tx_inv_def outstanding_def split: if_splits)

lemma poll_signal_inv:
  "tx_inv s \<Longrightarrow> poll_signal_to_send I s limit packed now = Ret (s', r) \<Longrightarrow> tx_inv s'"
  by (auto simp: poll_signal_to_send_def Let_def outcome
      split: list.splits if_splits option.splits shutdown_state.splits)

lemma poll_loss_recovery_inv:
  "tx_inv s \<Longrightarrow> poll_loss_recovery s limit now = Ret (s', r) \<Longrightarrow> tx_inv s'"
  by (auto simp: poll_loss_recovery_def Let_def split: list.splits if_splits)
     (simp_all add: tx_inv_def outstanding_def)

lemma fast_retransmit_data: "fast_retransmit limit q = (q', r) \<Longrightarrow> map re_data q' = map re_data q"
  by (induction q arbitrary: q') (auto split: if_splits prod.splits)

text \<open>What is taken from the front of the send queue fits the limit and is not lost.\<close>

lemma next_new_chunk_cases:
  assumes "next_new_chunk s limit = Some (t, d)"
  obtains (whole) front rest where "out_queue s = front # rest" "length (dc_buf front) \<le> limit"
      "t = s\<lparr>out_queue := rest\<rparr>" "d = front\<lparr>dc_tsn := tx_tsn_counter s, dc_end := True\<rparr>"
  | (fragment) front rest where "out_queue s = front # rest" "limit < length (dc_buf front)"
      "get_pmtu (tx_pmtu_probe s) < length (dc_buf front)" "0 < limit"
      "t = s\<lparr>out_queue := front\<lparr>dc_begin := False, dc_buf := drop limit (dc_buf front)\<rparr> # rest\<rparr>"
      "d = front\<lparr>dc_tsn := tx_tsn_counter s, dc_buf := take limit (dc_buf front), dc_end := False\<rparr>"
  using assms
  by (auto simp: next_new_chunk_def Let_def split: list.splits if_splits)

lemma next_new_chunk_facts:
  assumes "tx_inv s" and "next_new_chunk s limit = Some (t, d)"
  shows "t = s\<lparr>out_queue := out_queue t\<rparr>" "dc_tsn d = tx_tsn_counter s"
    "length (dc_buf d) \<le> limit" "dc_buf d \<noteq> []"
    "queued_bytes (out_queue s) = length (dc_buf d) + queued_bytes (out_queue t)"
    "nonempty_chunks (out_queue t)" "list_all dc_end (out_queue t)"
  using assms(2)
  by (cases rule: next_new_chunk_cases; use assms(1) in \<open>simp add: tx_inv_def\<close>)+

lemma poll_new_data_cases:
  assumes "tx_inv s"
  obtains (idle) "poll_new_data s limit now = Ret (s, PollNone)"
  | (fresh) t d s' where "next_new_chunk s (min limit (unat (peer_rcv_window s))) = Some (t, d)"
      "poll_new_data s limit now = Ret (s', PollSome d)"
      "current_in_flight s \<le> cwnd (primary_congestion s)"
      "length (dc_buf d) \<le> unat (peer_rcv_window s)"
      "peer_rcv_window s' = peer_rcv_window s - of_nat (length (dc_buf d))"
      "tx_core s' = (out_queue t, outstanding s @ [d], tsn_increase (tx_tsn_counter s),
         current_in_flight s + length (dc_buf d), current_out_buffered s, out_buffer_limit s,
         cg_state (primary_congestion s), tsn_sent (tx_srtt s) (dc_tsn d) now)"
      "tx_pmtu_probe s' = tx_pmtu_probe s"
proof (cases "out_queue s = [] \<or> cwnd (primary_congestion s) < current_in_flight s
    \<or> next_new_chunk s (min limit (unat (peer_rcv_window s))) = None")
  case True
  then show thesis
    by (intro idle) (auto simp: poll_new_data_def Let_def)
next
  case False
  then obtain t d where td: "next_new_chunk s (min limit (unat (peer_rcv_window s))) = Some (t, d)"
    by auto
  note facts = next_new_chunk_facts [OF assms td]
  have len: "length (dc_buf d) \<le> unat (peer_rcv_window s)"
    using facts(3) by simp
  then have "unat (as_u32 (length (dc_buf d))) = length (dc_buf d)"
    using unat_u32_bound [of "peer_rcv_window s"] by (intro unat_as_u32) simp
  then have sub: "word_sub (peer_rcv_window s) (as_u32 (length (dc_buf d))) =
      Ret (peer_rcv_window s - of_nat (length (dc_buf d)))"
    using len by (simp add: word_sub_def word_le_nat_alt as_u32_def)
  obtain q where t: "t = s\<lparr>out_queue := q\<rparr>"
    using facts(1) by blast
  define s1 where "s1 = s\<lparr>out_queue := q, tx_tsn_counter := tsn_increase (tx_tsn_counter s),
      peer_rcv_window := peer_rcv_window s - of_nat (length (dc_buf d)),
      current_in_flight := current_in_flight s + length (dc_buf d),
      resend_queue := resend_queue s @ [resend_entry_new d now],
      tx_srtt := tsn_sent (tx_srtt s) (dc_tsn d) now\<rparr>"
  define s2 where "s2 = (if rto_timer s1 = None then set_rto_timeout s1 now else s1)"
  show thesis
  proof (rule fresh [OF td])
    show "poll_new_data s limit now = Ret (s2, PollSome d)"
      using False td sub by (simp add: poll_new_data_def Let_def t s1_def s2_def)
    show "length (dc_buf d) \<le> unat (peer_rcv_window s)"
      by (rule len)
  qed (use False in \<open>auto simp: s1_def s2_def t tx_core_def outstanding_def set_rto_timeout_def
        resend_entry_new_def\<close>)
qed

lemma tx_inv_fresh:
  assumes "tx_inv s" and "next_new_chunk s limit = Some (t, d)"
    and "cg_state (primary_congestion s) \<noteq> LossRecovery"
    and "tx_core s' = (out_queue t, outstanding s @ [d], tsn_increase (tx_tsn_counter s),
         current_in_flight s + length (dc_buf d), current_out_buffered s, out_buffer_limit s,
         cg_state (primary_congestion s), tsn_sent (tx_srtt s) (dc_tsn d) now)"
    and "tx_pmtu_probe s' = tx_pmtu_probe s"
  shows "tx_inv s'"
proof -
  let ?n = "length (outstanding s)"
  have "map dc_tsn (outstanding s @ [d]) =
      tsns_from (tsn_increase (tx_tsn_counter s) - of_nat (Suc ?n)) (Suc ?n)"
    using assms(1) next_new_chunk_facts(2) [OF assms(1,2)]
    by (simp add: tsns_from_snoc tx_inv_def tsn_increase_def del: tsns_from.simps)
  then show ?thesis
    using assms next_new_chunk_facts [OF assms(1,2)]
    by (simp add: tx_inv_def tx_core_def tsn_sent_inv del: tsns_from.simps)
qed

lemma poll_data_cases:
  assumes "tx_inv s"
  obtains (idle) "poll_data_to_send s limit packed now = Ret (s, PollNone)"
  | (loss) room where "cg_state (primary_congestion s) = LossRecovery"
      "room + 16 \<le> limit" "room + 16 + packed \<le> get_pmtu (tx_pmtu_probe s)"
      "poll_data_to_send s limit packed now = poll_loss_recovery s room now"
  | (fast) room where "cg_state (primary_congestion s) = FastRecovery"
      "room + 16 \<le> limit" "room + 16 + packed \<le> get_pmtu (tx_pmtu_probe s)"
      "poll_data_to_send s limit packed now =
         Ret (s\<lparr>resend_queue := fst (fast_retransmit room (resend_queue s))\<rparr>,
              snd (fast_retransmit room (resend_queue s)))"
  | (new) room where "cg_state (primary_congestion s) \<in> {SlowStart, CongestionAvoidance}"
      "room + 16 \<le> limit" "room + 16 + packed \<le> get_pmtu (tx_pmtu_probe s)"
      "poll_data_to_send s limit packed now = poll_new_data s room now"
proof -
  let ?pmtu = "get_pmtu (tx_pmtu_probe s)"
  define room where "room = min limit (?pmtu - packed) - 16"
  show thesis
  proof (cases "?pmtu \<le> packed \<or> min limit (?pmtu - packed) \<le> 16")
    case True
    then show thesis by (intro idle) (auto simp: poll_data_to_send_def Let_def)
  next
    case False
    then have r: "room + 16 \<le> limit" "room + 16 + packed \<le> ?pmtu" by (auto simp: room_def)
    show thesis
      by (cases "cg_state (primary_congestion s)";
          use False in \<open>auto simp: poll_data_to_send_def Let_def room_def [symmetric] split_beta
            intro: loss [OF _ r] fast [OF _ r] new [OF _ r]\<close>)
  qed
qed

lemma poll_loss_recovery_returns:
  "resend_queue s \<noteq> [] \<Longrightarrow> returns (poll_loss_recovery s limit now)"
  by (auto simp: poll_loss_recovery_def Let_def split: list.split)

lemma poll_data_returns:
  assumes "tx_inv s"
  shows "returns (poll_data_to_send s limit packed now)"
  using assms
proof (cases rule: poll_data_cases [of s limit packed now])
  case (loss room)
  then show ?thesis
    using poll_loss_recovery_returns assms by (auto simp: tx_inv_def outstanding_def)
next
  case (new room)
  from assms show ?thesis
    by (cases rule: poll_new_data_cases [of s room now]) (use new in auto)
qed simp_all

lemma poll_data_inv:
  assumes "tx_inv s" and "poll_data_to_send s limit packed now = Ret (s', r)"
  shows "tx_inv s'"
  using assms(1)
proof (cases rule: poll_data_cases [of s limit packed now])
  case (loss room)
  with assms show ?thesis by (auto intro: poll_loss_recovery_inv)
next
  case (fast room)
  then have "s' = s\<lparr>resend_queue := fst (fast_retransmit room (resend_queue s))\<rparr>"
    using assms(2) by simp
  moreover have "map re_data (fst (fast_retransmit room (resend_queue s))) = outstanding s"
    using fast_retransmit_data by (metis outstanding_def prod.collapse)
  ultimately show ?thesis
    using assms(1) by (simp add: tx_inv_def)
next
  case (new room)
  from assms(1) show ?thesis
  proof (cases rule: poll_new_data_cases [of s room now])
    case (fresh t d u)
    with new assms(2) have "s' = u" by simp
    with fresh new assms(1) show ?thesis
      by (intro tx_inv_fresh [OF assms(1) fresh(1)]) auto
  qed (use new assms in simp)
qed (use assms in simp)

subsection \<open>Runs\<close>

lemma assoc_tx_new_inv: "assoc_tx_new i st now = Ret s \<Longrightarrow> tx_inv s"
  by (auto simp: assoc_tx_new_def per_destination_new_def outcome tx_inv_def outstanding_def
      srtt_new_def srtt_inv_def pmtu_new_def get_pmtu_def)

lemma tx_apply_inv:
  assumes "tx_inv s" and "tx_op_ok e" and "tx_apply I e s = Ret s'"
  shows "tx_inv s'"
proof (cases e)
  case (OpSend data stream ppid im un)
  with assms show ?thesis by (auto simp: outcome intro: try_send_data_inv)
next
  case (OpNotify n)
  with assms show ?thesis by (auto intro: tx_notification_inv)
next
  case (OpTimeout t)
  with assms show ?thesis by (auto intro: handle_timeout_inv)
next
  case (OpPollSignal l p now)
  with assms show ?thesis by (auto simp: outcome intro: poll_signal_inv)
next
  case (OpPollData l p now)
  with assms show ?thesis by (auto simp: outcome intro: poll_data_inv)
qed (use assms in \<open>auto simp: initiate_shutdown_def\<close>)

interpretation tx_sys: invariant_system "tx_apply I" tx_op_ok tx_inv for I
  by unfold_locales (rule tx_apply_inv)

lemma handle_sack_feed:
  assumes "tx_inv s" and "handle_sack s sack now = Ret s'"
  shows "tx_feed s' = tx_feed s"
proof (cases "tsn_cmp (last_acked_tsn s) (cum_tsn sack)")
  case Less
  from assms(1) Less assms(2) show ?thesis
    by (cases rule: handle_sack_cases) (simp add: tx_core_def tx_feed_def)
next
  case Equal
  then have "cum_tsn sack = last_acked_tsn s" by simp
  with assms show ?thesis
    using handle_sack_duplicate by blast
next
  case Greater
  with assms show ?thesis by (simp add: handle_sack_def)
qed

lemma timeout_parts_feed:
  "tx_feed (handle_rto_timeout s t) = tx_feed s"
  "tx_feed (handle_shutdown_rto_timeout s t) = tx_feed s"
  "handle_heartbeat_timeout s t = Ret s' \<Longrightarrow> tx_feed s' = tx_feed s"
  by (auto simp: handle_rto_timeout_def handle_shutdown_rto_timeout_def handle_heartbeat_timeout_def
      Let_def outcome tx_timer_setters push_send_next_def tx_feed_def
      split: option.split shutdown_state.split if_splits prod.splits)

lemma handle_timeout_feed: "handle_timeout s t = Ret s' \<Longrightarrow> tx_feed s' = tx_feed s"
  unfolding handle_timeout_def Let_def
  by (auto simp: timeout_parts_feed dest: timeout_parts_feed(3) split: if_splits)

lemma tx_notification_feed:
  assumes "tx_inv s" and "notification_ok n" and "tx_notification s n = Ret s'"
  shows "tx_feed s' = tx_feed s"
proof (cases n)
  case (TxSend c)
  with assms show ?thesis
    by (cases c) (auto simp: tx_notification_def Let_def push_send_next_def tx_feed_def)
next
  case (TxSAck sack now)
  with assms show ?thesis
    by (auto simp: tx_notification_def intro: handle_sack_feed)
next
  case (TxHeartBeatAck d now)
  with assms show ?thesis
    by (auto simp: tx_notification_def process_heartbeat_ack_def outcome Let_def
        tx_timer_setters tx_feed_def split: option.splits)
next
  case TxPeerShutdown
  with assms show ?thesis
    by (auto simp: tx_notification_def push_send_next_def tx_feed_def
        split: option.splits shutdown_state.splits)
qed (use assms in \<open>auto simp: tx_notification_def push_send_next_def tx_feed_def\<close>)

lemma poll_signal_feed:
  "poll_signal_to_send I s limit packed now = Ret (s', r) \<Longrightarrow> tx_feed s' = tx_feed s"
  by (auto simp: poll_signal_to_send_def Let_def outcome tx_feed_def tx_timer_setters
      split: list.splits if_splits option.splits shutdown_state.splits)

subsection \<open>Which chunks an acknowledgement covers\<close>

lemma outstanding_tsn:
  assumes "tx_inv s" and "i < length (outstanding s)"
  shows "dc_tsn (outstanding s ! i) = tx_tsn_counter s - of_nat (length (outstanding s)) + of_nat i"
  using assms nth_tsns_from [of i "length (outstanding s)"] by (metis nth_map tx_inv_def)

lemma outstanding_le_limit: "tx_inv s \<Longrightarrow> length (outstanding s) \<le> out_buffer_limit s"
  using nonempty_length_le [of "outstanding s"] by (auto simp: tx_inv_def)

lemma acked_prefix:
  assumes "tx_inv s" and "out_buffer_limit s \<le> 33554432" and "k < length (outstanding s)"
  shows "takeWhile (acked_by (dc_tsn (outstanding s ! k))) (outstanding s)
           = take (Suc k) (outstanding s)"
    and "dropWhile (acked_by (dc_tsn (outstanding s ! k))) (outstanding s)
           = drop (Suc k) (outstanding s)"
proof -
  let ?o = "outstanding s"
  have le: "acked_by (dc_tsn (?o ! k)) (?o ! i) \<longleftrightarrow> i \<le> k" if "i < length ?o" for i
    using outstanding_le_limit [OF assms(1)] assms that
    by (simp add: outstanding_tsn tsn_le_offsets)
  show *: "takeWhile (acked_by (dc_tsn (?o ! k))) ?o = take (Suc k) ?o"
    by (rule takeWhile_eq_take_P_nth) (use le assms(3) in auto)
  show "dropWhile (acked_by (dc_tsn (?o ! k))) ?o = drop (Suc k) ?o"
    using assms(3) by (simp add: dropWhile_eq_drop *)
qed

end
