(* ===== verification/Framing.thy ===== *)
theory Framing
  imports Chunks
begin

text \<open>
  The specification of fragmentation: a message is a header (stream, sequence number, protocol
  identifier, ordering) with its bytes, and a sequence of data chunks in TSN order stands for
  the messages that \<open>reassemble\<close> reads off it. A first fragment has the begin flag, the last one
  the end flag, and the fragments between carry the same header; any other sequence is
  rejected. The transmitter is shown to produce sequences of this form, the receiver to
  deliver the messages they stand for.
\<close>

type_synonym header = "u16 \<times> sequence \<times> u32 \<times> bool"
type_synonym message = "header \<times> bytes"

definition chunk_header :: "data_chunk \<Rightarrow> header" where
  "chunk_header d = (dc_stream_id d, dc_stream_seq_num d, dc_ppid d, dc_unordered d)"

text \<open>The first argument is the part of a message read so far.\<close>

fun reassemble :: "message option \<Rightarrow> data_chunk list \<Rightarrow> (message option \<times> message list) option" where
  "reassemble partial [] = Some (partial, [])"
| "reassemble partial (d # ds) =
     (let h = chunk_header d
      in if (case partial of None \<Rightarrow> dc_begin d | Some (h', _) \<Rightarrow> \<not> dc_begin d \<and> h' = h) then
           let m = (h, (case partial of None \<Rightarrow> [] | Some (_, b) \<Rightarrow> b) @ dc_buf d)
           in if dc_end d
              then map_option (\<lambda>(p, ms). (p, m # ms)) (reassemble None ds)
              else reassemble (Some m) ds
         else None)"

lemma reassemble_append:
  "reassemble p (ds @ es) =
     (case reassemble p ds of
        None \<Rightarrow> None
      | Some (q, ms) \<Rightarrow> map_option (\<lambda>(r, ns). (r, ms @ ns)) (reassemble q es))"
proof (induction p ds rule: reassemble.induct)
  case (1 p)
  then show ?case
    by (cases "reassemble p es") auto
next
  case (2 p d ds)
  then show ?case
    by (auto simp: Let_def option.map_comp comp_def case_prod_unfold split: option.splits)
qed

text \<open>Chunks that differ in their TSN and immediate flag only stand for the same message.\<close>

lemma reassemble_tsn [simp]: "reassemble p (d\<lparr>dc_tsn := t\<rparr> # ds) = reassemble p (d # ds)"
  by (cases p) (auto simp: chunk_header_def Let_def)

text \<open>Cutting the last fragment of a message in two does not change what is read.\<close>

lemma reassemble_split:
  assumes "dc_end d"
  shows "reassemble p
      (d\<lparr>dc_tsn := t, dc_buf := take n (dc_buf d), dc_end := False\<rparr>
       # d\<lparr>dc_begin := False, dc_buf := drop n (dc_buf d)\<rparr> # ds) = reassemble p (d # ds)"
  using assms by (auto simp: chunk_header_def Let_def split: option.splits)

lemma reassemble_snoc:
  "reassemble None ds = Some (None, ms) \<Longrightarrow> dc_begin d \<Longrightarrow> dc_end d \<Longrightarrow>
     reassemble None (ds @ [d]) = Some (None, ms @ [(chunk_header d, dc_buf d)])"
  by (simp add: reassemble_append)

text \<open>The bytes of the messages are the bytes of the chunks, in order.\<close>

lemma reassemble_bytes:
  "reassemble p ds = Some (q, ms) \<Longrightarrow>
     (case p of None \<Rightarrow> [] | Some (_, b) \<Rightarrow> b) @ concat (map dc_buf ds)
       = concat (map snd ms) @ (case q of None \<Rightarrow> [] | Some (_, b) \<Rightarrow> b)"
proof (induction p ds arbitrary: ms rule: reassemble.induct)
  case (2 p d ds)
  then show ?case
    by (fastforce simp: Let_def split: if_splits option.splits)
qed simp

end
