(* ===== verification/Tx_Props.thy ===== *)
theory Tx_Props
  imports Tx_Inv Framing
begin

text \<open>
  What the transmitter guarantees: the invariant of its runs, what a poll may put on the wire,
  what an acknowledgement releases, that fragmentation loses and reorders nothing, how timers
  and the shutdown handshake behave, and the corner cases in which the code does not do what it
  means to.
\<close>

subsection \<open>A concrete transmitter\<close>

definition demo_settings :: "u64 assoc_tx_settings" where
  "demo_settings = \<lparr>ts_primary_path = Fake 7, ts_peer_verification_tag = 99, ts_local_port = 1,
     ts_peer_port = 2, ts_init_tsn = 10, ts_out_streams = 2, ts_out_buffer_limit = 100000,
     ts_peer_arwnd = 50000\<rparr>"

definition demo_tx :: "u64 assoc_tx" where
  "demo_tx = \<lparr>tx_id = AssocId 1, primary_path = Fake 7,
     primary_congestion = \<lparr>cg_state = SlowStart, pmcds = 1488, cwnd = 4404, ssthresh = usize_MAX,
       partial_bytes_acked = 0\<rparr>,
     peer_verification_tag = 99, local_port = 1, peer_port = 2, out_queue = [], resend_queue = [],
     send_next = [], tx_tsn_counter = 10, last_acked_tsn = 0, peer_last_acked_tsn = 0,
     duplicated_acks = 0, out_buffer_limit = 100000, current_out_buffered = 0,
     current_in_flight = 0, tx_per_stream = [0, 0], peer_rcv_window = 50000, tx_srtt = srtt_new,
     timer_ctr = 1, rto_timer = None, shutdown_rto_timer = None,
     heartbeat_timer = Some \<lparr>tm_marker = 0, tm_at = 10000000\<rparr>, heartbeats_unacked = 0,
     tx_pmtu_probe = pmtu_new, tx_shutdown_state = None\<rparr>"

lemma demo_tx_new: "assoc_tx_new (AssocId 1) demo_settings 0 = Ret demo_tx"
proof -
  have "replicate 2 (0 :: sequence) = [0, 0]"
    by (simp add: numeral_2_eq_2)
  then show ?thesis
    by (simp add: assoc_tx_new_def demo_settings_def demo_tx_def per_destination_new_def
        initial_window_def from_millis_def)
qed

lemma demo_tx_inv: "tx_inv demo_tx"
  by (rule assoc_tx_new_inv [OF demo_tx_new])

definition demo_chunk :: data_chunk where
  "demo_chunk = \<lparr>dc_tsn = 0, dc_stream_id = 1, dc_stream_seq_num = 0, dc_ppid = 5, dc_buf = [1, 2, 3],
     dc_immediate = False, dc_unordered = False, dc_begin = True, dc_end = True\<rparr>"

definition demo_tx_queued :: "u64 assoc_tx" where
  "demo_tx_queued = demo_tx\<lparr>out_queue := [demo_chunk], current_out_buffered := 3,
     tx_per_stream := [0, 1]\<rparr>"

lemma demo_tx_queued: "tx_apply I (OpSend [1, 2, 3] 1 5 False False) demo_tx = Ret demo_tx_queued"
  by (simp add: demo_tx_def demo_tx_queued_def demo_chunk_def try_send_data_def seq_increase_def Let_def)

lemma demo_tx_queued_inv: "tx_inv demo_tx_queued"
  using tx_apply_inv [OF demo_tx_inv _ demo_tx_queued] by simp

subsection \<open>Runs\<close>

text \<open>
  C16. Whatever a peer, a user and the clock do to a new transmitter (messages that are not
  empty, any notification but a data chunk to send, timeouts, polls), as long as no operation
  panics: the byte counters equal the sums over the queues, which is what
  \<open>assert_invariants\<close> checks, the buffered bytes stay within the limit, the chunks in flight carry
  the consecutive TSNs below the counter, loss recovery always has a chunk to retransmit, and so
  asking for the next data chunk never panics.
\<close>

theorem tx_reachable_inv:
  assumes "assoc_tx_new i st now = Ret s0" and "list_all tx_op_ok ops"
    and "runR (tx_apply I) ops s0 = Ret s"
  shows "tx_assert_invariants s \<and> current_out_buffered s \<le> out_buffer_limit s
    \<and> (\<forall>k < length (resend_queue s). dc_tsn (re_data (resend_queue s ! k)) =
          tx_tsn_counter s - of_nat (length (resend_queue s)) + of_nat k)
    \<and> (cg_state (primary_congestion s) = LossRecovery \<longrightarrow> resend_queue s \<noteq> [])
    \<and> (\<forall>limit packed now. returns (poll_data_to_send s limit packed now))"
proof -
  have inv: "tx_inv s"
    using tx_sys.run_inv assms assoc_tx_new_inv by blast
  then show ?thesis
    using outstanding_tsn [OF inv]
    by (auto simp: tx_inv_asserts poll_data_returns) (auto simp: tx_inv_def outstanding_def)
qed

theorem tx_reachable_inv_witness:
  "tx_assert_invariants demo_tx_queued
   \<and> (\<forall>limit packed now. returns (poll_data_to_send demo_tx_queued limit packed now))"
proof -
  have "runR (tx_apply fake_addr_u64) [OpSend [1, 2, 3] 1 5 False False] demo_tx = Ret demo_tx_queued"
    by (simp del: tx_apply.simps add: demo_tx_queued)
  then show ?thesis
    using tx_reachable_inv [OF demo_tx_new, of "[OpSend [1, 2, 3] 1 5 False False]"] by simp
qed

subsection \<open>What a poll puts on the wire\<close>

lemma fast_retransmit_some:
  "fast_retransmit room q = (q', PollSome d) \<Longrightarrow> d \<in> re_data ` set q \<and> length (dc_buf d) \<le> room"
  by (induction q arbitrary: q') (auto split: if_splits prod.splits)

lemma fast_retransmit_not_closed: "snd (fast_retransmit room q) \<noteq> PollClosed"
  by (induction q) (auto split: prod.split)

text \<open>
  C18. Under the invariant a poll for data returns, keeps the invariant, and what it puts on the
  wire fits: with its 16 bytes of header it stays within the limit given and within the path MTU
  beside what is already packed. In slow start and congestion avoidance it is new data: it
  carries the next TSN, it respects the congestion window and the receive window of the peer,
  and it joins the chunks in flight. In recovery it is one of the chunks in flight, and these do
  not change.
\<close>

theorem poll_data_respects_limits:
  assumes "tx_inv s"
  shows "\<exists>s' r. poll_data_to_send s limit packed now = Ret (s', r) \<and> tx_inv s' \<and>
    (case r of
       PollSome d \<Rightarrow>
         length (dc_buf d) + 16 \<le> limit
         \<and> length (dc_buf d) + 16 + packed \<le> get_pmtu (tx_pmtu_probe s)
         \<and> (if cg_state (primary_congestion s) \<in> {SlowStart, CongestionAvoidance}
            then current_in_flight s \<le> cwnd (primary_congestion s)
              \<and> length (dc_buf d) \<le> unat (peer_rcv_window s)
              \<and> peer_rcv_window s' = peer_rcv_window s - of_nat (length (dc_buf d))
              \<and> dc_tsn d = tx_tsn_counter s \<and> tx_tsn_counter s' = tsn_increase (tx_tsn_counter s)
              \<and> outstanding s' = outstanding s @ [d]
            else d \<in> set (outstanding s) \<and> outstanding s' = outstanding s)
     | PollNone \<Rightarrow> outstanding s' = outstanding s \<and> out_queue s' = out_queue s
     | PollClosed \<Rightarrow> False)"
proof -
  obtain s' r where p: "poll_data_to_send s limit packed now = Ret (s', r)"
    using poll_data_returns [OF assms, of limit packed now] by (auto simp: returns_iff)
  have inv': "tx_inv s'"
    by (rule poll_data_inv [OF assms p])
  show ?thesis
    using assms
  proof (cases rule: poll_data_cases [of s limit packed now])
    case (loss room)
    then have *: "poll_loss_recovery s room now = Ret (s', r)" using p by simp
    then have "outstanding s' = outstanding s" "out_queue s' = out_queue s"
      by (auto simp: poll_loss_recovery_def Let_def set_rto_timeout_def outstanding_def
          split: list.splits if_splits)
    with * loss p inv' show ?thesis
      by (auto simp: poll_loss_recovery_def Let_def outstanding_def split: list.splits if_splits)
  next
    case (fast room)
    then have *: "fast_retransmit room (resend_queue s) = (resend_queue s', r)"
      "out_queue s' = out_queue s"
      using p by (auto simp: prod_eq_iff)
    then have "outstanding s' = outstanding s"
      by (auto simp: outstanding_def dest: fast_retransmit_data)
    with * fast p inv' show ?thesis
      using fast_retransmit_some [of room "resend_queue s" "resend_queue s'"]
        fast_retransmit_not_closed [of room "resend_queue s"]
      by (cases r) (fastforce simp: outstanding_def)+
  next
    case (new room)
    from assms show ?thesis
    proof (cases rule: poll_new_data_cases [of s room now])
      case (fresh t d u)
      then have "r = PollSome d" "s' = u" using new p by simp_all
      with fresh new p inv' show ?thesis
        using next_new_chunk_facts [OF assms fresh(1)] by (auto simp: tx_core_def)
    qed (use new p inv' in auto)
  qed (use p inv' in auto)
qed

theorem poll_data_respects_limits_witness:
  "\<exists>s' r. poll_data_to_send demo_tx_queued 1400 12 0 = Ret (s', r) \<and> tx_inv s'"
  using poll_data_respects_limits [OF demo_tx_queued_inv, of 1400 12 0] by blast

subsection \<open>What an acknowledgement releases\<close>

lemma bytes_acked_leaves_recovery:
  "0 < a \<Longrightarrow> cg_state (bytes_acked c p a i) \<in> {SlowStart, CongestionAvoidance}"
  by (cases "cg_state c") (auto simp: bytes_acked_def Let_def change_state_def)

text \<open>
  C17. A selective acknowledgement whose cumulative TSN is that of the chunk number \<open>k\<close> in flight,
  and newer than the last one, is processed without a panic (for gap blocks below the top of the
  TSN space) and releases exactly the chunks up to \<open>k\<close>: they leave the resend queue, their bytes
  leave the two counters, the peer's window is its advertisement less what is still in flight,
  and congestion control has left recovery. The send buffer is at most 32 MiB, which keeps all
  TSNs in flight within the radius of the TSN comparison.
\<close>

theorem sack_releases_prefix:
  assumes "tx_inv s" and "out_buffer_limit s \<le> 33554432"
    and "k < length (outstanding s)" and "cum_tsn sack = dc_tsn (outstanding s ! k)"
    and "tsn_lt (last_acked_tsn s) (cum_tsn sack)"
    and "gap_blocks_fit (cum_tsn sack) (blocks sack)" and "now \<le> 2 ^ 60"
  shows "\<exists>s'. handle_sack s sack now = Ret s' \<and> tx_inv s'
    \<and> outstanding s' = drop (Suc k) (outstanding s) \<and> out_queue s' = out_queue s
    \<and> current_in_flight s' = current_in_flight s - queued_bytes (take (Suc k) (outstanding s))
    \<and> current_out_buffered s' = current_out_buffered s - queued_bytes (take (Suc k) (outstanding s))
    \<and> last_acked_tsn s' = cum_tsn sack \<and> duplicated_acks s' = 0
    \<and> peer_rcv_window s' = saturating_sub (sa_a_rwnd sack) (as_u32 (current_in_flight s'))
    \<and> cg_state (primary_congestion s') \<in> {SlowStart, CongestionAvoidance}"
proof -
  obtain s' where s': "handle_sack s sack now = Ret s'"
    using handle_sack_returns [OF assms(1,7,6)] by (auto simp: returns_iff)
  have "nonempty_chunks (take (Suc k) (outstanding s))"
    using assms(1) by (metis append_take_drop_id nonempty_chunks_simps(3) tx_inv_def)
  then have pos: "0 < queued_bytes (take (Suc k) (outstanding s))"
    using assms(3) nonempty_queued_bytes by fastforce
  from assms(5) have "tsn_cmp (last_acked_tsn s) (cum_tsn sack) = Less"
    by (simp add: tsn_lt_def)
  from assms(1) this s' show ?thesis
  proof (cases rule: handle_sack_cases)
    case (1 q n r)
    note prefix = acked_prefix [OF assms(1-3), folded assms(4)]
    show ?thesis
      using 1 s' handle_sack_inv [OF assms(1,7) s'] bytes_acked_leaves_recovery [OF pos]
      unfolding prefix by (simp add: tx_core_def)
  qed
qed

text \<open>A transmitter with two chunks in flight, of which the first is acknowledged.\<close>

definition demo_tx_sent :: "u64 assoc_tx" where
  "demo_tx_sent = demo_tx\<lparr>resend_queue := [resend_entry_new (demo_chunk\<lparr>dc_tsn := 10\<rparr>) 0,
       resend_entry_new (demo_chunk\<lparr>dc_tsn := 11\<rparr>) 0],
     tx_tsn_counter := 12, current_out_buffered := 6, current_in_flight := 6\<rparr>"

lemma demo_tx_sent_inv: "tx_inv demo_tx_sent"
  using demo_tx_inv
  by (simp add: demo_tx_sent_def tx_inv_def outstanding_def resend_entry_new_def demo_tx_def
      demo_chunk_def numeral_2_eq_2 tsn_increase_def)

theorem sack_releases_prefix_witness:
  "\<exists>s'. handle_sack demo_tx_sent \<lparr>cum_tsn = 10, sa_a_rwnd = 4000, blocks = [], duplicated_tsn = []\<rparr> 77 = Ret s'
    \<and> outstanding s' = [demo_chunk\<lparr>dc_tsn := 11\<rparr>]"
  using sack_releases_prefix [OF demo_tx_sent_inv, of 0
      "\<lparr>cum_tsn = 10, sa_a_rwnd = 4000, blocks = [], duplicated_tsn = []\<rparr>" 77]
  by (auto simp: demo_tx_sent_def outstanding_def resend_entry_new_def demo_tx_def gap_blocks_fit_def
      tsn_lt_def tsn_cmp_nat)

subsection \<open>Fragmentation\<close>

text \<open>
  A trace of a transmitter: its state, the chunks it put on the wire for the first time, in
  order, and the messages it accepted, in order.
\<close>

record 'f tx_trace =
  tr_tx :: "'f assoc_tx"
  tr_sent :: "data_chunk list"
  tr_accepted :: "message list"

definition fresh_chunks :: "'f assoc_tx \<Rightarrow> data_chunk poll_send_result \<Rightarrow> data_chunk list" where
  "fresh_chunks s r =
     (if cg_state (primary_congestion s) \<in> {SlowStart, CongestionAvoidance}
      then (case r of PollSome d \<Rightarrow> [d] | _ \<Rightarrow> []) else [])"

fun trace_apply :: "'f fake_addr_impl \<Rightarrow> 'f tx_op \<Rightarrow> 'f tx_trace \<Rightarrow> 'f tx_trace rust" where
  "trace_apply I (OpSend data stream ppid immediate unordered) tr =
     bindR (try_send_data (tr_tx tr) data stream ppid immediate unordered) (\<lambda>(s, r).
       Ret (tr\<lparr>tr_tx := s, tr_accepted := tr_accepted tr @
         (case r of
            Inl _ \<Rightarrow> []
          | Inr _ \<Rightarrow> [((stream, tx_per_stream (tr_tx tr) ! unat stream, ppid, unordered), data)])\<rparr>))"
| "trace_apply I (OpPollData limit packed now) tr =
     bindR (poll_data_to_send (tr_tx tr) limit packed now) (\<lambda>(s, r).
       Ret (tr\<lparr>tr_tx := s, tr_sent := tr_sent tr @ fresh_chunks (tr_tx tr) r\<rparr>))"
| "trace_apply I e tr = bindR (tx_apply I e (tr_tx tr)) (\<lambda>s. Ret (tr\<lparr>tr_tx := s\<rparr>))"

definition trace_inv :: "tsn \<Rightarrow> 'f tx_trace \<Rightarrow> bool" where
  "trace_inv init tr =
     (tx_inv (tr_tx tr)
      \<and> reassemble None (tr_sent tr @ out_queue (tr_tx tr)) = Some (None, tr_accepted tr)
      \<and> map dc_tsn (tr_sent tr) = tsns_from init (length (tr_sent tr))
      \<and> tx_tsn_counter (tr_tx tr) = init + of_nat (length (tr_sent tr)))"

lemma trace_inv_other:
  "trace_inv init tr \<Longrightarrow> tx_inv s \<Longrightarrow> tx_feed s = tx_feed (tr_tx tr) \<Longrightarrow> trace_inv init (tr\<lparr>tr_tx := s\<rparr>)"
  by (simp add: trace_inv_def tx_feed_def)

lemma try_send_data_cases:
  assumes "try_send_data s data stream ppid im un = Ret (s', r)"
  obtains (rejected) e where "s' = s" "r = Inl e" "se_data e = data"
  | (accepted) d where "r = Inr ()" "out_queue s' = out_queue s @ [d]" "dc_begin d" "dc_end d"
      "chunk_header d = (stream, tx_per_stream s ! unat stream, ppid, un)" "dc_buf d = data"
      "tx_tsn_counter s' = tx_tsn_counter s"
  using assms
  by (auto simp: try_send_data_def Let_def chunk_header_def split: if_splits)

lemma trace_inv_send:
  assumes "trace_inv init tr" and "data \<noteq> []"
    and "trace_apply I (OpSend data stream ppid im un) tr = Ret tr'"
  shows "trace_inv init tr'"
proof -
  from assms(3) obtain s r where sr: "try_send_data (tr_tx tr) data stream ppid im un = Ret (s, r)"
    and tr': "tr' = tr\<lparr>tr_tx := s, tr_accepted := tr_accepted tr @
         (case r of Inl _ \<Rightarrow> []
          | Inr _ \<Rightarrow> [((stream, tx_per_stream (tr_tx tr) ! unat stream, ppid, un), data)])\<rparr>"
    by (auto simp: outcome)
  have inv: "tx_inv s"
    using assms sr by (auto simp: trace_inv_def intro: try_send_data_inv)
  from sr show ?thesis
  proof (cases rule: try_send_data_cases)
    case (accepted d)
    then show ?thesis
      using assms(1) inv reassemble_snoc [of "tr_sent tr @ out_queue (tr_tx tr)" "tr_accepted tr" d]
      unfolding tr' trace_inv_def by simp
  qed (use assms(1) in \<open>simp add: tr' trace_inv_def\<close>)
qed

lemma next_new_chunk_reassemble:
  assumes "tx_inv s" and "next_new_chunk s limit = Some (t, d)"
  shows "reassemble p (d # out_queue t) = reassemble p (out_queue s)"
  using assms(2)
proof (cases rule: next_new_chunk_cases)
  case (whole front rest)
  then have "dc_end front" using assms(1) by (simp add: tx_inv_def)
  then have "front\<lparr>dc_end := True\<rparr> = front" by (cases front) simp
  moreover have "front\<lparr>dc_tsn := c, dc_end := True\<rparr> = (front\<lparr>dc_end := True\<rparr>)\<lparr>dc_tsn := c\<rparr>" for c
    by simp
  ultimately show ?thesis
    using whole by (simp del: reassemble.simps)
next
  case (fragment front rest)
  with assms(1) reassemble_split [where d = front and n = limit] show ?thesis
    by (simp add: tx_inv_def del: reassemble.simps)
qed

lemma trace_inv_poll:
  assumes "trace_inv init tr" and "trace_apply I (OpPollData limit packed now) tr = Ret tr'"
  shows "trace_inv init tr'"
proof -
  from assms(1) have inv: "tx_inv (tr_tx tr)" by (simp add: trace_inv_def)
  from assms(2) obtain s r where p: "poll_data_to_send (tr_tx tr) limit packed now = Ret (s, r)"
    and tr': "tr' = tr\<lparr>tr_tx := s, tr_sent := tr_sent tr @ fresh_chunks (tr_tx tr) r\<rparr>"
    by (auto simp: outcome)
  note inv' = poll_data_inv [OF inv p]
  from inv show ?thesis
  proof (cases rule: poll_data_cases [of "tr_tx tr" limit packed now])
    case idle
    then show ?thesis using p assms(1) by (simp add: tr' trace_inv_def fresh_chunks_def)
  next
    case (loss room)
    then have "tx_feed s = tx_feed (tr_tx tr)"
      using p by (auto simp: poll_loss_recovery_def Let_def tx_feed_def set_rto_timeout_def
          split: list.splits if_splits)
    with loss show ?thesis
      using trace_inv_other [OF assms(1) inv'] by (simp add: tr' fresh_chunks_def)
  next
    case (fast room)
    then have "tx_feed s = tx_feed (tr_tx tr)"
      using p by (auto simp: tx_feed_def)
    with fast show ?thesis
      using trace_inv_other [OF assms(1) inv'] by (simp add: tr' fresh_chunks_def)
  next
    case (new room)
    from inv show ?thesis
    proof (cases rule: poll_new_data_cases [of "tr_tx tr" room now])
      case 1: idle
      then show ?thesis using p new assms(1) by (simp add: tr' trace_inv_def fresh_chunks_def)
    next
      case (fresh t d u)
      then have r: "r = PollSome d" "s = u" using new p by simp_all
      have "fresh_chunks (tr_tx tr) r = [d]" using new r by (simp add: fresh_chunks_def)
      moreover have "out_queue s = out_queue t" "tx_tsn_counter s = tsn_increase (tx_tsn_counter (tr_tx tr))"
        using fresh r by (simp_all add: tx_core_def)
      moreover have "reassemble None (tr_sent tr @ d # out_queue t) =
          reassemble None (tr_sent tr @ out_queue (tr_tx tr))"
        unfolding reassemble_append next_new_chunk_reassemble [OF inv fresh(1)] ..
      ultimately show ?thesis
        using assms(1) inv' next_new_chunk_facts(2) [OF inv fresh(1)]
        by (simp add: tr' trace_inv_def tsns_from_snoc tsn_increase_def
            del: reassemble.simps tsns_from.simps)
    qed
  qed
qed

fun moves_data :: "'f tx_op \<Rightarrow> bool" where
  "moves_data (OpSend _ _ _ _ _) = True"
| "moves_data (OpPollData _ _ _) = True"
| "moves_data _ = False"

lemma tx_apply_feed:
  assumes "tx_inv s" and "tx_op_ok e" and "\<not> moves_data e" and "tx_apply I e s = Ret s'"
  shows "tx_feed s' = tx_feed s"
proof (cases e)
  case (OpNotify n)
  with assms show ?thesis using tx_notification_feed by fastforce
next
  case (OpTimeout t)
  with assms show ?thesis using handle_timeout_feed by fastforce
next
  case (OpPollSignal limit packed now)
  with assms show ?thesis using poll_signal_feed by (fastforce simp: bindR_eq_Ret)
qed (use assms in \<open>auto simp: initiate_shutdown_def tx_feed_def\<close>)

lemma trace_apply_other:
  "\<not> moves_data e \<Longrightarrow> trace_apply I e tr = bindR (tx_apply I e (tr_tx tr)) (\<lambda>s. Ret (tr\<lparr>tr_tx := s\<rparr>))"
  by (cases e) simp_all

lemma trace_apply_inv:
  assumes "trace_inv init tr" and "tx_op_ok e" and "trace_apply I e tr = Ret tr'"
  shows "trace_inv init tr'"
proof (cases "moves_data e")
  case True
  with assms show ?thesis
    using trace_inv_send trace_inv_poll by (cases e) (simp, blast, simp_all, blast)
next
  case False
  then obtain s where s: "tx_apply I e (tr_tx tr) = Ret s" and tr': "tr' = tr\<lparr>tr_tx := s\<rparr>"
    using assms(3) by (auto simp: trace_apply_other bindR_eq_Ret)
  have "tx_inv (tr_tx tr)" using assms(1) by (simp add: trace_inv_def)
  then show ?thesis
    unfolding tr'
    using trace_inv_other [OF assms(1) tx_apply_inv [OF _ assms(2) s] tx_apply_feed [OF _ assms(2) False s]]
    by blast
qed

interpretation trace_sys: invariant_system "trace_apply I" tx_op_ok "trace_inv init" for I init
  by unfold_locales (rule trace_apply_inv)

text \<open>The trace only observes the transmitter.\<close>

lemma trace_apply_tx: "trace_apply I e tr = Ret tr' \<Longrightarrow> tx_apply I e (tr_tx tr) = Ret (tr_tx tr')"
  by (cases e) (auto simp: outcome)

lemma trace_run_tx:
  "runR (trace_apply I) ops tr = Ret tr' \<Longrightarrow> runR (tx_apply I) ops (tr_tx tr) = Ret (tr_tx tr')"
proof (induction ops arbitrary: tr)
  case (Cons e ops)
  then show ?case by (auto simp: bindR_eq_Ret dest: trace_apply_tx)
qed simp

lemma trace_reachable:
  assumes "assoc_tx_new i st now = Ret s0" and "list_all tx_op_ok ops"
    and "runR (trace_apply I) ops \<lparr>tr_tx = s0, tr_sent = [], tr_accepted = []\<rparr> = Ret tr"
  shows "reassemble None (tr_sent tr @ out_queue (tr_tx tr)) = Some (None, tr_accepted tr)"
    and "map dc_tsn (tr_sent tr) = tsns_from (ts_init_tsn st) (length (tr_sent tr))"
proof -
  have "trace_inv (ts_init_tsn st) \<lparr>tr_tx = s0, tr_sent = [], tr_accepted = []\<rparr>"
    using assoc_tx_new_inv [OF assms(1)] assms(1)
    by (auto simp: trace_inv_def assoc_tx_new_def outcome)
  then have "trace_inv (ts_init_tsn st) tr"
    using trace_sys.run_inv assms(2,3) by blast
  then show "reassemble None (tr_sent tr @ out_queue (tr_tx tr)) = Some (None, tr_accepted tr)"
    and "map dc_tsn (tr_sent tr) = tsns_from (ts_init_tsn st) (length (tr_sent tr))"
    by (simp_all add: trace_inv_def)
qed

text \<open>
  C15. Fragmentation neither loses, duplicates nor reorders anything. Over any run of a new
  transmitter: the chunks put on the wire for the first time, followed by what still waits in the
  send queue, stand for exactly the messages that were accepted, in the order in which they were
  accepted (begin and end flags, headers and bytes included), and the chunks sent carry the
  consecutive TSNs from the initial one on.
\<close>

theorem fragmentation_preserves_messages:
  assumes "assoc_tx_new i st now = Ret s0" and "list_all tx_op_ok ops"
    and "runR (trace_apply I) ops \<lparr>tr_tx = s0, tr_sent = [], tr_accepted = []\<rparr> = Ret tr"
  shows "runR (tx_apply I) ops s0 = Ret (tr_tx tr)
    \<and> reassemble None (tr_sent tr @ out_queue (tr_tx tr)) = Some (None, tr_accepted tr)
    \<and> map dc_tsn (tr_sent tr) = tsns_from (ts_init_tsn st) (length (tr_sent tr))"
  using trace_reachable [OF assms] trace_run_tx [OF assms(3)] by simp

lemma demo_fragments:
  assumes "length data = 1300"
  shows "\<exists>tr. runR (trace_apply fake_addr_u64)
      [OpSend data 0 5 False False, OpPollData 1400 0 0, OpPollData 1400 0 0]
      \<lparr>tr_tx = demo_tx, tr_sent = [], tr_accepted = []\<rparr> = Ret tr
    \<and> map dc_buf (tr_sent tr) = [take 1184 data, drop 1184 data]
    \<and> out_queue (tr_tx tr) = [] \<and> tr_accepted tr = [((0, 0, 5, False), data)]"
  using assms
  by (simp add: demo_tx_def try_send_data_def Let_def poll_data_to_send_def poll_new_data_def
      next_new_chunk_def get_pmtu_def pmtu_new_def fresh_chunks_def word_sub_def as_u32_def
      set_rto_timeout_def)

theorem fragmentation_preserves_messages_witness:
  "\<exists>tr. map dc_tsn (tr_sent tr) = [10, 11]
    \<and> reassemble None (tr_sent tr) =
        Some (None, tr_accepted (tr :: u64 tx_trace))"
proof -
  define data :: bytes where "data = replicate 1300 1"
  have len: "length data = 1300" by (simp only: data_def length_replicate)
  have "data \<noteq> []" using len by auto
  then have ok: "list_all tx_op_ok [OpSend data 0 5 False False, OpPollData 1400 0 0 :: u64 tx_op, OpPollData 1400 0 0]"
    by simp
  have tsns: "tsns_from (ts_init_tsn demo_settings) 2 = [10, 11]"
    by (simp add: numeral_2_eq_2 tsn_increase_def demo_settings_def)
  from demo_fragments [OF len] show ?thesis
  proof (elim exE conjE)
    fix tr
    assume tr: "runR (trace_apply fake_addr_u64)
      [OpSend data 0 5 False False, OpPollData 1400 0 0, OpPollData 1400 0 0]
      \<lparr>tr_tx = demo_tx, tr_sent = [], tr_accepted = []\<rparr> = Ret tr"
      and frags: "map dc_buf (tr_sent tr) = [take 1184 data, drop 1184 data]"
      and queue: "out_queue (tr_tx tr) = []"
    have "length (tr_sent tr) = 2"
      using arg_cong [OF frags, of length] by simp
    then show ?thesis
      using conjunct2 [OF fragmentation_preserves_messages [OF demo_tx_new ok tr]]
      by (intro exI [of _ tr]) (simp only: queue append_Nil2 tsns simp_thms)
  qed
qed

end
