(* ===== verification/Tx_Control.thy ===== *)
theory Tx_Control
  imports Tx_Props
begin

text \<open>
  The control side of the transmitter: its timers, the shutdown handshake as a state machine,
  and the corner cases in which the code does not do what it means to.
\<close>

subsection \<open>Timers\<close>

abbreviation timers :: "'f assoc_tx \<Rightarrow> timer set" where
  "timers s \<equiv> {t. Some t \<in> {rto_timer s, shutdown_rto_timer s, heartbeat_timer s}}"

lemma find_next_timer_from_min:
  "find_next_timer_from m ts = Some t \<Longrightarrow>
     Some t \<in> insert m (set ts) \<and> (\<forall>u. Some u \<in> insert m (set ts) \<longrightarrow> tm_at t \<le> tm_at u)"
proof (induction ts arbitrary: m)
  case (Cons x ts)
  then show ?case
    by (cases m; cases x)
       (fastforce simp: timer_min_def timer_cmp_def split: if_splits)+
qed auto

lemma find_next_timer_from_None:
  "find_next_timer_from m ts = None \<longleftrightarrow> m = None \<and> set ts \<subseteq> {None}"
  by (induction ts arbitrary: m) (auto split: option.splits)

text \<open>Every running timer carries a marker that was handed out before.\<close>

definition timers_fresh :: "'f assoc_tx \<Rightarrow> bool" where
  "timers_fresh s = (\<forall>t \<in> timers s. unat (tm_marker t) < unat (timer_ctr s))"

lemma unat_timer_ctr_add:
  "unat (c :: u64) < 2 ^ 64 - 4 \<Longrightarrow> n \<le> 3 \<Longrightarrow> unat (c + of_nat n) = unat c + n"
  by (simp add: unat_word_ariths unat_of_nat)

lemma timer_matches_fresh:
  "timer_matches x t \<Longrightarrow> x \<in> {rto_timer s, shutdown_rto_timer s, heartbeat_timer s} \<Longrightarrow> timers_fresh s
   \<Longrightarrow> unat (tm_marker t) < unat (timer_ctr s)"
  by (auto simp: timer_matches_def timers_fresh_def split: option.splits)

text \<open>How one timeout leaves the timers: each timer that matched is off or has a marker that was
  not handed out before, and the others are as they were.\<close>

lemma rto_timeout_timers:
  "shutdown_rto_timer (handle_rto_timeout s t) = shutdown_rto_timer s"
  "heartbeat_timer (handle_rto_timeout s t) = heartbeat_timer s"
  "tx_shutdown_state (handle_rto_timeout s t) = tx_shutdown_state s"
  "(timer_ctr (handle_rto_timeout s t) = timer_ctr s \<and> rto_timer (handle_rto_timeout s t) = None) \<or>
   (timer_ctr (handle_rto_timeout s t) = timer_ctr s + 1 \<and>
    (\<exists>a. rto_timer (handle_rto_timeout s t) = Some \<lparr>tm_marker = timer_ctr s, tm_at = a\<rparr>))"
  by (simp_all add: handle_rto_timeout_def Let_def set_rto_timeout_def)

lemma shutdown_timeout_timers:
  "rto_timer (handle_shutdown_rto_timeout s t) = rto_timer s"
  "heartbeat_timer (handle_shutdown_rto_timeout s t) = heartbeat_timer s"
  "tx_shutdown_state (handle_shutdown_rto_timeout s t) = tx_shutdown_state s"
  "(handle_shutdown_rto_timeout s t = s \<and> tx_shutdown_state s \<notin> {Some ShutdownSent, Some ShutdownAckSent}) \<or>
   (timer_ctr (handle_shutdown_rto_timeout s t) = timer_ctr s + 1 \<and>
    (\<exists>a. shutdown_rto_timer (handle_shutdown_rto_timeout s t) = Some \<lparr>tm_marker = timer_ctr s, tm_at = a\<rparr>))"
  by (simp_all add: handle_shutdown_rto_timeout_def set_shutdown_rto_timeout_def push_send_next_def
      split: option.split shutdown_state.split)

lemma heartbeat_timeout_timers:
  assumes "handle_heartbeat_timeout s t = Ret s'"
  shows "rto_timer s' = rto_timer s" "shutdown_rto_timer s' = shutdown_rto_timer s"
    "tx_shutdown_state s' = tx_shutdown_state s" "timer_ctr s' = timer_ctr s + 1"
    "\<exists>a. heartbeat_timer s' = Some \<lparr>tm_marker = timer_ctr s, tm_at = a\<rparr>"
  using assms
  by (auto simp: handle_heartbeat_timeout_def Let_def outcome set_heartbeat_timeout_def
      push_send_next_def split: if_splits prod.splits)

lemma new_marker_differs:
  assumes "unat m < unat c" and "unat (c :: u64) < 2 ^ 64 - 4" and "n \<le> 3"
  shows "c + of_nat n \<noteq> m"
  using assms unat_timer_ctr_add [of c n] by auto

lemma timeout_twice:
  assumes "handle_timeout s t = Ret s'" and "timers_fresh s" and "unat (timer_ctr s) < 2 ^ 64 - 4"
  shows "handle_timeout s' t = Ret s'"
proof -
  define s1 where "s1 = (if timer_matches (rto_timer s) t then handle_rto_timeout s t else s)"
  define s2 where "s2 = (if timer_matches (shutdown_rto_timer s1) t
      then handle_shutdown_rto_timeout s1 t else s1)"
  have s': "(if timer_matches (heartbeat_timer s2) t then handle_heartbeat_timeout s2 t else Ret s2) = Ret s'"
    using assms(1) unfolding handle_timeout_def Let_def s1_def s2_def .
  have same: "shutdown_rto_timer s1 = shutdown_rto_timer s" "heartbeat_timer s2 = heartbeat_timer s"
    "rto_timer s2 = rto_timer s1" "rto_timer s' = rto_timer s1"
    "shutdown_rto_timer s' = shutdown_rto_timer s2" "tx_shutdown_state s' = tx_shutdown_state s1"
    using s'
    by (simp_all add: s1_def s2_def rto_timeout_timers(1-3) shutdown_timeout_timers(1-3)
        split: if_splits)
       (auto dest: heartbeat_timeout_timers(1-3) simp: shutdown_timeout_timers(1-3) rto_timeout_timers(1-3))
  show ?thesis
  proof (cases "timer_matches (rto_timer s) t \<or> timer_matches (shutdown_rto_timer s) t
      \<or> timer_matches (heartbeat_timer s) t")
    case False
    then have "s1 = s" by (simp add: s1_def)
    with False have "s2 = s" by (simp add: s2_def)
    with False s' have "s' = s" by simp
    with assms(1) show ?thesis by simp
  next
    case True
    then have m: "unat (tm_marker t) < unat (timer_ctr s)"
      using timer_matches_fresh assms(2) by blast
    have fresh: "timer_ctr s + of_nat n \<noteq> tm_marker t" if "n \<le> 3" for n
      by (rule new_marker_differs [OF m assms(3) that])
    have c1: "\<exists>n \<le> 1. timer_ctr s1 = timer_ctr s + of_nat n"
      using rto_timeout_timers(4) [of s t] by (auto simp: s1_def intro: exI [of _ 0] exI [of _ 1])
    then obtain n where n: "n \<le> 1" "timer_ctr s1 = timer_ctr s + of_nat n" by blast
    have "timer_ctr s2 = timer_ctr s1 \<or> timer_ctr s2 = timer_ctr s1 + 1"
      using shutdown_timeout_timers(4) [of s1 t] by (auto simp: s2_def)
    then have c2: "\<exists>n \<le> 2. timer_ctr s2 = timer_ctr s + of_nat n"
    proof
      assume "timer_ctr s2 = timer_ctr s1 + 1"
      then have "timer_ctr s2 = timer_ctr s + of_nat (Suc n)" using n by simp
      with n(1) show ?thesis by (intro exI [of _ "Suc n"]) simp
    qed (use n in \<open>auto intro: exI [of _ n]\<close>)
    have r: "\<not> timer_matches (rto_timer s') t"
      using rto_timeout_timers(4) [of s t] fresh [of 0]
      by (auto simp: same(4) s1_def timer_matches_def)
    moreover have "\<not> timer_matches (shutdown_rto_timer s') t \<or> handle_shutdown_rto_timeout s' t = s'"
      using shutdown_timeout_timers(4) [of s1 t] c1 fresh
      by (auto simp: same(5,6) s2_def timer_matches_def handle_shutdown_rto_timeout_def
          split: option.splits shutdown_state.splits)
    moreover have "\<not> timer_matches (heartbeat_timer s') t"
      using heartbeat_timeout_timers(5) [of s2 t s'] s' c2 fresh
      by (fastforce simp: timer_matches_def split: if_splits option.splits)
    ultimately show ?thesis
      by (auto simp: handle_timeout_def Let_def)
  qed
qed



subsection \<open>The shutdown handshake\<close>

text \<open>The moves of the shutdown state, by the event that causes them.\<close>

inductive shut_step ::
  "shutdown_state option \<Rightarrow> 'f tx_op \<Rightarrow> shutdown_state option \<Rightarrow> bool" where
  sh_stay: "shut_step x e x"
| sh_user: "shut_step x OpShutdown (Some TryingTo)"
| sh_local: "shut_step None (OpNotify TxShutdown) (Some TryingTo)"
| sh_peer: "shut_step None (OpNotify TxPeerShutdown) (Some ShutdownReceived)"
| sh_send: "shut_step (Some TryingTo) (OpPollSignal l p now) (Some ShutdownSent)"
| sh_reply: "shut_step (Some ShutdownReceived) (OpPollSignal l p now) (Some ShutdownAckSent)"
| sh_acked: "shut_step x (OpNotify TxPeerShutdownAck) (Some Complete)"
| sh_complete: "shut_step x (OpNotify TxPeerShutdownComplete) (Some Complete)"
| sh_abort: "shut_step x (OpNotify TxAbort) (Some AbortReceived)"

inductive_cases shut_step_to_sent: "shut_step x e (Some ShutdownSent)"
inductive_cases shut_step_to_ack_sent: "shut_step x e (Some ShutdownAckSent)"
inductive_cases shut_step_to_complete: "shut_step x e (Some Complete)"
inductive_cases shut_step_from: "shut_step x e y"

lemma pop_acked_shutdown:
  "pop_acked s cum q a = Ret (s', n) \<Longrightarrow>
   tx_shutdown_state s' = tx_shutdown_state s \<and> heartbeat_timer s' = heartbeat_timer s"
  by (induction s cum q a rule: pop_acked.induct) (auto simp: Let_def outcome split: if_splits)

lemma gap_blocks_shutdown:
  "process_sack_gap_blocks s sack a i = Ret s' \<Longrightarrow>
   tx_shutdown_state s' = tx_shutdown_state s \<and> heartbeat_timer s' = heartbeat_timer s"
  by (erule process_gap_blocks_cases) simp

lemma handle_sack_shutdown:
  assumes "handle_sack s sack now = Ret s'"
  shows "tx_shutdown_state s' = tx_shutdown_state s \<and> heartbeat_timer s' = heartbeat_timer s"
proof (cases "tsn_cmp (last_acked_tsn s) (cum_tsn sack)")
  case Less
  then have "tsn_cmp (last_acked_tsn s) (cum_tsn sack) \<noteq> Greater" "cum_tsn sack \<noteq> last_acked_tsn s"
    by auto
  then obtain t a u r where
    "pop_acked (s\<lparr>last_acked_tsn := cum_tsn sack, duplicated_acks := 0\<rparr>) (cum_tsn sack)
       (resend_queue s) 0 = Ret (t, a)"
    "process_sack_gap_blocks t sack a (current_in_flight s) = Ret u"
    and s': "tx_shutdown_state s' = tx_shutdown_state u" "heartbeat_timer s' = heartbeat_timer u"
    using assms unfolding handle_sack_def Let_def bindR_eq_Ret
    by (auto simp: outcome set_rto_timeout_def)
  then show ?thesis
    using pop_acked_shutdown gap_blocks_shutdown by fastforce
next
  case Equal
  then have "cum_tsn sack = last_acked_tsn s" by simp
  with assms show ?thesis
    by (auto simp: handle_sack_def Let_def dest!: gap_blocks_shutdown split: if_splits)
next
  case Greater
  with assms show ?thesis by (simp add: handle_sack_def)
qed

lemma handle_timeout_shutdown:
  "handle_timeout s t = Ret s' \<Longrightarrow> tx_shutdown_state s' = tx_shutdown_state s"
  unfolding handle_timeout_def Let_def
  by (auto simp: rto_timeout_timers(3) shutdown_timeout_timers(3)
      dest: heartbeat_timeout_timers(3) split: if_splits)

lemma poll_loss_shutdown:
  "poll_loss_recovery s room now = Ret (s', r) \<Longrightarrow> tx_shutdown_state s' = tx_shutdown_state s"
  by (auto simp: poll_loss_recovery_def Let_def set_rto_timeout_def split: if_splits list.splits)

lemma next_new_chunk_shutdown:
  "next_new_chunk s room = Some (t, d) \<Longrightarrow> tx_shutdown_state t = tx_shutdown_state s"
  by (auto elim: next_new_chunk_cases)

lemma poll_new_shutdown:
  "poll_new_data s room now = Ret (s', r) \<Longrightarrow> tx_shutdown_state s' = tx_shutdown_state s"
  unfolding poll_new_data_def Let_def
  by (auto simp: outcome set_rto_timeout_def split: if_splits option.splits)
     (metis next_new_chunk_shutdown)+

lemma poll_data_shutdown:
  "poll_data_to_send s limit packed now = Ret (s', r) \<Longrightarrow> tx_shutdown_state s' = tx_shutdown_state s"
  unfolding poll_data_to_send_def Let_def
  by (auto dest: poll_loss_shutdown poll_new_shutdown
      split: if_splits congestion_state.splits prod.splits)

lemma tx_notification_shut_step:
  assumes "tx_notification s n = Ret s'"
  shows "shut_step (tx_shutdown_state s) (OpNotify n) (tx_shutdown_state s')"
proof (cases n)
  case (TxSend c)
  with assms show ?thesis
    by (cases c) (auto simp: tx_notification_def Let_def push_send_next_def intro: sh_stay)
next
  case (TxSAck sack now)
  with assms show ?thesis
    by (auto simp: tx_notification_def handle_sack_shutdown intro: sh_stay)
next
  case (TxHeartBeatAck d now)
  with assms show ?thesis
    by (auto simp: tx_notification_def process_heartbeat_ack_def outcome Let_def
        set_heartbeat_timeout_def sh_stay split: option.splits)
next
  case TxPeerShutdown
  with assms show ?thesis
    by (auto simp: tx_notification_def push_send_next_def split: option.splits shutdown_state.splits
        intro: shut_step.intros)
qed (use assms in \<open>auto simp: tx_notification_def push_send_next_def split: if_splits
      intro: shut_step.intros\<close>)

lemma poll_signal_shut_step:
  assumes "poll_signal_to_send I s limit packed now = Ret (s', r)"
  shows "shut_step (tx_shutdown_state s) (OpPollSignal limit packed now) (tx_shutdown_state s')"
    and "tx_shutdown_state s' \<noteq> tx_shutdown_state s \<Longrightarrow>
      resend_queue s = [] \<and> out_queue s = [] \<and> shutdown_rto_timer s' \<noteq> None
      \<and> (tx_shutdown_state s' = Some ShutdownSent \<longrightarrow> r = PollSome (CShutDown (peer_last_acked_tsn s)))
      \<and> (tx_shutdown_state s' = Some ShutdownAckSent \<longrightarrow> r = PollSome CShutDownAck)"
  using assms
  by (auto simp: poll_signal_to_send_def Let_def outcome set_shutdown_rto_timeout_def
      split: list.splits if_splits option.splits shutdown_state.splits intro: shut_step.intros)

lemma tx_apply_shut_step:
  "tx_apply I e s = Ret s' \<Longrightarrow> shut_step (tx_shutdown_state s) e (tx_shutdown_state s')"
  by (cases e)
     (auto simp: bindR_eq_Ret initiate_shutdown_def poll_data_shutdown handle_timeout_shutdown
       try_send_data_def Let_def
       intro: shut_step.intros poll_signal_shut_step tx_notification_shut_step split: if_splits)

lemma shut_step_closed:
  "shut_step x e y \<Longrightarrow> is_completely_shutdown x \<Longrightarrow> e \<noteq> OpShutdown \<Longrightarrow> is_completely_shutdown y"
  by (auto simp: is_completely_shutdown_def elim: shut_step_from)



subsection \<open>Corner cases\<close>


definition demo_tx_stuck :: "u64 assoc_tx" where
  "demo_tx_stuck = demo_tx\<lparr>out_queue := [demo_chunk\<lparr>dc_buf := replicate 1190 0\<rparr>],
     current_out_buffered := 1190\<rparr>"


text \<open>
  C32. An association whose initial TSN is above \<open>u32::MAX - u32::MAX / 128\<close> ignores every
  acknowledgement of its first chunks: the last acknowledged TSN starts at zero, which compares
  greater than all of these TSNs, so their SACKs count as reordered and change nothing.
\<close>

theorem sack_ignored_above_wrap:
  assumes "assoc_tx_new i st now = Ret s0" and "last_acked_tsn s = last_acked_tsn s0"
    and "4261412864 < unat (cum_tsn sack)"
  shows "handle_sack s sack later = Ret s"
proof -
  have "last_acked_tsn s = 0"
    using assms(1,2) by (auto simp: assoc_tx_new_def outcome)
  with assms(3) have "tsn_cmp (last_acked_tsn s) (cum_tsn sack) = Greater"
    by (simp add: tsn_cmp_nat)
  then show ?thesis by (simp add: handle_sack_def)
qed

theorem sack_ignored_above_wrap_witness:
  "handle_sack demo_tx \<lparr>cum_tsn = 4294967295, sa_a_rwnd = 5, blocks = [], duplicated_tsn = []\<rparr> 1
     = Ret demo_tx"
  by (rule sack_ignored_above_wrap [OF demo_tx_new]) simp_all


end
