(* ===== verification/Rx.thy ===== *)
theory Rx
  imports Tx
begin

text \<open>
  The receiver of an association (\<open>src/assoc/rx.rs\<close>): the buffer that puts data chunks back into
  TSN order, the reassembly queue of each stream, the queues of complete messages, and the
  notifications for the transmitter. The recursion of \<open>handle_in_order_packet\<close> through its
  \<open>while\<close> loop is written with fuel; \<open>Rx_Inv\<close> shows that the number of buffered chunks is always
  enough. The model drops the unused results of \<open>handle_chunk\<close>.
\<close>

subsection \<open>Data\<close>

text \<open>\<open>PerStreamInfo\<close> of the receiver holds the reassembly queue only.\<close>

type_synonym reassemble_queue = "(sequence, data_chunk list) btree"

datatype 'f rx_note = RxChunk "'f chunk"

record stream_receive_event =
  ev_stream :: u16
  ev_ppid :: u32
  ev_unordered :: bool
  ev_data :: "data_chunk list"

datatype poll_data_error = RxClosed

datatype poll_data_result =
    PollError poll_data_error
  | NoneAvailable
  | PollData stream_receive_event

record 'f assoc_rx =
  rx_id :: assoc_id
  tx_notifications :: "'f tx_note list"
  rx_tsn_counter :: tsn
  last_sent_arwnd :: u32
  ordered_receive_events :: "stream_receive_event list"
  unordered_receive_events :: "stream_receive_event list"
  rx_per_stream :: "reassemble_queue list"
  tsn_reorder_buffer :: "(tsn, data_chunk) btree"
  in_buffer_limit :: usize
  current_in_buffer :: usize
  rx_shutdown_state :: "shutdown_state option"

definition assoc_rx_new :: "assoc_id \<Rightarrow> tsn \<Rightarrow> u16 \<Rightarrow> usize \<Rightarrow> 'f assoc_rx" where
  "assoc_rx_new i init_tsn in_streams limit =
     \<lparr> rx_id = i,
       tx_notifications = [],
       rx_tsn_counter = tsn_decrease init_tsn,
       last_sent_arwnd = as_u32 limit,
       ordered_receive_events = [],
       unordered_receive_events = [],
       rx_per_stream = replicate (unat in_streams) [],
       tsn_reorder_buffer = [],
       in_buffer_limit = limit,
       current_in_buffer = 0,
       rx_shutdown_state = None \<rparr>"

fun get_stream_id :: "'f rx_note \<Rightarrow> u16 option" where
  "get_stream_id (RxChunk c) = (case c of CData d \<Rightarrow> Some (dc_stream_id d) | _ \<Rightarrow> None)"

definition is_none_available :: "poll_data_result \<Rightarrow> bool" where
  "is_none_available r = (r = NoneAvailable)"

subsection \<open>Accounting\<close>

definition chunk_bytes :: "data_chunk list \<Rightarrow> usize" where
  "chunk_bytes ds = (\<Sum>d \<leftarrow> ds. length (dc_buf d))"

definition reorder_bytes :: "(tsn, data_chunk) btree \<Rightarrow> usize" where
  "reorder_bytes m = chunk_bytes (map snd m)"

definition stream_bytes :: "reassemble_queue \<Rightarrow> usize" where
  "stream_bytes q = (\<Sum>e \<leftarrow> q. chunk_bytes (snd e))"

definition event_bytes :: "stream_receive_event list \<Rightarrow> usize" where
  "event_bytes es = (\<Sum>e \<leftarrow> es. chunk_bytes (ev_data e))"

definition rx_assert_invariants :: "'f assoc_rx \<Rightarrow> bool" where
  "rx_assert_invariants s =
     (current_in_buffer s =
        reorder_bytes (tsn_reorder_buffer s)
        + ((\<Sum>q \<leftarrow> rx_per_stream s. stream_bytes q) + event_bytes (ordered_receive_events s)))"

subsection \<open>Acknowledgements\<close>

definition push_tx :: "'f assoc_rx \<Rightarrow> 'f tx_note \<Rightarrow> 'f assoc_rx" where
  "push_tx s n = s\<lparr>tx_notifications := tx_notifications s @ [n]\<rparr>"

text \<open>The loop over the reorder buffer that collects the gap blocks, with its checked arithmetic.\<close>

fun ack_blocks :: "tsn \<Rightarrow> u32 \<Rightarrow> u32 \<Rightarrow> tsn list \<Rightarrow> (u16 \<times> u16) list rust" where
  "ack_blocks counter block_start block_end [] =
     Ret [(ucast (block_start - counter), ucast (block_end - counter))]"
| "ack_blocks counter block_start block_end (k # ks) =
     bindR (word_add block_end 1) (\<lambda>nxt.
       if k = nxt then ack_blocks counter block_start nxt ks
       else
         bindR (word_sub block_start counter) (\<lambda>a.
         bindR (word_sub block_end counter) (\<lambda>b.
         bindR (ack_blocks counter k k ks) (\<lambda>bs. Ret ((ucast a, ucast b) # bs)))))"

definition gap_blocks :: "'f assoc_rx \<Rightarrow> (u16 \<times> u16) list rust" where
  "gap_blocks s =
     (case tsn_reorder_buffer s of
        [] \<Rightarrow> Ret []
      | (key, _) # _ \<Rightarrow>
          bindR (word_sub key 1) (\<lambda>block_end.
            ack_blocks (rx_tsn_counter s) key block_end (map fst (tsn_reorder_buffer s))))"

definition queue_ack :: "'f assoc_rx \<Rightarrow> 'f assoc_rx rust" where
  "queue_ack s =
     bindR (usize_sub (in_buffer_limit s) (current_in_buffer s)) (\<lambda>room.
       let a_rwnd = as_u32 room;
           s = s\<lparr>last_sent_arwnd := a_rwnd\<rparr>
       in bindR (gap_blocks s) (\<lambda>bs.
            Ret (push_tx s (TxSend (CSAck
              \<lparr>cum_tsn = rx_tsn_counter s, sa_a_rwnd = a_rwnd, blocks = bs, duplicated_tsn = []\<rparr>)))))"

subsection \<open>Data chunks\<close>

text \<open>The fragments of a message received so far, with one more.\<close>

definition entry_push :: "reassemble_queue \<Rightarrow> data_chunk \<Rightarrow> reassemble_queue" where
  "entry_push q d =
     bt_insert seq_cmp (dc_stream_seq_num d)
       ((case bt_lookup seq_cmp q (dc_stream_seq_num d) of Some v \<Rightarrow> v | None \<Rightarrow> []) @ [d]) q"

text \<open>
  The part of \<open>handle_in_order_packet\<close> before its loop, for a known stream and enough room: count
  the chunk, add it to its message, and deliver the message when this is its end. The two
  conditions on malformed fragment sequences have empty bodies in the source.
\<close>

definition receive_in_order :: "'f assoc_rx \<Rightarrow> data_chunk \<Rightarrow> 'f assoc_rx rust" where
  "receive_in_order s d =
     (let s = s\<lparr>rx_tsn_counter := tsn_increase (rx_tsn_counter s)\<rparr>;
          s = s\<lparr>current_in_buffer := current_in_buffer s + length (dc_buf d)\<rparr>;
          i = unat (dc_stream_id d);
          q = entry_push (rx_per_stream s ! i) d;
          s = s\<lparr>rx_per_stream := (rx_per_stream s)[i := q]\<rparr>
      in if dc_end d then
           case bt_lookup seq_cmp q (dc_stream_seq_num d) of
             None \<Rightarrow> Panic UnwrapFailed
           | Some full \<Rightarrow>
               let s = s\<lparr>rx_per_stream :=
                         (rx_per_stream s)[i := bt_remove seq_cmp (dc_stream_seq_num d) q]\<rparr>;
                   event = \<lparr>ev_stream = dc_stream_id d, ev_ppid = dc_ppid d,
                            ev_unordered = dc_unordered d, ev_data = full\<rparr>
               in if ev_unordered event
                  then Ret (s\<lparr>unordered_receive_events := unordered_receive_events s @ [event]\<rparr>)
                  else Ret (s\<lparr>ordered_receive_events := ordered_receive_events s @ [event]\<rparr>)
         else Ret s)"

fun handle_in_order_packet :: "nat \<Rightarrow> 'f assoc_rx \<Rightarrow> data_chunk \<Rightarrow> ('f assoc_rx \<times> bool) rust"
  and drain_reordered :: "nat \<Rightarrow> 'f assoc_rx \<Rightarrow> 'f assoc_rx rust" where
  "handle_in_order_packet n s d =
     (if unat (dc_stream_id d) < length (rx_per_stream s) then
        if current_in_buffer s + length (dc_buf d) \<le> in_buffer_limit s then
          bindR (receive_in_order s d) (\<lambda>s.
          bindR (drain_reordered n s) (\<lambda>s. Ret (s, True)))
        else Ret (s, False)
      else Ret (s, True))"
| "drain_reordered n s =
     (case tsn_reorder_buffer s of
        [] \<Rightarrow> Ret s
      | (t, d) # rest \<Rightarrow>
          if t = tsn_increase (rx_tsn_counter s) then
            (case n of
               0 \<Rightarrow> Panic OutOfFuel
             | Suc m \<Rightarrow>
                 bindR (usize_sub (current_in_buffer s) (length (dc_buf d))) (\<lambda>b.
                 bindR (handle_in_order_packet m
                          (s\<lparr>tsn_reorder_buffer := rest, current_in_buffer := b\<rparr>) d) (\<lambda>(s, _).
                   drain_reordered m s)))
          else Ret s)"

declare handle_in_order_packet.simps [simp del] drain_reordered.simps [simp del]

definition handle_data_chunk :: "'f assoc_rx \<Rightarrow> data_chunk \<Rightarrow> 'f assoc_rx rust" where
  "handle_data_chunk s d =
     (case tsn_cmp (dc_tsn d) (tsn_increase (rx_tsn_counter s)) of
        Greater \<Rightarrow>
          if bt_lookup tsn_cmp (tsn_reorder_buffer s) (dc_tsn d) \<noteq> None then Ret s
          else if current_in_buffer s + length (dc_buf d) \<le> in_buffer_limit s then
            let s = s\<lparr>current_in_buffer := current_in_buffer s + length (dc_buf d)\<rparr>;
                s = s\<lparr>tsn_reorder_buffer := bt_insert tsn_cmp (dc_tsn d) d (tsn_reorder_buffer s)\<rparr>
            in queue_ack s
          else Ret s
      | Equal \<Rightarrow>
          bindR (handle_in_order_packet (length (tsn_reorder_buffer s)) s d) (\<lambda>(s, accepted).
            if accepted then queue_ack s else Ret s)
      | Less \<Rightarrow> Ret s)"

subsection \<open>Notifications and delivery\<close>

definition handle_chunk :: "'f assoc_rx \<Rightarrow> 'f chunk \<Rightarrow> instant \<Rightarrow> 'f assoc_rx rust" where
  "handle_chunk s c now =
     (case c of
        CData d \<Rightarrow> handle_data_chunk s d
      | CSAck sack \<Rightarrow> Ret (push_tx s (TxSAck sack now))
      | CAbort _ _ \<Rightarrow> Ret (push_tx (s\<lparr>rx_shutdown_state := Some AbortReceived\<rparr>) TxAbort)
      | CShutDown _ \<Rightarrow> Ret (push_tx (s\<lparr>rx_shutdown_state := Some ShutdownReceived\<rparr>) TxPeerShutdown)
      | CShutDownAck \<Rightarrow> Ret (push_tx (s\<lparr>rx_shutdown_state := Some Complete\<rparr>) TxPeerShutdownAck)
      | CShutDownComplete _ \<Rightarrow>
          Ret (push_tx (s\<lparr>rx_shutdown_state := Some Complete\<rparr>) TxPeerShutdownComplete)
      | CHeartBeat h \<Rightarrow> Ret (push_tx s (TxSend (CHeartBeatAck (heart_beat_ack_from h))))
      | CHeartBeatAck ack \<Rightarrow> Ret (push_tx s (TxHeartBeatAck ack now))
      | _ \<Rightarrow> Panic NotYetImplemented)"

fun rx_notification :: "'f assoc_rx \<Rightarrow> 'f rx_note \<Rightarrow> instant \<Rightarrow> 'f assoc_rx rust" where
  "rx_notification s (RxChunk c) now =
     bindR (handle_chunk s c now) (\<lambda>s.
       if rx_assert_invariants s then Ret s else Panic AssertionFailed)"

text \<open>Draining the notifications for the transmitter hands them over in order.\<close>

definition drain_tx_notifications :: "'f assoc_rx \<Rightarrow> 'f assoc_rx \<times> 'f tx_note list" where
  "drain_tx_notifications s = (s\<lparr>tx_notifications := []\<rparr>, tx_notifications s)"

definition pop_next_receive_event :: "'f assoc_rx \<Rightarrow> 'f assoc_rx \<times> stream_receive_event option" where
  "pop_next_receive_event s =
     (case unordered_receive_events s of
        e # es \<Rightarrow> (s\<lparr>unordered_receive_events := es\<rparr>, Some e)
      | [] \<Rightarrow>
          (case ordered_receive_events s of
             e # es \<Rightarrow> (s\<lparr>ordered_receive_events := es\<rparr>, Some e)
           | [] \<Rightarrow> (s, None)))"

definition poll_data :: "'f assoc_rx \<Rightarrow> ('f assoc_rx \<times> poll_data_result) rust" where
  "poll_data s =
     (if rx_shutdown_state s \<noteq> None then Ret (s, PollError RxClosed)
      else
        case pop_next_receive_event s of
          (s, Some e) \<Rightarrow>
            bindR (usize_sub (current_in_buffer s) (chunk_bytes (ev_data e))) (\<lambda>b.
              Ret (s\<lparr>current_in_buffer := b\<rparr>, PollData e))
        | (s, None) \<Rightarrow> Ret (s, NoneAvailable))"

end
