(* ===== verification/Rx_Inv.thy ===== *)
theory Rx_Inv
  imports Rx
begin

text \<open>
  The invariant of the receiver: every buffered byte is accounted for and the total stays within
  the limit, and the reorder buffer is a sorted map of chunks that lie ahead of the next TSN.
  Under it the fuel of \<open>handle_in_order_packet\<close> is enough and no subtraction underflows.
\<close>

subsection \<open>The invariant\<close>

definition stored_bytes :: "'f assoc_rx \<Rightarrow> nat" where
  "stored_bytes s = (\<Sum>q \<leftarrow> rx_per_stream s. stream_bytes q)
     + event_bytes (ordered_receive_events s) + event_bytes (unordered_receive_events s)"

definition rx_bytes_ok :: "'f assoc_rx \<Rightarrow> bool" where
  "rx_bytes_ok s = (current_in_buffer s = reorder_bytes (tsn_reorder_buffer s) + stored_bytes s
     \<and> current_in_buffer s \<le> in_buffer_limit s)"

text \<open>The reorder buffer while it is drained: its first chunk may be the next in order.\<close>

definition reorder_ok :: "tsn set \<Rightarrow> (tsn, data_chunk) btree \<Rightarrow> bool" where
  "reorder_ok K m = (bt_sorted tsn_cmp m \<and> (\<forall>(k, d) \<in> set m. k = dc_tsn d \<and> k \<in> K))"

abbreviation ahead :: "tsn \<Rightarrow> tsn set" where
  "ahead t \<equiv> {k. tsn_cmp k t = Greater}"

definition rx_inv :: "'f assoc_rx \<Rightarrow> bool" where
  "rx_inv s = (rx_bytes_ok s \<and> reorder_ok (ahead (tsn_increase (rx_tsn_counter s))) (tsn_reorder_buffer s))"

definition rx_draining :: "'f assoc_rx \<Rightarrow> bool" where
  "rx_draining s = (rx_bytes_ok s \<and>
     reorder_ok (tsn_window (tsn_increase (rx_tsn_counter s))) (tsn_reorder_buffer s))"

lemma reorder_ok_simps [simp]:
  "reorder_ok K []"
  "reorder_ok K ((k, d) # m) \<longleftrightarrow>
     k = dc_tsn d \<and> k \<in> K \<and> reorder_ok K m \<and> (\<forall>e \<in> set m. tsn_cmp k (fst e) = Less)"
  by (auto simp: reorder_ok_def bt_sorted_def)

lemma reorder_ok_mono: "reorder_ok K m \<Longrightarrow> (\<And>k. k \<in> fst ` set m \<Longrightarrow> k \<in> L) \<Longrightarrow> reorder_ok L m"
  by (force simp: reorder_ok_def)

lemma reorder_bytes_simps [simp]:
  "reorder_bytes [] = 0"
  "reorder_bytes ((k, d) # m) = length (dc_buf d) + reorder_bytes m"
  by (simp_all add: reorder_bytes_def chunk_bytes_def)

lemma chunk_bytes_simps [simp]:
  "chunk_bytes [] = 0"
  "chunk_bytes (d # ds) = length (dc_buf d) + chunk_bytes ds"
  "chunk_bytes (ds @ es) = chunk_bytes ds + chunk_bytes es"
  by (simp_all add: chunk_bytes_def)

lemma event_bytes_simps [simp]:
  "event_bytes [] = 0"
  "event_bytes (e # es) = chunk_bytes (ev_data e) + event_bytes es"
  "event_bytes (es @ fs) = event_bytes es + event_bytes fs"
  by (simp_all add: event_bytes_def)

subsection \<open>One chunk in order\<close>

lemma entry_push_bytes: "stream_bytes (entry_push q d) = stream_bytes q + length (dc_buf d)"
proof (cases "bt_lookup seq_cmp q (dc_stream_seq_num d)")
  case None
  then show ?thesis
    by (simp add: entry_push_def stream_bytes_def sum_bt_insert_new)
next
  case (Some v)
  then show ?thesis
    using sum_bt_insert_old [OF Some, of chunk_bytes "v @ [d]"]
    by (simp add: entry_push_def stream_bytes_def)
qed

lemma entry_push_lookup:
  "bt_lookup seq_cmp (entry_push q d) (dc_stream_seq_num d) =
     Some ((case bt_lookup seq_cmp q (dc_stream_seq_num d) of Some v \<Rightarrow> v | None \<Rightarrow> []) @ [d])"
  by (simp add: entry_push_def bt_lookup_insert)

text \<open>What the receiver does not change while it takes chunks from the network.\<close>

definition rx_frame :: "'f assoc_rx \<Rightarrow> assoc_id \<times> 'f tx_note list \<times> u32 \<times> nat \<times> nat \<times> shutdown_state option" where
  "rx_frame s = (rx_id s, tx_notifications s, last_sent_arwnd s, length (rx_per_stream s),
     in_buffer_limit s, rx_shutdown_state s)"

lemma receive_in_order_facts:
  assumes "unat (dc_stream_id d) < length (rx_per_stream s)"
  obtains s' where "receive_in_order s d = Ret s'"
    "rx_tsn_counter s' = tsn_increase (rx_tsn_counter s)"
    "current_in_buffer s' = current_in_buffer s + length (dc_buf d)"
    "stored_bytes s' = stored_bytes s + length (dc_buf d)"
    "tsn_reorder_buffer s' = tsn_reorder_buffer s" "rx_frame s' = rx_frame s"
proof -
  let ?i = "unat (dc_stream_id d)" and ?k = "dc_stream_seq_num d"
  define q where "q = entry_push (rx_per_stream s ! ?i) d"
  define full where "full = (case bt_lookup seq_cmp (rx_per_stream s ! ?i) ?k of
      Some v \<Rightarrow> v | None \<Rightarrow> []) @ [d]"
  have look: "bt_lookup seq_cmp q ?k = Some full"
    by (simp add: q_def full_def entry_push_lookup)
  have upd: "(\<Sum>x \<leftarrow> (rx_per_stream s)[?i := y]. stream_bytes x) + stream_bytes (rx_per_stream s ! ?i)
      = (\<Sum>x \<leftarrow> rx_per_stream s. stream_bytes x) + stream_bytes y" for y
    by (rule sum_list_map_update [OF assms])
  have q: "stream_bytes q = stream_bytes (rx_per_stream s ! ?i) + length (dc_buf d)"
    by (simp add: q_def entry_push_bytes)
  have rem: "stream_bytes (bt_remove seq_cmp ?k q) + chunk_bytes full = stream_bytes q"
    using sum_bt_remove [OF look, of chunk_bytes] by (simp add: stream_bytes_def)
  show thesis
  proof (rule that)
    show "receive_in_order s d = Ret (if dc_end d then
        (let s = s\<lparr>rx_tsn_counter := tsn_increase (rx_tsn_counter s),
             current_in_buffer := current_in_buffer s + length (dc_buf d),
             rx_per_stream := (rx_per_stream s)[?i := bt_remove seq_cmp ?k q]\<rparr>;
             e = \<lparr>ev_stream = dc_stream_id d, ev_ppid = dc_ppid d, ev_unordered = dc_unordered d,
                  ev_data = full\<rparr>
         in if dc_unordered d
            then s\<lparr>unordered_receive_events := unordered_receive_events s @ [e]\<rparr>
            else s\<lparr>ordered_receive_events := ordered_receive_events s @ [e]\<rparr>)
       else s\<lparr>rx_tsn_counter := tsn_increase (rx_tsn_counter s),
             current_in_buffer := current_in_buffer s + length (dc_buf d),
             rx_per_stream := (rx_per_stream s)[?i := q]\<rparr>)"
      using look by (simp add: receive_in_order_def Let_def q_def)
  qed (use upd [of q] upd [of "bt_remove seq_cmp ?k q"] q rem in
      \<open>auto simp: Let_def stored_bytes_def rx_frame_def\<close>)
qed

subsection \<open>The drain loop\<close>

lemma receive_in_order_draining:
  assumes "rx_inv s" and "unat (dc_stream_id d) < length (rx_per_stream s)"
    and "current_in_buffer s + length (dc_buf d) \<le> in_buffer_limit s"
  obtains s' where "receive_in_order s d = Ret s'" "rx_draining s'"
    "tsn_reorder_buffer s' = tsn_reorder_buffer s" "rx_frame s' = rx_frame s"
proof -
  obtain s' where s': "receive_in_order s d = Ret s'"
    "rx_tsn_counter s' = tsn_increase (rx_tsn_counter s)"
    "current_in_buffer s' = current_in_buffer s + length (dc_buf d)"
    "stored_bytes s' = stored_bytes s + length (dc_buf d)"
    "tsn_reorder_buffer s' = tsn_reorder_buffer s" "rx_frame s' = rx_frame s"
    using receive_in_order_facts [OF assms(2)] by blast
  have "reorder_ok (tsn_window (tsn_increase (rx_tsn_counter s'))) (tsn_reorder_buffer s')"
    unfolding s'(2,5)
  proof (rule reorder_ok_mono)
    show "reorder_ok (ahead (tsn_increase (rx_tsn_counter s))) (tsn_reorder_buffer s)"
      using assms(1) by (simp add: rx_inv_def)
    show "k \<in> tsn_window (tsn_increase (tsn_increase (rx_tsn_counter s)))"
      if "k \<in> fst ` set (tsn_reorder_buffer s)" for k
      using that assms(1) by (force simp: rx_inv_def reorder_ok_def intro: tsn_window_step)
  qed
  moreover have "rx_bytes_ok s'"
    using assms(1,3) s' by (simp add: rx_inv_def rx_bytes_ok_def rx_frame_def)
  ultimately show thesis
    using that s' by (simp add: rx_draining_def)
qed

lemma inv_draining: "rx_inv s \<Longrightarrow> rx_draining s"
  by (auto simp: rx_inv_def rx_draining_def reorder_ok_def tsn_window_def)

text \<open>When the first buffered chunk is not the next in order, none is.\<close>

lemma draining_done:
  assumes "rx_draining s"
    and "\<And>t d rest. tsn_reorder_buffer s = (t, d) # rest \<Longrightarrow> t \<noteq> tsn_increase (rx_tsn_counter s)"
  shows "rx_inv s"
proof (cases "tsn_reorder_buffer s")
  case Nil
  with assms(1) show ?thesis by (simp add: rx_draining_def rx_inv_def)
next
  case (Cons e rest)
  obtain t d where e: "e = (t, d)" by fastforce
  let ?c = "tsn_increase (rx_tsn_counter s)"
  have win: "reorder_ok (tsn_window ?c) ((t, d) # rest)" and ne: "t \<noteq> ?c"
    using assms Cons e by (auto simp: rx_draining_def)
  then have t: "tsn_cmp t ?c = Greater" by (auto simp: tsn_window_def)
  have "k \<in> ahead ?c" if "k \<in> fst ` set rest" for k
  proof -
    have k: "tsn_cmp t k = Less" "k \<in> tsn_window ?c" "t \<in> tsn_window ?c"
      using win that by (force simp: reorder_ok_def bt_sorted_def)+
    moreover have "?c \<in> tsn_window ?c" "tsn_cmp ?c t = Less"
      using t by (simp_all add: tsn_window_def tsn_cmp_Greater_iff)
    ultimately have "tsn_cmp ?c k = Less"
      using tsn_order.cmp_trans by blast
    then show ?thesis by (simp add: tsn_cmp_Greater_iff)
  qed
  with win t have "reorder_ok (ahead ?c) ((t, d) # rest)"
    by (intro reorder_ok_mono [OF win]) auto
  with assms(1) Cons e show ?thesis by (simp add: rx_draining_def rx_inv_def)
qed

text \<open>Taking the first buffered chunk out when it is the next in order.\<close>

lemma draining_pop:
  assumes "rx_draining s" and "tsn_reorder_buffer s = (t, d) # rest"
    and "t = tsn_increase (rx_tsn_counter s)"
  shows "length (dc_buf d) \<le> current_in_buffer s"
    and "rx_inv (s\<lparr>tsn_reorder_buffer := rest, current_in_buffer := current_in_buffer s - length (dc_buf d)\<rparr>)"
proof -
  show "length (dc_buf d) \<le> current_in_buffer s"
    using assms by (simp add: rx_draining_def rx_bytes_ok_def)
  have "reorder_ok (ahead t) rest"
    by (rule reorder_ok_mono [of "tsn_window t"])
       (use assms in \<open>auto simp: rx_draining_def tsn_cmp_Greater_iff\<close>)
  with assms show "rx_inv (s\<lparr>tsn_reorder_buffer := rest,
      current_in_buffer := current_in_buffer s - length (dc_buf d)\<rparr>)"
    by (auto simp: rx_draining_def rx_inv_def rx_bytes_ok_def stored_bytes_def)
qed

definition rx_smaller :: "'f assoc_rx \<Rightarrow> 'f assoc_rx \<Rightarrow> bool" where
  "rx_smaller s' s = (rx_frame s' = rx_frame s
     \<and> length (tsn_reorder_buffer s') \<le> length (tsn_reorder_buffer s))"

lemma rx_smaller_trans: "rx_smaller a b \<Longrightarrow> rx_smaller b c \<Longrightarrow> rx_smaller a c"
  by (simp add: rx_smaller_def)

lemma rx_smaller_refl [simp]: "rx_smaller a a"
  by (simp add: rx_smaller_def)

lemma handle_in_order_from_drain:
  fixes s :: "'f assoc_rx"
  assumes drain: "\<And>s :: 'f assoc_rx. rx_draining s \<Longrightarrow> length (tsn_reorder_buffer s) \<le> n \<Longrightarrow>
      \<exists>s'. drain_reordered n s = Ret s' \<and> rx_inv s' \<and> rx_smaller s' s"
    and "rx_inv s" and "length (tsn_reorder_buffer s) \<le> n"
  shows "\<exists>s' b. handle_in_order_packet n s d = Ret (s', b) \<and> rx_inv s' \<and> rx_smaller s' s"
proof (cases "unat (dc_stream_id d) < length (rx_per_stream s)
    \<and> current_in_buffer s + length (dc_buf d) \<le> in_buffer_limit s")
  case True
  then obtain s1 where s1: "receive_in_order s d = Ret s1" "rx_draining s1"
    "tsn_reorder_buffer s1 = tsn_reorder_buffer s" "rx_frame s1 = rx_frame s"
    using receive_in_order_draining [OF assms(2)] by blast
  moreover obtain s2 where "drain_reordered n s1 = Ret s2" "rx_inv s2" "rx_smaller s2 s1"
    using drain [of s1] s1 assms(3) by auto
  ultimately show ?thesis
    using True by (auto simp: handle_in_order_packet.simps rx_smaller_def)
next
  case False
  with assms(2) show ?thesis
    by (auto simp: handle_in_order_packet.simps)
qed

lemma drain_reordered_ok:
  "rx_draining s \<Longrightarrow> length (tsn_reorder_buffer s) \<le> n \<Longrightarrow>
     \<exists>s'. drain_reordered n s = Ret s' \<and> rx_inv s' \<and> rx_smaller s' s"
proof (induction n arbitrary: s)
  case 0
  then show ?case
    using draining_done [of s] by (simp add: drain_reordered.simps)
next
  case (Suc n)
  show ?case
  proof (cases "\<exists>d rest. tsn_reorder_buffer s = (tsn_increase (rx_tsn_counter s), d) # rest")
    case True
    then obtain d rest where buf: "tsn_reorder_buffer s = (tsn_increase (rx_tsn_counter s), d) # rest"
      by blast
    let ?s = "s\<lparr>tsn_reorder_buffer := rest, current_in_buffer := current_in_buffer s - length (dc_buf d)\<rparr>"
    note pop = draining_pop [OF Suc.prems(1) buf refl]
    have "rx_smaller ?s s" "length rest \<le> n"
      using buf Suc.prems(2) by (simp_all add: rx_smaller_def rx_frame_def)
    moreover obtain s1 b where s1: "handle_in_order_packet n ?s d = Ret (s1, b)" "rx_inv s1"
      "rx_smaller s1 ?s"
      using handle_in_order_from_drain [OF Suc.IH pop(2), of d] \<open>length rest \<le> n\<close> by auto
    moreover have "rx_draining s1"
      using s1(2) by (rule inv_draining)
    then obtain s2 where "drain_reordered n s1 = Ret s2" "rx_inv s2" "rx_smaller s2 s1"
      using Suc.IH [of s1] s1(3) \<open>length rest \<le> n\<close> by (auto simp: rx_smaller_def)
    ultimately show ?thesis
      using buf pop(1) by (subst drain_reordered.simps) (auto intro: rx_smaller_trans)
  next
    case False
    then have "drain_reordered (Suc n) s = Ret s"
      by (auto simp: drain_reordered.simps split: list.split)
    moreover have "rx_inv s"
      using draining_done [OF Suc.prems(1)] False by blast
    ultimately show ?thesis by simp
  qed
qed

lemmas handle_in_order_ok = handle_in_order_from_drain [OF drain_reordered_ok]

subsection \<open>Acknowledgements\<close>

text \<open>
  The gap-block arithmetic is not wrapping: it is safe as long as the buffered TSNs are
  numerically above the counter.
\<close>

definition reorder_above :: "'f assoc_rx \<Rightarrow> bool" where
  "reorder_above s = (\<forall>k \<in> fst ` set (tsn_reorder_buffer s). unat (rx_tsn_counter s) < unat k)"

lemma ack_blocks_returns:
  "sorted_wrt (<) (map unat (block_end # ks)) \<Longrightarrow> unat c \<le> unat block_start \<Longrightarrow> unat c \<le> unat block_end
   \<Longrightarrow> returns (ack_blocks c block_start block_end ks)"
proof (induction c block_start block_end ks rule: ack_blocks.induct)
  case (1 c a b)
  then show ?case by simp
next
  case (2 c a b k ks)
  have "unat b < unat k" using "2.prems"(1) by simp
  then have "unat b + 1 < 2 ^ 32" "unat (b + 1) = unat b + 1"
    using unat_u32_bound [of k] by (simp_all add: unat_u32_add)
  then have nxt: "word_add b 1 = Ret (b + 1)" by (simp add: word_add_def)
  show ?case
  proof (cases "k = b + 1")
    case True
    then show ?thesis
      using "2.IH"(1) [of "b + 1"] "2.prems" nxt \<open>unat (b + 1) = unat b + 1\<close> by simp
  next
    case False
    have "word_sub a c = Ret (a - c)" "word_sub b c = Ret (b - c)"
      using "2.prems"(2,3) by (simp_all add: word_sub_def word_le_nat_alt)
    moreover have "returns (ack_blocks c k k ks)"
      using "2.IH"(2) [of "b + 1" "a - c" "b - c"] False "2.prems" nxt calculation by simp
    ultimately show ?thesis
      using nxt False by (auto simp: returns_bindR returns_iff)
  qed
qed

lemma reorder_sorted_unat:
  assumes "reorder_ok (ahead (tsn_increase c)) m" and "\<forall>k \<in> fst ` set m. unat c < unat k"
  shows "sorted_wrt (<) (map (unat \<circ> fst) m)"
  using assms
proof (induction m)
  case (Cons e m)
  obtain k d where e: "e = (k, d)" by fastforce
  have k: "tsn_cmp k (tsn_increase c) = Greater" "unat c < unat k"
    using Cons.prems e by auto
  have "unat k < unat j" if "(j, d') \<in> set m" for j d'
  proof -
    have "tsn_cmp k j = Less" "unat c < unat j"
      using Cons.prems e that by force+
    with k show ?thesis
      by (auto simp: tsn_cmp_nat unat_tsn_increase split: if_splits)
  qed
  with Cons e show ?case by auto
qed simp

lemma gap_blocks_returns:
  assumes "rx_inv s" and "reorder_above s"
  shows "returns (gap_blocks s)"
proof (cases "tsn_reorder_buffer s")
  case Nil
  then show ?thesis by (simp add: gap_blocks_def)
next
  case (Cons e m)
  obtain k d where e: "e = (k, d)" by fastforce
  have k: "unat (rx_tsn_counter s) < unat k"
    using assms(2) Cons e by (simp add: reorder_above_def)
  then have k1: "word_sub k 1 = Ret (k - 1)" "unat (k - 1) = unat k - 1"
    by (auto simp: word_sub_def word_le_nat_alt unat_sub_if_size)
  have "sorted_wrt (<) (map (unat \<circ> fst) (e # m))"
    using reorder_sorted_unat [of "rx_tsn_counter s" "e # m"] assms Cons
    by (simp add: rx_inv_def reorder_above_def)
  then have "sorted_wrt (<) (map unat ((k - 1) # map fst (e # m)))"
    using k k1 e by auto
  then show ?thesis
    using ack_blocks_returns [of "k - 1" "map fst (e # m)" "rx_tsn_counter s" k] k k1 Cons e
    by (simp add: gap_blocks_def)
qed

lemma gap_blocks_arwnd [simp]: "gap_blocks (s\<lparr>last_sent_arwnd := w\<rparr>) = gap_blocks s"
  by (simp add: gap_blocks_def split: list.split)

lemma queue_ack_cases:
  assumes "queue_ack s = Ret s'"
  obtains bs where "gap_blocks s = Ret bs"
    "s' = push_tx (s\<lparr>last_sent_arwnd := as_u32 (in_buffer_limit s - current_in_buffer s)\<rparr>)
       (TxSend (CSAck \<lparr>cum_tsn = rx_tsn_counter s,
          sa_a_rwnd = as_u32 (in_buffer_limit s - current_in_buffer s), blocks = bs,
          duplicated_tsn = []\<rparr>))"
  using assms by (auto simp: queue_ack_def Let_def outcome)

lemma queue_ack_returns: "rx_inv s \<Longrightarrow> reorder_above s \<Longrightarrow> returns (queue_ack s)"
  using gap_blocks_returns [of s]
  by (auto simp: queue_ack_def Let_def returns_bindR returns_iff rx_inv_def rx_bytes_ok_def)

lemma rx_inv_push_tx [simp]: "rx_inv (push_tx s n) = rx_inv s"
  by (simp add: rx_inv_def rx_bytes_ok_def stored_bytes_def push_tx_def)

lemma rx_inv_updates [simp]:
  "rx_inv (s\<lparr>last_sent_arwnd := w\<rparr>) = rx_inv s"
  "rx_inv (s\<lparr>rx_shutdown_state := x\<rparr>) = rx_inv s"
  "rx_inv (s\<lparr>tx_notifications := ns\<rparr>) = rx_inv s"
  by (simp_all add: rx_inv_def rx_bytes_ok_def stored_bytes_def)

lemma queue_ack_inv: "rx_inv s \<Longrightarrow> queue_ack s = Ret s' \<Longrightarrow> rx_inv s'"
  by (auto elim: queue_ack_cases)

subsection \<open>Data chunks\<close>

lemma reorder_insert:
  assumes "reorder_ok (ahead c) m" and "tsn_cmp (dc_tsn d) c = Greater"
  shows "reorder_ok (ahead c) (bt_insert tsn_cmp (dc_tsn d) d m)"
proof -
  have win: "dc_tsn d \<in> tsn_window c" "fst ` set m \<subseteq> tsn_window c"
    using assms by (auto simp: reorder_ok_def tsn_window_def)
  have "set (bt_insert tsn_cmp (dc_tsn d) d m) \<subseteq> insert (dc_tsn d, d) (set m)"
    by (induction m) (auto split: ordering.splits)
  then show ?thesis
    using assms tsn_order.sorted_insert [OF win, of d]
    by (auto simp: reorder_ok_def)
qed

lemma rx_inv_reorder:
  assumes "rx_inv s" and "tsn_cmp (dc_tsn d) (tsn_increase (rx_tsn_counter s)) = Greater"
    and "bt_lookup tsn_cmp (tsn_reorder_buffer s) (dc_tsn d) = None"
    and "current_in_buffer s + length (dc_buf d) \<le> in_buffer_limit s"
  shows "rx_inv (s\<lparr>current_in_buffer := current_in_buffer s + length (dc_buf d),
      tsn_reorder_buffer := bt_insert tsn_cmp (dc_tsn d) d (tsn_reorder_buffer s)\<rparr>)"
proof -
  have "reorder_bytes (bt_insert tsn_cmp (dc_tsn d) d (tsn_reorder_buffer s)) =
      reorder_bytes (tsn_reorder_buffer s) + length (dc_buf d)"
    using sum_bt_insert_new [OF assms(3), of "\<lambda>d. length (dc_buf d)"]
    by (simp add: reorder_bytes_def chunk_bytes_def comp_def)
  with assms reorder_insert show ?thesis
    by (auto simp: rx_inv_def rx_bytes_ok_def stored_bytes_def)
qed

lemma handle_data_chunk_inv:
  assumes "rx_inv s" and "handle_data_chunk s d = Ret s'"
  shows "rx_inv s'"
proof (cases "tsn_cmp (dc_tsn d) (tsn_increase (rx_tsn_counter s))")
  case Equal
  obtain t b where "handle_in_order_packet (length (tsn_reorder_buffer s)) s d = Ret (t, b)" "rx_inv t"
    using handle_in_order_ok [OF _ _ assms(1) order_refl] by blast
  with Equal assms(2) show ?thesis
    by (auto simp: handle_data_chunk_def split: if_splits intro: queue_ack_inv)
next
  case Greater
  with assms show ?thesis
    by (auto simp: handle_data_chunk_def Let_def split: if_splits intro: queue_ack_inv [OF rx_inv_reorder])
qed (use assms in \<open>simp add: handle_data_chunk_def\<close>)

subsection \<open>Runs\<close>

datatype 'f rx_op = RxNotify "'f rx_note" instant | RxPoll | RxDrain

fun rx_apply :: "'f rx_op \<Rightarrow> 'f assoc_rx \<Rightarrow> 'f assoc_rx rust" where
  "rx_apply (RxNotify n now) s = rx_notification s n now"
| "rx_apply RxPoll s = bindR (poll_data s) (\<lambda>(s, r). Ret s)"
| "rx_apply RxDrain s = Ret (fst (drain_tx_notifications s))"

lemma assoc_rx_new_inv: "rx_inv (assoc_rx_new i t n limit)"
  by (simp add: assoc_rx_new_def rx_inv_def rx_bytes_ok_def stored_bytes_def stream_bytes_def
      sum_list_replicate)

lemma handle_chunk_inv: "rx_inv s \<Longrightarrow> handle_chunk s c now = Ret s' \<Longrightarrow> rx_inv s'"
  by (cases c) (auto simp: handle_chunk_def intro: handle_data_chunk_inv)

lemma rx_poll_cases:
  assumes "rx_inv s"
  obtains (closed) "rx_shutdown_state s \<noteq> None" "poll_data s = Ret (s, PollError RxClosed)"
  | (empty) "rx_shutdown_state s = None" "unordered_receive_events s = []"
      "ordered_receive_events s = []" "poll_data s = Ret (s, NoneAvailable)"
  | (unordered) e es where "rx_shutdown_state s = None" "unordered_receive_events s = e # es"
      "chunk_bytes (ev_data e) \<le> current_in_buffer s"
      "poll_data s = Ret (s\<lparr>unordered_receive_events := es,
         current_in_buffer := current_in_buffer s - chunk_bytes (ev_data e)\<rparr>, PollData e)"
  | (ordered) e es where "rx_shutdown_state s = None" "unordered_receive_events s = []"
      "ordered_receive_events s = e # es" "chunk_bytes (ev_data e) \<le> current_in_buffer s"
      "poll_data s = Ret (s\<lparr>ordered_receive_events := es,
         current_in_buffer := current_in_buffer s - chunk_bytes (ev_data e)\<rparr>, PollData e)"
proof (cases "rx_shutdown_state s")
  case None
  note running = this
  show thesis
  proof (cases "unordered_receive_events s")
    case (Cons e es)
    then have "chunk_bytes (ev_data e) \<le> current_in_buffer s"
      using assms by (simp add: rx_inv_def rx_bytes_ok_def stored_bytes_def)
    with running Cons show thesis
      by (intro unordered) (simp_all add: poll_data_def pop_next_receive_event_def)
  next
    case Nil
    note none = this
    show thesis
    proof (cases "ordered_receive_events s")
      case (Cons e es)
      then have "chunk_bytes (ev_data e) \<le> current_in_buffer s"
        using assms by (simp add: rx_inv_def rx_bytes_ok_def stored_bytes_def)
      with running none Cons show thesis
        by (intro ordered) (simp_all add: poll_data_def pop_next_receive_event_def)
    next
      case Nil
      with running none show thesis
        by (intro empty) (simp_all add: poll_data_def pop_next_receive_event_def)
    qed
  qed
next
  case (Some x)
  then show thesis by (intro closed) (simp_all add: poll_data_def)
qed

lemma rx_poll_inv:
  assumes "rx_inv s" and "poll_data s = Ret (s', r)"
  shows "rx_inv s'"
  using assms(1)
  by (cases rule: rx_poll_cases;
      use assms in \<open>auto simp: rx_inv_def rx_bytes_ok_def stored_bytes_def\<close>)

lemma rx_apply_inv: "rx_inv s \<Longrightarrow> rx_apply e s = Ret s' \<Longrightarrow> rx_inv s'"
proof (cases e)
  case (RxNotify n now)
  moreover assume "rx_inv s" "rx_apply e s = Ret s'"
  ultimately show ?thesis
    by (cases n) (auto simp: outcome split: if_splits intro: handle_chunk_inv)
qed (auto simp: outcome drain_tx_notifications_def intro: rx_poll_inv)

interpretation rx_sys: invariant_system rx_apply "\<lambda>_. True" rx_inv
  by unfold_locales (rule rx_apply_inv)

text \<open>The only panic of an acknowledgement is one of its checked operations.\<close>

lemma ack_blocks_panic: "ack_blocks c x y ks = Panic p \<Longrightarrow> p = ArithOverflow"
  by (induction c x y ks rule: ack_blocks.induct)
     (auto simp: bindR_eq_Panic word_add_def word_sub_def split: if_splits)

lemma gap_blocks_panic: "gap_blocks s = Panic p \<Longrightarrow> p = ArithOverflow"
  by (auto simp: gap_blocks_def bindR_eq_Panic word_sub_def simp del: ack_blocks.simps
      dest!: ack_blocks_panic split: if_splits list.splits)

lemma queue_ack_panic: "queue_ack s = Panic p \<Longrightarrow> p = ArithOverflow"
  by (auto simp: queue_ack_def bindR_eq_Panic usize_sub_def Let_def dest: gap_blocks_panic
      split: if_splits)

lemma handle_data_chunk_panic:
  assumes "rx_inv s" and "handle_data_chunk s d = Panic p"
  shows "p = ArithOverflow"
proof -
  obtain t b where t: "handle_in_order_packet (length (tsn_reorder_buffer s)) s d = Ret (t, b)"
    using handle_in_order_ok [OF _ _ assms(1) order_refl] by blast
  show ?thesis
    by (cases "tsn_cmp (dc_tsn d) (tsn_increase (rx_tsn_counter s))")
       (use t assms(2) in \<open>auto simp: handle_data_chunk_def Let_def dest: queue_ack_panic split: if_splits\<close>)
qed

end
