(* ===== verification/Delivery.thy ===== *)
theory Delivery
  imports Rx_Inv Framing
begin

text \<open>
  What the receiver delivers. First, chunks that arrive in TSN order are put together to the
  messages that \<open>reassemble\<close> reads off them. Second, the order of arrival does not matter: any
  sequence of arrivals that contains the chunks of a feed, with any reordering and repetition,
  leaves the receiver with the same streams and the same events as the arrival in order.
\<close>

subsection \<open>In order\<close>

definition recv :: "data_chunk \<Rightarrow> 'f assoc_rx \<Rightarrow> 'f assoc_rx rust" where
  "recv d s = receive_in_order s d"

definition event_message :: "stream_receive_event \<Rightarrow> u16 \<times> u32 \<times> bool \<times> bytes" where
  "event_message e = (ev_stream e, ev_ppid e, ev_unordered e, concat (map dc_buf (ev_data e)))"

definition message_view :: "message \<Rightarrow> u16 \<times> u32 \<times> bool \<times> bytes" where
  "message_view m = (case m of ((stream, seq, ppid, unordered), data) \<Rightarrow> (stream, ppid, unordered, data))"

text \<open>The streams while a message is incomplete: its fragments are all that is queued.\<close>

fun queues_of :: "nat \<Rightarrow> message option \<Rightarrow> reassemble_queue list \<Rightarrow> bool" where
  "queues_of n None qs = (qs = replicate n [])"
| "queues_of n (Some ((st, sq, pp, un), b)) qs =
     (\<exists>cs. qs = (replicate n [])[unat st := [(sq, cs)]] \<and> concat (map dc_buf cs) = b)"

lemma replicate_update_same [simp]: "(replicate n x)[i := x] = replicate n x"
  by (induction n arbitrary: i) (auto split: nat.split)

lemma entry_push_empty: "entry_push [] d = [(dc_stream_seq_num d, [d])]"
  by (simp add: entry_push_def)

lemma entry_push_same: "entry_push [(dc_stream_seq_num d, cs)] d = [(dc_stream_seq_num d, cs @ [d])]"
  by (simp add: entry_push_def)

text \<open>One fragment that continues what was read so far.\<close>

lemma receive_fragment:
  assumes "queues_of n p (rx_per_stream s)" and "unat (dc_stream_id d) < n"
    and "case p of None \<Rightarrow> True | Some (h, _) \<Rightarrow> h = chunk_header d"
    and "\<not> dc_unordered d"
    and m: "m = (chunk_header d, (case p of None \<Rightarrow> [] | Some (_, b) \<Rightarrow> b) @ dc_buf d)"
  obtains s' where "recv d s = Ret s'"
    "queues_of n (if dc_end d then None else Some m) (rx_per_stream s')"
    "map event_message (ordered_receive_events s') =
       map event_message (ordered_receive_events s) @ (if dc_end d then [message_view m] else [])"
    "unordered_receive_events s' = unordered_receive_events s"
proof -
  let ?i = "unat (dc_stream_id d)"
  obtain cs where qi: "rx_per_stream s ! ?i = (if p = None then [] else [(dc_stream_seq_num d, cs)])"
    and qs: "rx_per_stream s = (replicate n [])[?i := rx_per_stream s ! ?i]"
    and bytes: "concat (map dc_buf (if p = None then [] else cs)) = (case p of None \<Rightarrow> [] | Some (_, b) \<Rightarrow> b)"
  proof (cases p)
    case None
    then show thesis
      using assms(1,2) by (intro that [of "[]"]) simp_all
  next
    case (Some hb)
    then obtain b where "hb = (chunk_header d, b)"
      using assms(3) by (cases hb) auto
    with Some assms(1,2) show thesis
      by (auto simp: chunk_header_def intro!: that)
  qed
  let ?full = "(if p = None then [] else cs) @ [d]"
  have push: "entry_push (rx_per_stream s ! ?i) d = [(dc_stream_seq_num d, ?full)]"
    by (simp add: qi entry_push_empty entry_push_same)
  have upd: "(rx_per_stream s)[?i := q] = (replicate n [])[?i := q]" for q
    by (subst qs) simp
  have "recv d s = Ret (let s = s\<lparr>rx_tsn_counter := tsn_increase (rx_tsn_counter s),
      current_in_buffer := current_in_buffer s + length (dc_buf d)\<rparr>
    in if dc_end d
       then s\<lparr>rx_per_stream := replicate n [], ordered_receive_events := ordered_receive_events s
           @ [\<lparr>ev_stream = dc_stream_id d, ev_ppid = dc_ppid d, ev_unordered = False, ev_data = ?full\<rparr>]\<rparr>
       else s\<lparr>rx_per_stream := (replicate n [])[?i := [(dc_stream_seq_num d, ?full)]]\<rparr>)"
    using assms(4) by (simp add: recv_def receive_in_order_def Let_def push upd)
  then show thesis
    by (rule that)
       (use assms(2,4) bytes in \<open>auto simp: Let_def m event_message_def message_view_def
          chunk_header_def split: option.splits\<close>)
qed

lemma in_order_messages:
  "reassemble p ds = Some (q, ms) \<Longrightarrow> queues_of n p (rx_per_stream s) \<Longrightarrow>
   list_all (\<lambda>d. unat (dc_stream_id d) < n \<and> \<not> dc_unordered d) ds \<Longrightarrow>
   \<exists>s'. runR recv ds s = Ret s' \<and> queues_of n q (rx_per_stream s')
     \<and> map event_message (ordered_receive_events s') =
         map event_message (ordered_receive_events s) @ map message_view ms
     \<and> unordered_receive_events s' = unordered_receive_events s"
proof (induction p ds arbitrary: s q ms rule: reassemble.induct)
  case (1 p)
  then show ?case by simp
next
  case (2 p d ds)
  define m where "m = (chunk_header d, (case p of None \<Rightarrow> [] | Some (_, b) \<Rightarrow> b) @ dc_buf d)"
  have cond: "case p of None \<Rightarrow> dc_begin d | Some (h', _) \<Rightarrow> \<not> dc_begin d \<and> h' = chunk_header d"
    using "2.prems"(1) by (auto simp: Let_def split: if_splits)
  obtain s1 where s1: "recv d s = Ret s1"
    "queues_of n (if dc_end d then None else Some m) (rx_per_stream s1)"
    "map event_message (ordered_receive_events s1) =
       map event_message (ordered_receive_events s) @ (if dc_end d then [message_view m] else [])"
    "unordered_receive_events s1 = unordered_receive_events s"
    by (rule receive_fragment [OF "2.prems"(2), of d m])
       (use "2.prems"(3) cond in \<open>auto simp: m_def split: option.splits\<close>)
  show ?case
  proof (cases "dc_end d")
    case True
    then obtain ns where "reassemble None ds = Some (q, ns)" "ms = m # ns"
      using "2.prems"(1) cond by (auto simp: Let_def m_def)
    then show ?thesis
      using "2.IH"(1) [OF refl cond refl True, of q ns s1] s1 "2.prems"(3) True by auto
  next
    case False
    then have "reassemble (Some m) ds = Some (q, ms)"
      using "2.prems"(1) cond by (simp add: Let_def m_def)
    then show ?thesis
      using "2.IH"(2) [OF refl cond refl False, folded m_def, of q ms s1] s1 "2.prems"(3) False
      by auto
  qed
qed

subsection \<open>Any order\<close>

text \<open>
  A feed: the chunks of consecutive TSNs from the initial one on, for known streams, within the
  buffer limit, and so few that neither the TSN comparison nor the arithmetic of the
  acknowledgements wraps.
\<close>

definition feed :: "tsn \<Rightarrow> nat \<Rightarrow> nat \<Rightarrow> data_chunk list \<Rightarrow> bool" where
  "feed init streams limit ds =
     ((\<forall>i < length ds. dc_tsn (ds ! i) = init + of_nat i)
      \<and> list_all (\<lambda>d. unat (dc_stream_id d) < streams \<and> \<not> dc_unordered d) ds
      \<and> chunk_bytes ds \<le> limit
      \<and> length ds \<le> 33554431
      \<and> (ds \<noteq> [] \<longrightarrow> 0 < unat init \<and> unat init + length ds \<le> 4294967295))"

lemma feed_tsn: "feed init st l ds \<Longrightarrow> i < length ds \<Longrightarrow> dc_tsn (ds ! i) = init + of_nat i"
  by (simp add: feed_def)

lemma feed_tsn_cmp:
  assumes "feed init st l ds" and "i < length ds" and "j < length ds"
  shows "tsn_cmp (dc_tsn (ds ! i)) (dc_tsn (ds ! j)) =
    (if i < j then Less else if i = j then Equal else Greater)"
proof -
  have len: "length ds \<le> 33554431" using assms(1) by (simp add: feed_def)
  consider "i < j" | "i = j" | "j < i" by linarith
  then show ?thesis
  proof cases
    case 1
    then have "tsn_cmp (init + of_nat j) (init + of_nat i) = Greater"
      using assms(3) len by (intro tsn_cmp_offsets) auto
    with 1 assms show ?thesis by (simp add: feed_tsn tsn_cmp_Greater_iff)
  next
    case 3
    then have "tsn_cmp (init + of_nat i) (init + of_nat j) = Greater"
      using assms(2) len by (intro tsn_cmp_offsets) auto
    with 3 assms show ?thesis by (simp add: feed_tsn)
  qed simp
qed

lemma feed_tsn_inj:
  assumes "feed init st l ds" and "i < length ds" and "j < length ds"
  shows "dc_tsn (ds ! i) = dc_tsn (ds ! j) \<longleftrightarrow> i = j"
  using feed_tsn_cmp [OF assms] by (auto split: if_splits)

text \<open>The part of the state that the arrival order must not influence.\<close>

definition rx_core where
  "rx_core s = (rx_id s, rx_tsn_counter s, ordered_receive_events s, unordered_receive_events s,
     rx_per_stream s, in_buffer_limit s, rx_shutdown_state s)"

lemma rx_core_frame [simp]:
  "rx_core (s\<lparr>last_sent_arwnd := w\<rparr>) = rx_core s"
  "rx_core (s\<lparr>tx_notifications := ns\<rparr>) = rx_core s"
  by (simp_all add: rx_core_def)

lemma recv_core:
  assumes "rx_core t = rx_core s" and "recv d t = Ret t'"
  obtains s' where "recv d s = Ret s'" "rx_core s' = rx_core t'"
    "tsn_reorder_buffer s' = tsn_reorder_buffer s"
    "current_in_buffer s' = current_in_buffer s + length (dc_buf d)"
    "tx_notifications s' = tx_notifications s"
  using assms
  by (auto simp: recv_def receive_in_order_def rx_core_def Let_def split: if_splits option.splits)

lemma recv_run_open: "runR recv ds s = Ret t \<Longrightarrow> rx_shutdown_state t = rx_shutdown_state s"
proof (induction ds arbitrary: s)
  case (Cons d ds)
  then obtain u where u: "recv d s = Ret u" "runR recv ds u = Ret t" by (auto simp: outcome)
  then have "rx_shutdown_state u = rx_shutdown_state s"
    by (auto simp: recv_def receive_in_order_def Let_def split: option.splits if_splits)
  with Cons u show ?case by simp
qed simp

lemma recv_run_ordered:
  "runR recv ds s = Ret t \<Longrightarrow> list_all (\<lambda>d. \<not> dc_unordered d) ds \<Longrightarrow>
     unordered_receive_events t = unordered_receive_events s"
proof (induction ds arbitrary: s)
  case (Cons d ds)
  then obtain u where u: "recv d s = Ret u" "runR recv ds u = Ret t" by (auto simp: outcome)
  then have "unordered_receive_events u = unordered_receive_events s"
    using Cons.prems(2) by (auto simp: recv_def receive_in_order_def Let_def split: option.splits if_splits)
  with Cons u show ?case by simp
qed simp

text \<open>The arrival of a data chunk at a time.\<close>

fun arrive :: "data_chunk \<times> instant \<Rightarrow> 'f assoc_rx \<Rightarrow> 'f assoc_rx rust" where
  "arrive (d, now) s = rx_notification s (RxChunk (CData d)) now"

text \<open>
  The receiver after the chunks \<open>0, \<dots>, k - 1\<close> arrived and were taken in order, and the later chunks
  \<open>J\<close> arrived and wait.
\<close>

definition entry :: "data_chunk list \<Rightarrow> nat \<Rightarrow> tsn \<times> data_chunk" where
  "entry ds i = (dc_tsn (ds ! i), ds ! i)"

definition fed :: "data_chunk list \<Rightarrow> 'f assoc_rx \<Rightarrow> nat \<Rightarrow> nat set \<Rightarrow> 'f assoc_rx \<Rightarrow> bool" where
  "fed ds s0 k J s =
     (k \<le> length ds \<and> J \<subseteq> {k..<length ds}
      \<and> (\<exists>t. runR recv (take k ds) s0 = Ret t \<and> rx_core s = rx_core t)
      \<and> rx_tsn_counter s = rx_tsn_counter s0 + of_nat k
      \<and> in_buffer_limit s = in_buffer_limit s0 \<and> length (rx_per_stream s) = length (rx_per_stream s0)
      \<and> set (tsn_reorder_buffer s) = entry ds ` J \<and> bt_sorted tsn_cmp (tsn_reorder_buffer s)
      \<and> current_in_buffer s =
          current_in_buffer s0 + chunk_bytes (take k ds) + (\<Sum>i \<in> J. length (dc_buf (ds ! i))))"

lemma chunk_bytes_disjoint:
  assumes "k \<le> length ds" and "J \<subseteq> {k..<length ds}"
  shows "chunk_bytes (take k ds) + (\<Sum>i \<in> J. length (dc_buf (ds ! i))) \<le> chunk_bytes ds"
proof -
  have "chunk_bytes (drop k ds) = (\<Sum>i = 0..<length ds - k. length (dc_buf (drop k ds ! i)))"
    by (simp add: chunk_bytes_def sum_list_sum_nth)
  also have "\<dots> = (\<Sum>i \<in> {k..<length ds}. length (dc_buf (ds ! i)))"
    using assms(1) sum.shift_bounds_nat_ivl [of "\<lambda>i. length (dc_buf (ds ! i))" 0 k "length ds - k"]
    by (simp add: add.commute)
  finally have "(\<Sum>i \<in> J. length (dc_buf (ds ! i))) \<le> chunk_bytes (drop k ds)"
    using assms(2) by (simp add: sum_mono2)
  moreover have "chunk_bytes ds = chunk_bytes (take k ds) + chunk_bytes (drop k ds)"
    by (metis append_take_drop_id chunk_bytes_simps(3))
  ultimately show ?thesis by simp
qed

text \<open>Facts about a feed and a receiver that started empty just below its first TSN.\<close>

locale feeding =
  fixes init :: tsn and streams limit :: nat and ds :: "data_chunk list"
    and s0 :: "'f assoc_rx"
  assumes feed: "feed init streams limit ds"
    and start: "rx_tsn_counter s0 = init - 1" "length (rx_per_stream s0) = streams"
      "in_buffer_limit s0 = limit" "current_in_buffer s0 = 0" "unordered_receive_events s0 = []"
begin

lemma fed_index:
  assumes "fed ds s0 k J s" and "i \<in> J"
  shows "k \<le> i" "i < length ds"
proof -
  have "J \<subseteq> {k..<length ds}" using assms(1) unfolding fed_def by blast
  with assms(2) have "i \<in> {k..<length ds}" by blast
  then show "k \<le> i" "i < length ds" by simp_all
qed

lemma entry_inj: "J \<subseteq> {k..<length ds} \<Longrightarrow> inj_on (entry ds) J"
proof (rule inj_onI)
  fix i j
  assume "J \<subseteq> {k..<length ds}" "i \<in> J" "j \<in> J" "entry ds i = entry ds j"
  then have "i < length ds" "j < length ds" "dc_tsn (ds ! i) = dc_tsn (ds ! j)"
    by (auto simp: entry_def)
  then show "i = j" using feed_tsn_inj [OF feed] by blast
qed

lemma next_tsn: "fed ds s0 k J s \<Longrightarrow> tsn_increase (rx_tsn_counter s) = init + of_nat k"
  by (simp add: fed_def start tsn_increase_def)

lemma next_tsn_nth: "fed ds s0 k J s \<Longrightarrow> k < length ds \<Longrightarrow> tsn_increase (rx_tsn_counter s) = dc_tsn (ds ! k)"
  using next_tsn feed_tsn [OF feed] by simp

lemma room:
  assumes "fed ds s0 k J s" and "i \<in> {k..<length ds}" and "i \<notin> J"
  shows "current_in_buffer s + length (dc_buf (ds ! i)) \<le> in_buffer_limit s"
proof -
  have "finite J" using assms(1) finite_subset by (auto simp: fed_def)
  then have "(\<Sum>j \<in> insert i J. length (dc_buf (ds ! j))) =
      (\<Sum>j \<in> J. length (dc_buf (ds ! j))) + length (dc_buf (ds ! i))"
    using assms(3) by simp
  moreover have "chunk_bytes (take k ds) + (\<Sum>j \<in> insert i J. length (dc_buf (ds ! j))) \<le> limit"
    using chunk_bytes_disjoint [of k ds "insert i J"] assms feed by (auto simp: fed_def feed_def)
  ultimately show ?thesis
    using assms(1) by (simp add: fed_def start)
qed

lemma known_stream:
  assumes "fed ds s0 k J s" and "i < length ds"
  shows "unat (dc_stream_id (ds ! i)) < length (rx_per_stream s)"
  using assms feed by (simp add: fed_def feed_def list_all_length start)

text \<open>The next chunk, when it is buffered, is the first of the buffer.\<close>

lemma first_buffered:
  assumes "fed ds s0 k J s" and "k \<in> J"
  obtains rest where "tsn_reorder_buffer s = entry ds k # rest" "set rest = entry ds ` (J - {k})"
    "bt_sorted tsn_cmp rest"
proof -
  have J: "J \<subseteq> {k..<length ds}" and set: "set (tsn_reorder_buffer s) = entry ds ` J"
    and sorted: "bt_sorted tsn_cmp (tsn_reorder_buffer s)"
    using assms(1) by (simp_all add: fed_def)
  then have "entry ds k \<in> set (tsn_reorder_buffer s)" using assms(2) by simp
  then obtain e rest where buf: "tsn_reorder_buffer s = e # rest"
    by (cases "tsn_reorder_buffer s") auto
  have less: "\<forall>x \<in> set rest. tsn_cmp (fst e) (fst x) = Less" "bt_sorted tsn_cmp rest"
    using sorted buf by (simp_all add: bt_sorted_def)
  obtain i where i: "i \<in> J" "e = entry ds i" using set buf by auto
  have "i = k"
  proof (rule ccontr)
    assume "i \<noteq> k"
    then have "entry ds k \<in> set rest"
      using \<open>entry ds k \<in> set (tsn_reorder_buffer s)\<close> buf i J assms(2) feed_tsn_inj [OF feed, of i k]
      by (auto simp: entry_def)
    then have "tsn_cmp (dc_tsn (ds ! i)) (dc_tsn (ds ! k)) = Less"
      using less(1) i by (auto simp: entry_def)
    moreover have "k < i" "i < length ds" using i J \<open>i \<noteq> k\<close> by force+
    ultimately show False
      using feed_tsn_cmp [OF feed, of i k] by simp
  qed
  moreover have "entry ds k \<notin> set rest"
    using less(1) i \<open>i = k\<close> by (auto simp: entry_def)
  then have "set rest = entry ds ` J - {entry ds k}"
    using set buf i \<open>i = k\<close> by auto
  moreover have "entry ds ` J - {entry ds k} = entry ds ` (J - {k})"
    using inj_on_image_set_diff [OF entry_inj [OF J], of J "{k}"] assms(2) by simp
  ultimately show thesis
    using that buf i less(2) by simp
qed

lemma drain_stops:
  assumes "fed ds s0 k J s" and "k \<notin> J"
  shows "drain_reordered n s = Ret s"
proof (cases "tsn_reorder_buffer s")
  case Nil
  then show ?thesis by (simp add: drain_reordered.simps)
next
  case (Cons e rest)
  then obtain i where i: "i \<in> J" "e = entry ds i"
    using assms(1) by (auto simp: fed_def)
  then have "k < i" "i < length ds"
    using fed_index [OF assms(1)] assms(2) le_neq_implies_less by blast+
  then have "fst e \<noteq> tsn_increase (rx_tsn_counter s)"
    using next_tsn_nth [OF assms(1)] feed_tsn_inj [OF feed, of i k] i by (simp add: entry_def)
  with Cons show ?thesis
    by (cases e) (simp add: drain_reordered.simps)
qed

lemma take_next:
  assumes "fed ds s0 k J s" and "k < length ds" and "k \<notin> J"
  obtains s' where "receive_in_order s (ds ! k) = Ret s'" "fed ds s0 (Suc k) J s'"
    "tx_notifications s' = tx_notifications s"
proof -
  obtain t where t: "runR recv (take k ds) s0 = Ret t" "rx_core s = rx_core t"
    using assms(1) by (auto simp: fed_def)
  obtain s' where s': "receive_in_order s (ds ! k) = Ret s'"
    "rx_tsn_counter s' = tsn_increase (rx_tsn_counter s)"
    "current_in_buffer s' = current_in_buffer s + length (dc_buf (ds ! k))"
    "tsn_reorder_buffer s' = tsn_reorder_buffer s" "rx_frame s' = rx_frame s"
    using receive_in_order_facts [OF known_stream [OF assms(1,2)]] by blast
  then have "recv (ds ! k) s = Ret s'" by (simp add: recv_def)
  then obtain t' where t': "recv (ds ! k) t = Ret t'" "rx_core t' = rx_core s'"
    using recv_core [of s t] t(2) by metis
  have "runR recv (take (Suc k) ds) s0 = Ret t'"
    using assms(2) t(1) t'(1) by (simp add: take_Suc_conv_app_nth runR_append runR_single)
  moreover have "J \<subseteq> {Suc k..<length ds}"
    using fed_index [OF assms(1)] assms(3) by (auto simp: Suc_le_eq) (metis le_neq_implies_less)
  moreover have "chunk_bytes (take (Suc k) ds) = chunk_bytes (take k ds) + length (dc_buf (ds ! k))"
    using assms(2) by (simp add: take_Suc_conv_app_nth)
  ultimately have "fed ds s0 (Suc k) J s'"
    using assms(1,2) s' t'(2) unfolding fed_def
    by (auto simp: rx_frame_def tsn_increase_def)
  with s' show thesis
    using that by (simp add: rx_frame_def)
qed

lemma pop_next:
  assumes "fed ds s0 k J s" and "k \<in> J" and "tsn_reorder_buffer s = entry ds k # rest"
    and "set rest = entry ds ` (J - {k})" and "bt_sorted tsn_cmp rest"
  shows "length (dc_buf (ds ! k)) \<le> current_in_buffer s"
    and "fed ds s0 k (J - {k}) (s\<lparr>tsn_reorder_buffer := rest,
           current_in_buffer := current_in_buffer s - length (dc_buf (ds ! k))\<rparr>)"
proof -
  have "J \<subseteq> {k..<length ds}" using assms(1) by (simp add: fed_def)
  then have "finite J" by (rule finite_subset) simp
  then have "(\<Sum>i \<in> J. length (dc_buf (ds ! i))) =
      length (dc_buf (ds ! k)) + (\<Sum>i \<in> J - {k}. length (dc_buf (ds ! i)))"
    using assms(2) by (rule sum.remove)
  then show "length (dc_buf (ds ! k)) \<le> current_in_buffer s"
    and "fed ds s0 k (J - {k}) (s\<lparr>tsn_reorder_buffer := rest,
           current_in_buffer := current_in_buffer s - length (dc_buf (ds ! k))\<rparr>)"
    using assms by (auto simp: fed_def rx_core_def)
qed

text \<open>A settled receiver has taken everything that it can.\<close>

definition settled :: "nat set \<Rightarrow> 'f assoc_rx \<Rightarrow> 'f assoc_rx \<Rightarrow> bool" where
  "settled seen s s' = (\<exists>k J. fed ds s0 k J s' \<and> k \<notin> J \<and> seen = {..<k} \<union> J
     \<and> tx_notifications s' = tx_notifications s)"

lemma in_order_settles:
  assumes drain: "\<And>s k J. fed ds s0 k J s \<Longrightarrow> card J \<le> n \<Longrightarrow>
      \<exists>s'. drain_reordered n s = Ret s' \<and> settled ({..<k} \<union> J) s s'"
    and "fed ds s0 k J s" and "k < length ds" and "k \<notin> J" and "card J \<le> n"
  shows "\<exists>s'. handle_in_order_packet n s (ds ! k) = Ret (s', True) \<and> settled (insert k ({..<k} \<union> J)) s s'"
proof -
  obtain s1 where s1: "receive_in_order s (ds ! k) = Ret s1" "fed ds s0 (Suc k) J s1"
    "tx_notifications s1 = tx_notifications s"
    using take_next [OF assms(2-4)] by blast
  obtain s2 where "drain_reordered n s1 = Ret s2" "settled ({..<Suc k} \<union> J) s1 s2"
    using drain [OF s1(2) assms(5)] by blast
  moreover have "{..<Suc k} \<union> J = insert k ({..<k} \<union> J)" by (auto simp: less_Suc_eq)
  ultimately show ?thesis
    using s1 known_stream [OF assms(2,3)] room [OF assms(2) _ assms(4)] assms(3)
    by (auto simp: handle_in_order_packet.simps settled_def)
qed

lemma drain_settles:
  "fed ds s0 k J s \<Longrightarrow> card J \<le> n \<Longrightarrow>
     \<exists>s'. drain_reordered n s = Ret s' \<and> settled ({..<k} \<union> J) s s'"
proof (induction n arbitrary: s k J)
  case 0
  then have "J = {}"
    using fed_index [OF 0(1)] finite_subset [of J "{k..<length ds}"] by (auto simp: fed_def)
  then show ?case
    using drain_stops [OF 0(1)] 0(1) by (auto simp: settled_def)
next
  case (Suc n)
  show ?case
  proof (cases "k \<in> J")
    case False
    then show ?thesis
      using drain_stops [OF Suc.prems(1)] Suc.prems(1) by (auto simp: settled_def)
  next
    case True
    obtain rest where rest: "tsn_reorder_buffer s = entry ds k # rest"
      "set rest = entry ds ` (J - {k})" "bt_sorted tsn_cmp rest"
      using first_buffered [OF Suc.prems(1) True] by blast
    let ?s = "s\<lparr>tsn_reorder_buffer := rest,
        current_in_buffer := current_in_buffer s - length (dc_buf (ds ! k))\<rparr>"
    note pop = pop_next [OF Suc.prems(1) True rest]
    have k: "k < length ds" using fed_index [OF Suc.prems(1) True] by simp
    have "finite J"
      using Suc.prems(1) finite_subset [of J "{k..<length ds}"] by (auto simp: fed_def)
    then have card: "card (J - {k}) \<le> n"
      using Suc.prems(2) True by simp
    obtain s1 where s1: "handle_in_order_packet n ?s (ds ! k) = Ret (s1, True)"
      "settled (insert k ({..<k} \<union> (J - {k}))) ?s s1"
      using in_order_settles [OF Suc.IH pop(2) k _ card] by auto
    then have "drain_reordered n s1 = Ret s1"
      using drain_stops by (auto simp: settled_def)
    moreover have "insert k ({..<k} \<union> (J - {k})) = {..<k} \<union> J" using True by auto
    moreover have "fst (entry ds k) = tsn_increase (rx_tsn_counter s)"
      using next_tsn_nth [OF Suc.prems(1) k] by (simp add: entry_def)
    ultimately show ?thesis
      using s1 pop(1) rest(1) by (subst drain_reordered.simps) (auto simp: entry_def settled_def)
  qed
qed

lemma feed_unat:
  assumes "i < length ds"
  shows "unat (dc_tsn (ds ! i)) = unat init + i"
proof -
  have "unat init + i \<le> 4294967295" "ds \<noteq> []" using feed assms by (auto simp: feed_def)
  then have "unat (init + of_nat i) = unat init + i"
    by (simp add: unat_u32_add unat_of_nat mod_add_right_eq)
  with feed_tsn [OF feed assms] show ?thesis by simp
qed

lemma above:
  assumes "fed ds s0 k J s"
  shows "reorder_above s"
  unfolding reorder_above_def
proof
  fix t
  assume "t \<in> fst ` set (tsn_reorder_buffer s)"
  then obtain i where i: "i \<in> J" "t = dc_tsn (ds ! i)"
    using assms by (auto simp: fed_def entry_def)
  note ki = fed_index [OF assms i(1)]
  have "unat (tsn_increase (rx_tsn_counter s)) = unat init + k" "0 < unat init"
    using next_tsn_nth [OF assms] feed_unat [of k] ki feed by (auto simp: feed_def)
  then have "unat (rx_tsn_counter s) + 1 = unat init + k"
    by (auto simp: unat_tsn_increase split: if_splits)
  with i ki feed_unat [OF ki(2)] show "unat (rx_tsn_counter s) < unat t" by simp
qed

lemma fed_queue_ack: "queue_ack s = Ret s' \<Longrightarrow> fed ds s0 k J s \<Longrightarrow> fed ds s0 k J s'"
  by (erule queue_ack_cases) (simp add: fed_def rx_core_frame push_tx_def)

lemma arrival_cmp:
  assumes "fed ds s0 k J s" and "i < length ds"
  shows "tsn_cmp (dc_tsn (ds ! i)) (tsn_increase (rx_tsn_counter s)) =
    (if i < k then Less else if i = k then Equal else Greater)"
proof (cases "k < length ds")
  case True
  then show ?thesis
    using next_tsn_nth [OF assms(1)] feed_tsn_cmp [OF feed assms(2)] by simp
next
  case False
  then have "i < k" "k \<le> 33554431"
    using assms feed by (auto simp: fed_def feed_def)
  then have "tsn_cmp (init + of_nat i) (init + of_nat k) = Less"
    using tsn_cmp_offsets tsn_cmp_Greater_iff by blast
  with \<open>i < k\<close> show ?thesis
    using next_tsn [OF assms(1)] feed_tsn [OF feed assms(2)] by simp
qed

lemma buffered_iff:
  assumes "fed ds s0 k J s" and "rx_inv s" and "k < i" and "i < length ds"
  shows "bt_lookup tsn_cmp (tsn_reorder_buffer s) (dc_tsn (ds ! i)) = None \<longleftrightarrow> i \<notin> J"
proof -
  let ?m = "tsn_reorder_buffer s" and ?c = "tsn_increase (rx_tsn_counter s)"
  have "fst ` set ?m \<subseteq> tsn_window ?c" "bt_sorted tsn_cmp ?m" "dc_tsn (ds ! i) \<in> tsn_window ?c"
    using assms(2,3) arrival_cmp [OF assms(1,4)]
    by (auto simp: rx_inv_def reorder_ok_def tsn_window_def)
  then have "bt_lookup tsn_cmp ?m (dc_tsn (ds ! i)) = map_of ?m (dc_tsn (ds ! i))"
    by (intro tsn_order.lookup_map_of)
  moreover have "dc_tsn (ds ! i) \<in> fst ` set ?m \<longleftrightarrow> i \<in> J"
    using assms(1,4) fed_index [OF assms(1)] feed_tsn_inj [OF feed assms(4)]
    by (auto simp: fed_def entry_def image_iff)
  ultimately show ?thesis
    by (simp add: map_of_eq_None_iff)
qed

lemma fed_buffer:
  assumes "fed ds s0 k J s" and "rx_inv s" and "k < i" and "i < length ds" and "i \<notin> J"
  shows "fed ds s0 k (insert i J) (s\<lparr>current_in_buffer := current_in_buffer s + length (dc_buf (ds ! i)),
      tsn_reorder_buffer := bt_insert tsn_cmp (dc_tsn (ds ! i)) (ds ! i) (tsn_reorder_buffer s)\<rparr>)"
proof -
  let ?m = "tsn_reorder_buffer s"
  have "bt_lookup tsn_cmp ?m (dc_tsn (ds ! i)) = None"
    using buffered_iff [OF assms(1-4)] assms(5) by simp
  then have "set (bt_insert tsn_cmp (dc_tsn (ds ! i)) (ds ! i) ?m) = insert (entry ds i) (set ?m)"
    by (auto simp: set_bt_insert_new entry_def)
  moreover have "bt_sorted tsn_cmp (bt_insert tsn_cmp (dc_tsn (ds ! i)) (ds ! i) ?m)"
    using reorder_insert [of "tsn_increase (rx_tsn_counter s)" ?m "ds ! i"] assms(2,3)
      arrival_cmp [OF assms(1,4)] by (auto simp: rx_inv_def reorder_ok_def)
  moreover have "finite J"
    using assms(1) finite_subset [of J "{k..<length ds}"] by (auto simp: fed_def)
  ultimately show ?thesis
    using assms(1,3-5) by (auto simp: fed_def rx_core_def)
qed

lemma arrival:
  assumes "fed ds s0 k J s" and "k \<notin> J" and "rx_inv s" and "i < length ds"
  shows "\<exists>s' k' J'. handle_data_chunk s (ds ! i) = Ret s' \<and> rx_inv s' \<and> fed ds s0 k' J' s'
    \<and> k' \<notin> J' \<and> {..<k'} \<union> J' = insert i ({..<k} \<union> J)"
proof -
  consider "i < k \<or> i \<in> J" | "i = k" | "k < i" "i \<notin> J" by linarith
  then show ?thesis
  proof cases
    case 1
    then have "i < k \<or> k < i \<and> i \<in> J"
      using fed_index [OF assms(1)] assms(2) le_neq_implies_less by blast
    then have "handle_data_chunk s (ds ! i) = Ret s"
      using arrival_cmp [OF assms(1,4)] buffered_iff [OF assms(1,3) _ assms(4)]
      by (auto simp: handle_data_chunk_def)
    moreover have "{..<k} \<union> J = insert i ({..<k} \<union> J)" using 1 by auto
    ultimately show ?thesis using assms by blast
  next
    case 2
    let ?n = "length (tsn_reorder_buffer s)"
    have "card J = card (set (tsn_reorder_buffer s))"
      using assms(1) card_image [OF entry_inj, of J k] by (simp add: fed_def)
    then have card: "card J \<le> ?n" by (simp add: card_length)
    obtain s1 where s1: "handle_in_order_packet ?n s (ds ! i) = Ret (s1, True)"
      "settled (insert k ({..<k} \<union> J)) s s1"
      using in_order_settles [OF drain_settles assms(1) _ assms(2) card] 2 assms(4) by blast
    then obtain k' J' where kJ: "fed ds s0 k' J' s1" "k' \<notin> J'" "insert k ({..<k} \<union> J) = {..<k'} \<union> J'"
      by (auto simp: settled_def)
    have inv1: "rx_inv s1"
      using handle_in_order_ok [OF _ _ assms(3) order_refl, of "ds ! i"] s1(1) by auto
    obtain s2 where s2: "queue_ack s1 = Ret s2"
      using queue_ack_returns [OF inv1 above [OF kJ(1)]] by (auto simp: returns_iff)
    then have "handle_data_chunk s (ds ! i) = Ret s2"
      using s1(1) 2 arrival_cmp [OF assms(1,4)] by (simp add: handle_data_chunk_def)
    with s2 kJ inv1 2 show ?thesis
      using fed_queue_ack queue_ack_inv by blast
  next
    case 3
    let ?s = "s\<lparr>current_in_buffer := current_in_buffer s + length (dc_buf (ds ! i)),
      tsn_reorder_buffer := bt_insert tsn_cmp (dc_tsn (ds ! i)) (ds ! i) (tsn_reorder_buffer s)\<rparr>"
    have cmp: "tsn_cmp (dc_tsn (ds ! i)) (tsn_increase (rx_tsn_counter s)) = Greater"
      using arrival_cmp [OF assms(1,4)] 3 by simp
    have look: "bt_lookup tsn_cmp (tsn_reorder_buffer s) (dc_tsn (ds ! i)) = None"
      using buffered_iff [OF assms(1,3) 3(1) assms(4)] 3 by simp
    have room: "current_in_buffer s + length (dc_buf (ds ! i)) \<le> in_buffer_limit s"
      using room [OF assms(1)] 3 assms(4) by simp
    have fed: "fed ds s0 k (insert i J) ?s" by (rule fed_buffer [OF assms(1,3) 3(1) assms(4) 3(2)])
    have inv: "rx_inv ?s" by (rule rx_inv_reorder [OF assms(3) cmp look room])
    obtain s2 where s2: "queue_ack ?s = Ret s2"
      using queue_ack_returns [OF inv above [OF fed]] by (auto simp: returns_iff)
    then have "handle_data_chunk s (ds ! i) = Ret s2"
      using cmp look room by (simp add: handle_data_chunk_def Let_def)
    with s2 fed inv 3 assms(2) show ?thesis
      using fed_queue_ack [OF s2 fed] queue_ack_inv [OF inv s2]
      by (intro exI [of _ s2] exI [of _ k] exI [of _ "insert i J"]) auto
  qed
qed

lemma fed_ordered:
  assumes "fed ds s0 k J s"
  shows "unordered_receive_events s = []"
proof -
  obtain t where t: "runR recv (take k ds) s0 = Ret t" "rx_core s = rx_core t"
    using assms by (auto simp: fed_def)
  moreover have "list_all (\<lambda>d. \<not> dc_unordered d) (take k ds)"
    using feed by (auto simp: feed_def list_all_iff dest: in_set_takeD)
  ultimately show ?thesis
    using recv_run_ordered [OF t(1)] start by (simp add: rx_core_def)
qed

lemma arrive_step:
  assumes "fed ds s0 k J s" and "k \<notin> J" and "rx_inv s" and "d \<in> set ds"
  shows "\<exists>s' k' J'. arrive (d, now) s = Ret s' \<and> rx_inv s' \<and> fed ds s0 k' J' s'
    \<and> k' \<notin> J' \<and> (!) ds ` ({..<k'} \<union> J') = insert d ((!) ds ` ({..<k} \<union> J))"
proof -
  obtain i where i: "i < length ds" "d = ds ! i"
    using assms(4) by (auto simp: in_set_conv_nth)
  obtain s' k' J' where s': "handle_data_chunk s (ds ! i) = Ret s'" "rx_inv s'" "fed ds s0 k' J' s'"
    "k' \<notin> J'" "{..<k'} \<union> J' = insert i ({..<k} \<union> J)"
    using arrival [OF assms(1-3) i(1)] by blast
  have "rx_assert_invariants s'"
    using fed_ordered [OF s'(3)] s'(2)
    by (simp add: rx_inv_def rx_bytes_ok_def stored_bytes_def rx_assert_invariants_def)
  then have "arrive (d, now) s = Ret s'"
    using s'(1) i(2) by (simp add: handle_chunk_def)
  moreover have "(!) ds ` ({..<k'} \<union> J') = insert d ((!) ds ` ({..<k} \<union> J))"
    using i(2) by (simp add: s'(5))
  ultimately show ?thesis using s' by blast
qed

lemma arrivals:
  "fed ds s0 k J s \<Longrightarrow> k \<notin> J \<Longrightarrow> rx_inv s \<Longrightarrow> fst ` set xs \<subseteq> set ds \<Longrightarrow>
   \<exists>s' k' J'. runR arrive xs s = Ret s' \<and> rx_inv s' \<and> fed ds s0 k' J' s' \<and> k' \<notin> J'
    \<and> (!) ds ` ({..<k'} \<union> J') = fst ` set xs \<union> (!) ds ` ({..<k} \<union> J)"
proof (induction xs arbitrary: s k J)
  case Nil
  then show ?case by auto
next
  case (Cons x xs)
  obtain d now where x: "x = (d, now)" by (cases x)
  have "d \<in> set ds" using Cons.prems(4) x by simp
  then obtain s1 k1 J1 where s1: "arrive x s = Ret s1" "rx_inv s1" "fed ds s0 k1 J1 s1" "k1 \<notin> J1"
    "(!) ds ` ({..<k1} \<union> J1) = insert d ((!) ds ` ({..<k} \<union> J))"
    using arrive_step [OF Cons.prems(1-3), of d now] x by blast
  obtain s2 k2 J2 where "runR arrive xs s1 = Ret s2" "rx_inv s2" "fed ds s0 k2 J2 s2" "k2 \<notin> J2"
    "(!) ds ` ({..<k2} \<union> J2) = fst ` set xs \<union> (!) ds ` ({..<k1} \<union> J1)"
    using Cons.IH [OF s1(3,4,2)] Cons.prems(4) by auto
  with s1 x show ?case by auto
qed

text \<open>When every chunk arrived, nothing is left to wait for.\<close>

lemma all_arrived:
  assumes "fed ds s0 k J s" and "k \<notin> J" and "set ds \<subseteq> (!) ds ` ({..<k} \<union> J)"
  shows "k = length ds" "J = {}"
proof -
  have J: "J \<subseteq> {k..<length ds}" and k: "k \<le> length ds" using assms(1) by (simp_all add: fed_def)
  show "k = length ds"
  proof (rule ccontr)
    assume "k \<noteq> length ds"
    then have lt: "k < length ds" using k by simp
    then have "ds ! k \<in> (!) ds ` ({..<k} \<union> J)" using assms(3) nth_mem by blast
    then obtain i where i: "i \<in> {..<k} \<union> J" "ds ! k = ds ! i" by blast
    have "i < length ds" using i(1) J k by auto
    then have "k = i" using feed_tsn_inj [OF feed lt, of i] arg_cong [OF i(2), of dc_tsn] by blast
    with i(1) assms(2) show False by simp
  qed
  with J show "J = {}" by auto
qed

lemma arrivals_complete:
  assumes "rx_inv s0" and "tsn_reorder_buffer s0 = []" and "fst ` set xs = set ds"
  obtains s t where "runR arrive xs s0 = Ret s" "runR recv ds s0 = Ret t" "rx_core s = rx_core t"
    "tsn_reorder_buffer s = []" "rx_inv s" "current_in_buffer s = chunk_bytes ds"
proof -
  have "fed ds s0 0 {} s0"
    using assms(2) by (simp add: fed_def bt_sorted_def)
  then obtain s k J where s: "runR arrive xs s0 = Ret s" "rx_inv s" "fed ds s0 k J s" "k \<notin> J"
    "(!) ds ` ({..<k} \<union> J) = fst ` set xs"
    using arrivals [of 0 "{}" s0 xs] assms by auto
  then have "k = length ds" "J = {}"
    using all_arrived [OF s(3,4)] assms(3) by auto
  with s(1-3) show thesis
    by (auto simp: fed_def start intro: that)
qed

end

text \<open>
  The contract on the model's receiver: a fresh receiver and a feed that was checked to be one
  (the empty feed otherwise).
\<close>

definition checked_feed :: "tsn \<Rightarrow> nat \<Rightarrow> nat \<Rightarrow> data_chunk list \<Rightarrow> data_chunk list" where
  "checked_feed init streams limit ds = (if feed init streams limit ds then ds else [])"

interpretation rx_feed: feeding init "unat n" limit "checked_feed init (unat n) limit ds"
  "assoc_rx_new i init n limit" for init :: tsn and n :: u16 and limit ds i
  by unfold_locales
     (simp_all add: checked_feed_def feed_def assoc_rx_new_def tsn_decrease_def)

lemma fresh_arrivals:
  assumes "feed init (unat n) limit ds" and "fst ` set xs = set ds"
  obtains s t :: "'f assoc_rx" where "runR arrive xs (assoc_rx_new i init n limit) = Ret s"
    "runR recv ds (assoc_rx_new i init n limit) = Ret t" "rx_core s = rx_core t"
    "tsn_reorder_buffer s = []" "rx_inv s" "current_in_buffer s = chunk_bytes ds"
proof -
  have checked: "checked_feed init (unat n) limit ds = ds"
    using assms(1) by (simp add: checked_feed_def)
  have empty: "tsn_reorder_buffer (assoc_rx_new i init n limit) = []"
    by (simp add: assoc_rx_new_def)
  show thesis
    by (rule rx_feed.arrivals_complete [where ds = ds and n = n and limit = limit and init = init and i = i,
          unfolded checked, OF assoc_rx_new_inv empty assms(2)])
       (rule that; assumption)
qed

subsection \<open>Reading\<close>

text \<open>An application that polls a number of times, and what it is given.\<close>

fun polls :: "nat \<Rightarrow> 'f assoc_rx \<Rightarrow> ('f assoc_rx \<times> poll_data_result list) rust" where
  "polls 0 s = Ret (s, [])"
| "polls (Suc n) s = bindR (poll_data s) (\<lambda>(s, r). bindR (polls n s) (\<lambda>(s, rs). Ret (s, r # rs)))"

lemma polls_events:
  "rx_inv s \<Longrightarrow> rx_shutdown_state s = None \<Longrightarrow> unordered_receive_events s = [] \<Longrightarrow>
   ordered_receive_events s = es \<Longrightarrow>
   \<exists>s'. polls (length es) s = Ret (s', map PollData es) \<and> poll_data s' = Ret (s', NoneAvailable)
     \<and> current_in_buffer s' + event_bytes es = current_in_buffer s"
proof (induction es arbitrary: s)
  case Nil
  then show ?case by (simp add: poll_data_def pop_next_receive_event_def)
next
  case (Cons e es)
  let ?s = "s\<lparr>ordered_receive_events := es, current_in_buffer := current_in_buffer s - chunk_bytes (ev_data e)\<rparr>"
  have poll: "poll_data s = Ret (?s, PollData e)" "chunk_bytes (ev_data e) \<le> current_in_buffer s"
    using Cons.prems(1) by (cases rule: rx_poll_cases; use Cons.prems in simp)+
  then obtain s' where "polls (length es) ?s = Ret (s', map PollData es)"
    "poll_data s' = Ret (s', NoneAvailable)" "current_in_buffer s' + event_bytes es = current_in_buffer ?s"
    using Cons.IH [of ?s] rx_poll_inv [OF Cons.prems(1) poll(1)] Cons.prems by auto
  with poll show ?case by auto
qed

lemma delivered:
  assumes "feed init (unat n) limit ds" and "fst ` set xs = set ds"
    and "reassemble None ds = Some (p, ms)"
  obtains s s' :: "'f assoc_rx" and es where "runR arrive xs (assoc_rx_new i init n limit) = Ret s"
    "polls (length ms) s = Ret (s', map PollData es)" "map event_message es = map message_view ms"
    "poll_data s' = Ret (s', NoneAvailable)"
    "current_in_buffer s = chunk_bytes ds" "current_in_buffer s' + event_bytes es = chunk_bytes ds"
proof -
  let ?s0 = "assoc_rx_new i init n limit :: 'f assoc_rx"
  obtain s t :: "'f assoc_rx" where st: "runR arrive xs ?s0 = Ret s" "runR recv ds ?s0 = Ret t" "rx_core s = rx_core t"
    "rx_inv s" "current_in_buffer s = chunk_bytes ds"
    using fresh_arrivals [OF assms(1,2)] by metis
  have "list_all (\<lambda>d. unat (dc_stream_id d) < unat n \<and> \<not> dc_unordered d) ds"
    using assms(1) by (simp add: feed_def)
  moreover have "queues_of (unat n) None (rx_per_stream ?s0)"
    by (simp add: assoc_rx_new_def)
  ultimately have "map event_message (ordered_receive_events t) =
      map event_message (ordered_receive_events ?s0) @ map message_view ms"
    "unordered_receive_events t = unordered_receive_events ?s0"
    using in_order_messages [OF assms(3), of "unat n" ?s0] st(2) by auto
  then have ev: "map event_message (ordered_receive_events s) = map message_view ms"
    "unordered_receive_events s = []"
    using st(3) by (simp_all add: rx_core_def assoc_rx_new_def)
  have "rx_shutdown_state s = None"
    using recv_run_open [OF st(2)] st(3) by (simp add: rx_core_def assoc_rx_new_def)
  then obtain s' where "polls (length (ordered_receive_events s)) s = Ret (s', map PollData (ordered_receive_events s))"
    "poll_data s' = Ret (s', NoneAvailable)"
    "current_in_buffer s' + event_bytes (ordered_receive_events s) = current_in_buffer s"
    using polls_events [OF st(4) _ ev(2) refl] by blast
  moreover have "length (ordered_receive_events s) = length ms"
    using arg_cong [OF ev(1), of length] by simp
  ultimately show thesis
    using st ev by (intro that [of s s' "ordered_receive_events s"]) auto
qed

subsection \<open>Properties\<close>


definition demo_feed :: "data_chunk list" where
  "demo_feed =
     (let d = \<lparr>dc_tsn = 10, dc_stream_id = 0, dc_stream_seq_num = 0, dc_ppid = 7, dc_buf = [1, 2],
        dc_immediate = False, dc_unordered = False, dc_begin = True, dc_end = False\<rparr>
      in [d, d\<lparr>dc_tsn := 11, dc_begin := False, dc_end := True, dc_buf := [3]\<rparr>,
          d\<lparr>dc_tsn := 12, dc_stream_id := 1, dc_end := True, dc_buf := [4]\<rparr>])"

lemma demo_feed: "feed 10 (unat (2 :: u16)) 100 demo_feed"
proof -
  have "dc_tsn (demo_feed ! i) = 10 + of_nat i" if "i < length demo_feed" for i
  proof -
    have "i = 0 \<or> i = 1 \<or> i = 2" using that by (auto simp: demo_feed_def Let_def)
    then show ?thesis by (auto simp: demo_feed_def Let_def)
  qed
  then show ?thesis
    by (simp add: feed_def) (simp add: demo_feed_def Let_def)
qed


text \<open>
  What the application reads. When the chunks of a feed stand for some messages, then after
  any sequence of arrivals that contains each chunk at least once, polling returns exactly these
  messages, each once and in the order in which they were sent, with their stream, protocol
  identifier and bytes; then nothing is available, and the bytes read were given back to the
  receive window.
\<close>

theorem delivered_messages:
  assumes "feed init (unat n) limit ds" and "fst ` set xs = set ds"
    and "reassemble None ds = Some (p, ms)"
  shows "\<exists>s s' es. runR arrive xs (assoc_rx_new i init n limit) = Ret (s :: 'f assoc_rx)
    \<and> polls (length ms) s = Ret (s', map PollData es)
    \<and> map event_message es = map message_view ms
    \<and> poll_data s' = Ret (s', NoneAvailable)
    \<and> current_in_buffer s' + event_bytes es = chunk_bytes ds"
  by (rule delivered [OF assms, where 'f = 'f]) auto

theorem delivered_messages_witness:
  "\<exists>s s' es. runR arrive (map (\<lambda>d. (d, 0)) (rev demo_feed)) (assoc_rx_new (AssocId 1) 10 2 100) = Ret (s :: unit assoc_rx)
    \<and> polls 2 s = Ret (s', map PollData es)
    \<and> map event_message es = [(0, 7, False, [1, 2, 3]), (1, 7, False, [4])]"
proof -
  have "reassemble None demo_feed = Some (None, [((0, 0, 7, False), [1, 2, 3]), ((1, 0, 7, False), [4])])"
    by (simp add: demo_feed_def Let_def chunk_header_def)
  from delivered_messages [OF demo_feed _ this, of "map (\<lambda>d. (d, 0)) (rev demo_feed)" "AssocId 1", where 'f = unit]
  show ?thesis
    by (fastforce simp: image_image message_view_def numeral_2_eq_2)
qed

end
