(* ===== verification/Rx_Props.thy ===== *)
theory Rx_Props
  imports Rx_Inv
begin

text \<open>
  Properties of the receiver: what holds in every reachable state, what an acknowledgement says
  about the reorder buffer, how chunks other than data are passed on, and where the receiver
  panics or stalls.
\<close>

subsection \<open>Gap blocks\<close>

text \<open>The offsets that a list of gap blocks covers, both ends included.\<close>

definition covered :: "(u16 \<times> u16) list \<Rightarrow> nat set" where
  "covered bs = (\<Union>(a, b) \<in> set bs. {unat a..unat b})"

lemma covered_simps [simp]:
  "covered [] = {}" "covered ((a, b) # bs) = {unat a..unat b} \<union> covered bs"
  by (auto simp: covered_def)

lemma unat_offset:
  fixes x c :: u32
  assumes "unat c \<le> unat x" and "unat x - unat c < 65536"
  shows "unat (ucast (x - c) :: u16) = unat x - unat c"
proof -
  have "unat (x - c) = unat x - unat c"
    using assms(1) by (simp add: unat_sub word_le_nat_alt)
  with assms(2) show ?thesis
    by (simp add: unsigned_ucast_eq unsigned_take_bit_eq take_bit_eq_mod)
qed

text \<open>The buffered TSNs lie numerically above the counter and within the reach of 16 bits.\<close>

definition in_reach :: "tsn \<Rightarrow> tsn \<Rightarrow> bool" where
  "in_reach c k = (unat c < unat k \<and> unat k - unat c < 65536)"

lemma ack_blocks_covered:
  "sorted_wrt (<) (map unat (block_end # ks)) \<Longrightarrow> list_all (in_reach c) (block_start # ks) \<Longrightarrow>
   unat c \<le> unat block_end \<Longrightarrow> unat block_end - unat c < 65536 \<Longrightarrow> unat block_start \<le> unat block_end + 1 \<Longrightarrow>
   \<exists>bs. ack_blocks c block_start block_end ks = Ret bs \<and>
     covered bs = {unat block_start - unat c..unat block_end - unat c} \<union> (\<lambda>k. unat k - unat c) ` set ks"
proof (induction c block_start block_end ks rule: ack_blocks.induct)
  case (1 c a b)
  then show ?case by (simp add: unat_offset in_reach_def)
next
  case (2 c a b k ks)
  have lt: "unat b < unat k" using "2.prems"(1) by simp
  then have b1: "unat b + 1 < 2 ^ 32" "unat (b + 1) = unat b + 1"
    using unat_u32_bound [of k] by (simp_all add: unat_u32_add)
  then have nxt: "word_add b 1 = Ret (b + 1)" by (simp add: word_add_def)
  have k: "in_reach c k" "in_reach c a" "list_all (in_reach c) ks" using "2.prems"(2) by simp_all
  show ?case
  proof (cases "k = b + 1")
    case True
    then obtain bs where bs: "ack_blocks c a k ks = Ret bs"
      "covered bs = {unat a - unat c..unat k - unat c} \<union> (\<lambda>k. unat k - unat c) ` set ks"
      using "2.IH"(1) [of "b + 1"] "2.prems" nxt b1(2) by (auto simp: in_reach_def)
    have "unat a - unat c \<le> unat b - unat c + 1" "unat k - unat c = Suc (unat b - unat c)"
      using True b1(2) "2.prems"(3,5) by auto
    then have "{unat a - unat c..unat k - unat c} = insert (unat k - unat c) {unat a - unat c..unat b - unat c}"
      by (simp add: atLeastAtMostSuc_conv)
    with bs nxt True show ?thesis by simp
  next
    case False
    have sub: "word_sub a c = Ret (a - c)" "word_sub b c = Ret (b - c)"
      using "2.prems"(3) k by (simp_all add: word_sub_def word_le_nat_alt in_reach_def)
    have "sorted_wrt (<) (map unat (k # ks))" using "2.prems"(1) by simp
    then obtain bs where bs: "ack_blocks c k k ks = Ret bs"
      "covered bs = {unat k - unat c..unat k - unat c} \<union> (\<lambda>k. unat k - unat c) ` set ks"
      using "2.IH"(2) [OF nxt False sub, unfolded list.pred_inject in_reach_def [of c k]] k
      unfolding in_reach_def [of c k] by auto
    with nxt False sub k "2.prems"(3,4) show ?thesis
      by (simp add: unat_offset in_reach_def)
  qed
qed

lemma gap_blocks_covered:
  assumes "rx_inv s" and "list_all (\<lambda>e. in_reach (rx_tsn_counter s) (fst e)) (tsn_reorder_buffer s)"
  shows "\<exists>bs. gap_blocks s = Ret bs \<and>
    covered bs = (\<lambda>e. unat (fst e) - unat (rx_tsn_counter s)) ` set (tsn_reorder_buffer s)"
proof (cases "tsn_reorder_buffer s")
  case Nil
  then show ?thesis by (simp add: gap_blocks_def)
next
  case (Cons e m)
  let ?c = "rx_tsn_counter s"
  obtain k d where e: "e = (k, d)" by fastforce
  have k: "in_reach ?c k" using assms(2) Cons e by simp
  then have k1: "word_sub k 1 = Ret (k - 1)" "unat (k - 1) = unat k - 1"
    by (auto simp: word_sub_def word_le_nat_alt unat_sub_if_size in_reach_def)
  have "sorted_wrt (<) (map (unat \<circ> fst) (e # m))"
    using reorder_sorted_unat [of ?c "e # m"] assms Cons
    by (auto simp: rx_inv_def in_reach_def list_all_iff)
  then have "sorted_wrt (<) (map unat ((k - 1) # map fst (e # m)))"
    using k k1 e by (auto simp: in_reach_def)
  moreover have "list_all (in_reach ?c) (k # map fst (e # m))"
    using assms(2) Cons k by (simp add: list_all_iff)
  moreover have "unat ?c \<le> unat (k - 1)" "unat (k - 1) - unat ?c < 65536" "unat k \<le> unat (k - 1) + 1"
    using k k1 by (auto simp: in_reach_def)
  ultimately obtain bs where bs: "ack_blocks ?c k (k - 1) (map fst (e # m)) = Ret bs"
    "covered bs = {unat k - unat ?c..unat (k - 1) - unat ?c} \<union> (\<lambda>k. unat k - unat ?c) ` set (map fst (e # m))"
    using ack_blocks_covered by metis
  have "{unat k - unat ?c..unat (k - 1) - unat ?c} = {}"
    using k k1 by (auto simp: in_reach_def)
  with bs k1 Cons e show ?thesis
    by (simp add: gap_blocks_def image_image)
qed

subsection \<open>What never changes\<close>

definition rx_const :: "'f assoc_rx \<Rightarrow> assoc_id \<times> nat \<times> nat" where
  "rx_const s = (rx_id s, in_buffer_limit s, length (rx_per_stream s))"

lemma rx_const_simps [simp]:
  "rx_const (push_tx s n) = rx_const s"
  "rx_const (s\<lparr>last_sent_arwnd := w\<rparr>) = rx_const s"
  "rx_const (s\<lparr>rx_shutdown_state := x\<rparr>) = rx_const s"
  "rx_const (s\<lparr>tsn_reorder_buffer := m\<rparr>) = rx_const s"
  "rx_const (s\<lparr>current_in_buffer := b\<rparr>) = rx_const s"
  "rx_const (s\<lparr>ordered_receive_events := es\<rparr>) = rx_const s"
  "rx_const (s\<lparr>unordered_receive_events := es\<rparr>) = rx_const s"
  by (simp_all add: rx_const_def push_tx_def)

lemma queue_ack_const: "queue_ack s = Ret s' \<Longrightarrow> rx_const s' = rx_const s"
  by (auto elim: queue_ack_cases)

lemma handle_data_chunk_const:
  assumes "rx_inv s" and "handle_data_chunk s d = Ret s'"
  shows "rx_const s' = rx_const s"
proof -
  obtain t b where t: "handle_in_order_packet (length (tsn_reorder_buffer s)) s d = Ret (t, b)"
    "rx_smaller t s"
    using handle_in_order_ok [OF _ _ assms(1) order_refl] by blast
  then have "rx_const t = rx_const s"
    by (auto simp: rx_smaller_def rx_frame_def rx_const_def)
  with t assms(2) show ?thesis
    by (auto simp: handle_data_chunk_def Let_def split: ordering.splits if_splits dest!: queue_ack_const)
qed

lemma rx_apply_const:
  assumes "rx_inv s" and "rx_apply e s = Ret s'"
  shows "rx_const s' = rx_const s"
proof (cases e)
  case (RxNotify n now)
  then obtain c where "handle_chunk s c now = Ret s'"
    using assms(2) by (cases n) (auto simp: outcome split: if_splits)
  then show ?thesis
    using handle_data_chunk_const [OF assms(1)]
    by (cases c) (auto simp: handle_chunk_def)
next
  case RxPoll
  show ?thesis
    using assms(1)
    by (cases rule: rx_poll_cases; use assms RxPoll in \<open>auto\<close>)
qed (use assms in \<open>auto simp: drain_tx_notifications_def rx_const_def\<close>)

interpretation rx_run: ordered_system rx_apply "\<lambda>_. True" rx_inv "\<lambda>s s'. rx_const s' = rx_const s"
  by unfold_locales (auto intro: rx_apply_const)

lemma rx_reachable:
  assumes "runR rx_apply ops (assoc_rx_new i init n limit) = Ret s"
  shows "rx_inv s" and "rx_const s = (i, limit, unat n)"
  using rx_sys.run_inv [OF assoc_rx_new_inv _ assms] rx_run.run_below [OF assoc_rx_new_inv _ assms]
  by (simp_all add: list_all_iff rx_const_def assoc_rx_new_def)

subsection \<open>Properties\<close>


definition demo_chunk :: "tsn \<Rightarrow> data_chunk" where
  "demo_chunk t = \<lparr>dc_tsn = t, dc_stream_id = 0, dc_stream_seq_num = 0, dc_ppid = 7, dc_buf = [1, 2],
     dc_immediate = False, dc_unordered = False, dc_begin = True, dc_end = True\<rparr>"

definition demo_rx :: "unit assoc_rx" where
  "demo_rx = (assoc_rx_new (AssocId 0) 10 1 100)\<lparr>
     tx_notifications := [TxSend (CSAck \<lparr>cum_tsn = 9, sa_a_rwnd = 98, blocks = [(2, 2)], duplicated_tsn = []\<rparr>)],
     last_sent_arwnd := 98, current_in_buffer := 2, tsn_reorder_buffer := [(11, demo_chunk 11)]\<rparr>"

lemma demo_rx_run:
  "runR rx_apply [RxNotify (RxChunk (CData (demo_chunk 11))) 0] (assoc_rx_new (AssocId 0) 10 1 100) = Ret demo_rx"
proof -
  let ?s = "(assoc_rx_new (AssocId 0) 10 1 100 :: unit assoc_rx)\<lparr>current_in_buffer := 2, tsn_reorder_buffer := [(11, demo_chunk 11)]\<rparr>"
  have "tsn_cmp 11 10 = Greater" by (simp add: tsn_cmp_nat)
  then have "handle_data_chunk (assoc_rx_new (AssocId 0) 10 1 100) (demo_chunk 11) = queue_ack ?s"
    by (simp add: handle_data_chunk_def assoc_rx_new_def demo_chunk_def tsn_decrease_def
        tsn_increase_def Let_def numeral_2_eq_2)
  moreover have "gap_blocks ?s = Ret [(2, 2)]"
    by (simp add: gap_blocks_def assoc_rx_new_def demo_chunk_def tsn_decrease_def word_sub_def word_add_def)
  then have "queue_ack ?s = Ret demo_rx"
    by (simp add: queue_ack_def demo_rx_def push_tx_def Let_def)
       (simp add: assoc_rx_new_def as_u32_def usize_sub_def tsn_decrease_def)
  moreover have "rx_assert_invariants demo_rx"
    by (simp add: demo_rx_def assoc_rx_new_def rx_assert_invariants_def reorder_bytes_def
        chunk_bytes_def stream_bytes_def event_bytes_def demo_chunk_def)
  ultimately show ?thesis by (simp add: handle_chunk_def)
qed


text \<open>
  C14. What an acknowledgement says. In a state that satisfies the invariant and whose buffered
  TSNs lie numerically above the counter and within 16 bits of it, queueing an acknowledgement
  succeeds and appends one SACK: its cumulative TSN is the last chunk taken in order, its window
  is the free buffer space, and its gap blocks, read with both ends included, cover exactly the
  offsets of the chunks in the reorder buffer.
\<close>

theorem sack_reports_buffer:
  assumes "rx_inv s" and "list_all (\<lambda>e. in_reach (rx_tsn_counter s) (fst e)) (tsn_reorder_buffer s)"
  shows "\<exists>bs. queue_ack s = Ret (push_tx (s\<lparr>last_sent_arwnd := as_u32 (in_buffer_limit s - current_in_buffer s)\<rparr>)
      (TxSend (CSAck \<lparr>cum_tsn = rx_tsn_counter s, sa_a_rwnd = as_u32 (in_buffer_limit s - current_in_buffer s),
         blocks = bs, duplicated_tsn = []\<rparr>)))
    \<and> covered bs = (\<lambda>e. unat (fst e) - unat (rx_tsn_counter s)) ` set (tsn_reorder_buffer s)"
proof -
  obtain bs where bs: "gap_blocks s = Ret bs"
    "covered bs = (\<lambda>e. unat (fst e) - unat (rx_tsn_counter s)) ` set (tsn_reorder_buffer s)"
    using gap_blocks_covered [OF assms] by blast
  moreover have "usize_sub (in_buffer_limit s) (current_in_buffer s) =
      Ret (in_buffer_limit s - current_in_buffer s)"
    using assms(1) by (simp add: rx_inv_def rx_bytes_ok_def usize_sub_def)
  ultimately show ?thesis
    by (intro exI [of _ bs]) (simp add: queue_ack_def Let_def)
qed

theorem sack_reports_buffer_witness:
  "\<exists>s' bs. queue_ack demo_rx = Ret s' \<and> covered bs = {2}
    \<and> last (tx_notifications s') =
        TxSend (CSAck \<lparr>cum_tsn = 9, sa_a_rwnd = 98, blocks = bs, duplicated_tsn = []\<rparr>)"
proof -
  have "rx_inv demo_rx" using rx_reachable(1) [OF demo_rx_run] .
  moreover have "list_all (\<lambda>e. in_reach (rx_tsn_counter demo_rx) (fst e)) (tsn_reorder_buffer demo_rx)"
    "(\<lambda>e. unat (fst e) - unat (rx_tsn_counter demo_rx)) ` set (tsn_reorder_buffer demo_rx) = {2}"
    "rx_tsn_counter demo_rx = 9" "as_u32 (in_buffer_limit demo_rx - current_in_buffer demo_rx) = 98"
    by (simp_all add: demo_rx_def assoc_rx_new_def in_reach_def tsn_decrease_def as_u32_def)
  ultimately show ?thesis
    using sack_reports_buffer [of demo_rx] by (auto simp: push_tx_def)
qed

text \<open>
  C35. A received unordered message panics the receiver. After every notification the source
  asserts that the byte count equals the bytes it finds in the reorder buffer, the reassembly
  queues and the ordered messages; the unordered messages are left out. So a notification that
  is otherwise handled passes the assertion exactly when no byte of an unordered message is
  queued, and panics otherwise.
\<close>

theorem unordered_message_panics:
  assumes "rx_inv s" and "handle_chunk s c now = Ret s'"
  shows "rx_notification s (RxChunk c) now =
    (if event_bytes (unordered_receive_events s') = 0 then Ret s' else Panic AssertionFailed)"
  using assms handle_chunk_inv [OF assms]
  by (simp add: rx_inv_def rx_bytes_ok_def stored_bytes_def rx_assert_invariants_def)

lemma demo_unordered:
  "\<exists>s'. handle_chunk (assoc_rx_new (AssocId 0) 10 1 100) (CData ((demo_chunk 10)\<lparr>dc_unordered := True\<rparr>)) 0
     = Ret (s' :: unit assoc_rx) \<and> event_bytes (unordered_receive_events s') = 2"
  by (simp add: handle_chunk_def handle_data_chunk_def assoc_rx_new_def demo_chunk_def
      handle_in_order_packet.simps receive_in_order_def drain_reordered.simps entry_push_def Let_def
      queue_ack_def gap_blocks_def push_tx_def usize_sub_def event_bytes_def chunk_bytes_def)

theorem unordered_message_panics_witness:
  "rx_notification (assoc_rx_new (AssocId 0) 10 1 100 :: unit assoc_rx)
     (RxChunk (CData ((demo_chunk 10)\<lparr>dc_unordered := True\<rparr>))) 0 = Panic AssertionFailed"
  using demo_unordered unordered_message_panics [OF assoc_rx_new_inv, of "AssocId 0" 10 1 100] by force



subsection \<open>A chunk for an unknown stream\<close>

definition passes_over :: "tsn \<Rightarrow> nat \<Rightarrow> 'f rx_op \<Rightarrow> bool" where
  "passes_over c n e = (case e of
     RxNotify (RxChunk (CData d)) _ \<Rightarrow> dc_tsn d = tsn_increase c \<longrightarrow> n \<le> unat (dc_stream_id d) | _ \<Rightarrow> True)"

definition stuck_at :: "tsn \<Rightarrow> nat \<Rightarrow> 'f assoc_rx \<Rightarrow> bool" where
  "stuck_at c n s = (rx_inv s \<and> rx_tsn_counter s = c \<and> length (rx_per_stream s) = n)"

lemma queue_ack_counter: "queue_ack s = Ret s' \<Longrightarrow> rx_tsn_counter s' = rx_tsn_counter s"
  by (erule queue_ack_cases) (simp add: push_tx_def)

lemma stuck_chunk:
  assumes "dc_tsn d = tsn_increase (rx_tsn_counter s) \<longrightarrow> length (rx_per_stream s) \<le> unat (dc_stream_id d)"
    and "handle_data_chunk s d = Ret s'"
  shows "rx_tsn_counter s' = rx_tsn_counter s"
  using assms
  by (auto simp: handle_data_chunk_def handle_in_order_packet.simps Let_def
      split: ordering.splits if_splits dest!: queue_ack_counter)

lemma stuck_step:
  assumes "stuck_at c n s" and "passes_over c n e" and "rx_apply e s = Ret s'"
  shows "stuck_at c n s'"
proof -
  have inv: "rx_inv s" using assms(1) by (simp add: stuck_at_def)
  have "rx_tsn_counter s' = rx_tsn_counter s"
  proof (cases e)
    case (RxNotify m now)
    obtain k where k: "m = RxChunk k" by (cases m)
    then have "handle_chunk s k now = Ret s'"
      using assms(3) RxNotify by (auto simp: outcome split: if_splits)
    then show ?thesis
      using assms(1,2) RxNotify k stuck_chunk [of _ s s']
      by (cases k) (auto simp: handle_chunk_def passes_over_def stuck_at_def push_tx_def)
  next
    case RxPoll
    show ?thesis
      using inv by (cases rule: rx_poll_cases; use assms(3) RxPoll in \<open>auto\<close>)
  qed (use assms(3) in \<open>auto simp: drain_tx_notifications_def\<close>)
  then show ?thesis
    using assms(1) rx_apply_inv [OF inv assms(3)] rx_apply_const [OF inv assms(3)]
    by (simp add: stuck_at_def rx_const_def)
qed

interpretation rx_stuck: invariant_system rx_apply "passes_over c n" "stuck_at c n" for c n
  by unfold_locales (rule stuck_step)

text \<open>
  C36. A chunk for a stream that the association does not have is acknowledged as a duplicate and
  never taken: the counter does not move, so as long as the chunk with this TSN names an unknown
  stream, no further run of the receiver, with whatever chunks, polls and drains, moves it. The
  sender can only repeat the chunk.
\<close>

theorem unknown_stream_stalls:
  assumes "runR rx_apply ops (assoc_rx_new i init n limit) = Ret s"
    and "dc_tsn d = tsn_increase (rx_tsn_counter s)" and "unat n \<le> unat (dc_stream_id d)"
    and "list_all (passes_over (rx_tsn_counter s) (unat n)) later" and "runR rx_apply later s = Ret s'"
  shows "handle_data_chunk s d = queue_ack s \<and> rx_tsn_counter s' = rx_tsn_counter s"
proof -
  note r = rx_reachable [OF assms(1)]
  have "handle_data_chunk s d = queue_ack s"
    using assms(2,3) r(2) by (simp add: handle_data_chunk_def handle_in_order_packet.simps rx_const_def)
  moreover have "stuck_at (rx_tsn_counter s) (unat n) s"
    using r by (simp add: stuck_at_def rx_const_def)
  ultimately show ?thesis
    using rx_stuck.run_inv [OF _ assms(4,5)] by (simp add: stuck_at_def)
qed

theorem unknown_stream_stalls_witness:
  "handle_data_chunk demo_rx ((demo_chunk 10)\<lparr>dc_stream_id := 3\<rparr>) = queue_ack demo_rx"
proof -
  have d: "dc_tsn ((demo_chunk 10)\<lparr>dc_stream_id := 3\<rparr>) = tsn_increase (rx_tsn_counter demo_rx)"
    by (simp add: demo_chunk_def demo_rx_def assoc_rx_new_def)
  show ?thesis
    using unknown_stream_stalls [OF demo_rx_run d, of "[]" demo_rx] by simp
qed

text \<open>The chunks that the receiver has no case for.\<close>

definition unhandled :: "'f chunk \<Rightarrow> bool" where
  "unhandled c = (case c of CInit _ \<Rightarrow> True | CInitAck _ \<Rightarrow> True | COpError \<Rightarrow> True | CStateCookie _ \<Rightarrow> True
     | CStateCookieAck \<Rightarrow> True | CReservedECNE \<Rightarrow> True | CReservedCWR \<Rightarrow> True | CPadding _ \<Rightarrow> True | _ \<Rightarrow> False)"

lemma unhandled_panics: "unhandled c \<Longrightarrow> rx_notification s (RxChunk c) now = Panic NotYetImplemented"
  by (cases c) (simp_all add: unhandled_def handle_chunk_def)

end
