(* ===== verification/Endpoint.thy ===== *)
theory Endpoint
  imports Tx Rx
begin

text \<open>
  The endpoint (\<open>src/lib.rs\<close>, \<open>src/assoc.rs\<close>, \<open>src/assoc/init.rs\<close>): one socket's associations and
  half-open handshakes, and what a received packet does to them. The two hash maps of half-open
  handshakes, the map of aliases and the map of associations are partial functions. The values
  drawn from the random number generator are arguments, as are the hash function under the
  cookie's MAC, the checksum and the address operations.
\<close>

subsection \<open>Data\<close>

record 'f association =
  as_id :: assoc_id
  as_rx :: "'f assoc_rx"
  as_tx :: "'f assoc_tx"

definition association_new ::
  "assoc_id \<Rightarrow> tsn \<Rightarrow> u16 \<Rightarrow> usize \<Rightarrow> 'f assoc_tx_settings \<Rightarrow> instant \<Rightarrow> 'f association rust" where
  "association_new i init_peer_tsn num_in_streams limit tx_settings now =
     bindR (assoc_tx_new i tx_settings now) (\<lambda>tx.
       Ret \<lparr>as_id = i, as_rx = assoc_rx_new i init_peer_tsn num_in_streams limit, as_tx = tx\<rparr>)"

definition association_split :: "'f association \<Rightarrow> 'f assoc_rx \<times> 'f assoc_tx" where
  "association_split a = (as_rx a, as_tx a)"

record per_assoc_info =
  pa_local_verification_tag :: u32
  pa_peer_verification_tag :: u32

record wait_init_ack =
  wi_local_verification_tag :: u32
  wi_local_initial_tsn :: u32

record 'f wait_cookie_ack =
  wc_local_verification_tag :: u32
  wc_peer_verification_tag :: u32
  wc_aliases :: "'f transport_address list"
  wc_original_address :: "'f transport_address"
  wc_local_initial_tsn :: u32
  wc_peer_initial_tsn :: u32
  wc_local_in_streams :: u16
  wc_peer_in_streams :: u16
  wc_local_out_streams :: u16
  wc_peer_out_streams :: u16
  wc_peer_arwnd :: u32

record settings =
  st_cookie_secret :: bytes
  st_incoming_streams :: u16
  st_outgoing_streams :: u16
  st_in_buffer_limit :: usize
  st_out_buffer_limit :: usize

type_synonym 'f outgoing = "'f transport_address \<times> packet \<times> 'f chunk"

record 'f sctp =
  sc_settings :: settings
  assoc_id_gen :: u64
  sc_new_assoc :: "'f association option"
  assoc_infos :: "assoc_id \<rightharpoonup> per_assoc_info"
  sc_aliases :: "'f assoc_alias \<rightharpoonup> assoc_id"
  sc_wait_init_ack :: "'f assoc_alias \<rightharpoonup> wait_init_ack"
  sc_wait_cookie_ack :: "'f assoc_alias \<rightharpoonup> 'f wait_cookie_ack"
  sc_tx_notifications :: "(assoc_id \<times> 'f tx_note) list"
  sc_send_immediate :: "'f outgoing list"
  sc_rx_notifications :: "(assoc_id \<times> 'f rx_note) list"

definition sctp_new :: "settings \<Rightarrow> 'f sctp" where
  "sctp_new st =
     \<lparr> sc_settings = st,
       assoc_id_gen = 1,
       sc_new_assoc = None,
       assoc_infos = Map.empty,
       sc_aliases = Map.empty,
       sc_wait_init_ack = Map.empty,
       sc_wait_cookie_ack = Map.empty,
       sc_tx_notifications = [],
       sc_send_immediate = [],
       sc_rx_notifications = [] \<rparr>"

datatype 'a handle_special_result = NotRecognized | Handled 'a | HandleError

definition handled_or_error :: "'a handle_special_result \<Rightarrow> bool" where
  "handled_or_error r = (case r of NotRecognized \<Rightarrow> False | _ \<Rightarrow> True)"

text \<open>The alias under which the source of a packet is known.\<close>

definition alias_of :: "'f transport_address \<Rightarrow> packet \<Rightarrow> 'f assoc_alias" where
  "alias_of from p = \<lparr>peer_addr = from, al_peer_port = pk_from p, al_local_port = pk_to p\<rparr>"

definition push_immediate :: "'f sctp \<Rightarrow> 'f outgoing \<Rightarrow> 'f sctp" where
  "push_immediate s m = s\<lparr>sc_send_immediate := sc_send_immediate s @ [m]\<rparr>"

definition push_rx :: "'f sctp \<Rightarrow> assoc_id \<Rightarrow> 'f rx_note \<Rightarrow> 'f sctp" where
  "push_rx s i n = s\<lparr>sc_rx_notifications := sc_rx_notifications s @ [(i, n)]\<rparr>"

subsection \<open>New associations\<close>

definition next_assoc_id :: "'f sctp \<Rightarrow> ('f sctp \<times> assoc_id) rust" where
  "next_assoc_id s =
     bindR (word_add (assoc_id_gen s) 1) (\<lambda>g. Ret (s\<lparr>assoc_id_gen := g\<rparr>, AssocId g))"

fun insert_aliases ::
  "'f assoc_alias \<Rightarrow> assoc_id \<Rightarrow> 'f transport_address list \<Rightarrow> ('f assoc_alias \<rightharpoonup> assoc_id) \<Rightarrow> ('f assoc_alias \<rightharpoonup> assoc_id)" where
  "insert_aliases original i [] m = m"
| "insert_aliases original i (a # as) m = insert_aliases original i as (m(original\<lparr>peer_addr := a\<rparr> \<mapsto> i))"

definition make_new_assoc ::
  "'f sctp \<Rightarrow> packet \<Rightarrow> 'f transport_address list \<Rightarrow> u32 \<Rightarrow> u32 \<Rightarrow> u16 \<Rightarrow> 'f assoc_tx_settings \<Rightarrow> instant
   \<Rightarrow> ('f sctp \<times> assoc_id) rust" where
  "make_new_assoc s p alias_addresses local_verification_tag peer_initial_tsn incoming_streams tx_settings now =
     bindR (next_assoc_id s) (\<lambda>(s, i).
       let s = s\<lparr>assoc_infos := (assoc_infos s)(i \<mapsto>
                 \<lparr>pa_local_verification_tag = local_verification_tag,
                  pa_peer_verification_tag = ts_peer_verification_tag tx_settings\<rparr>)\<rparr>;
           original_alias = alias_of (ts_primary_path tx_settings) p;
           s = s\<lparr>sc_aliases := insert_aliases original_alias i alias_addresses
                 ((sc_aliases s)(original_alias \<mapsto> i))\<rparr>
       in bindR (association_new i peer_initial_tsn incoming_streams
                   (st_in_buffer_limit (sc_settings s)) tx_settings now) (\<lambda>a.
            Ret (s\<lparr>sc_new_assoc := Some a\<rparr>, i)))"

subsection \<open>The active side of the handshake\<close>

definition create_init_chunk :: "'f sctp \<Rightarrow> u32 \<Rightarrow> u32 \<Rightarrow> 'f init_chunk" where
  "create_init_chunk s local_verification_tag initial_tsn =
     \<lparr> ic_initiate_tag = local_verification_tag,
       ic_a_rwnd = as_u32 (st_in_buffer_limit (sc_settings s)),
       ic_outbound_streams = st_outgoing_streams (sc_settings s),
       ic_inbound_streams = st_outgoing_streams (sc_settings s),
       ic_initial_tsn = initial_tsn,
       ic_unrecognized = [],
       ic_aliases = [],
       ic_cookie_preservative = None,
       ic_supported_addr_types = None \<rparr>"

text \<open>The two random numbers are drawn in this order.\<close>

definition init_association ::
  "u32 \<Rightarrow> u32 \<Rightarrow> 'f sctp \<Rightarrow> 'f transport_address \<Rightarrow> u16 \<Rightarrow> u16 \<Rightarrow> 'f sctp" where
  "init_association local_verification_tag initial_tsn s addr pport lport =
     (let alias = \<lparr>peer_addr = addr, al_peer_port = pport, al_local_port = lport\<rparr>;
          s = s\<lparr>sc_wait_init_ack := (sc_wait_init_ack s)(alias \<mapsto>
                \<lparr>wi_local_verification_tag = local_verification_tag, wi_local_initial_tsn = initial_tsn\<rparr>)\<rparr>;
          c = CInit (create_init_chunk s local_verification_tag initial_tsn);
          p = packet_new lport pport 0
      in push_immediate s (addr, p, c))"

definition handle_init_ack ::
  "'f sctp \<Rightarrow> packet \<Rightarrow> bytes \<Rightarrow> 'f transport_address \<Rightarrow> ('f sctp \<times> unit handle_special_result) rust" where
  "handle_init_ack s p data from =
     (if \<not> is_init_ack data then Ret (s, NotRecognized)
      else bindR (chunk_parse data) (\<lambda>(size, r).
        case r of
          Inr (CInitAck init_ack) \<Rightarrow>
            if size \<noteq> length data then Ret (s, HandleError)
            else
              let alias = alias_of from p
              in (case sc_wait_init_ack s alias of
                    None \<Rightarrow> Ret (s, HandleError)
                  | Some half_open \<Rightarrow>
                      let s = s\<lparr>sc_wait_init_ack := (sc_wait_init_ack s)(alias := None)\<rparr>;
                          s = s\<lparr>sc_wait_cookie_ack := (sc_wait_cookie_ack s)(alias \<mapsto>
                            \<lparr> wc_local_verification_tag = wi_local_verification_tag half_open,
                              wc_peer_verification_tag = ia_initiate_tag init_ack,
                              wc_aliases = ia_aliases init_ack,
                              wc_original_address = from,
                              wc_local_initial_tsn = wi_local_initial_tsn half_open,
                              wc_peer_initial_tsn = ia_initial_tsn init_ack,
                              wc_local_in_streams = st_incoming_streams (sc_settings s),
                              wc_peer_in_streams = ia_inbound_streams init_ack,
                              wc_local_out_streams = st_outgoing_streams (sc_settings s),
                              wc_peer_out_streams = ia_outbound_streams init_ack,
                              wc_peer_arwnd = ia_a_rwnd init_ack \<rparr>)\<rparr>
                      in Ret (push_immediate s
                                (from, packet_new (pk_to p) (pk_from p) (ia_initiate_tag init_ack),
                                 CStateCookie (ia_cookie init_ack)), Handled ()))
        | _ \<Rightarrow> Ret (s, HandleError)))"

definition handle_cookie_ack ::
  "'f sctp \<Rightarrow> packet \<Rightarrow> bytes \<Rightarrow> 'f transport_address \<Rightarrow> instant
   \<Rightarrow> ('f sctp \<times> bytes \<times> assoc_id handle_special_result) rust" where
  "handle_cookie_ack s p data from now =
     (if \<not> is_cookie_ack data then Ret (s, data, NotRecognized)
      else bindR (chunk_parse data) (\<lambda>(size, r :: parse_error + 'f chunk).
        case r of
          Inr CStateCookieAck \<Rightarrow>
            bindR (advance data size) (\<lambda>data.
              case sc_aliases s (alias_of from p) of
                Some existing \<Rightarrow> Ret (s, data, Handled existing)
              | None \<Rightarrow>
                  (case sc_wait_cookie_ack s (alias_of from p) of
                     None \<Rightarrow> Ret (s, data, HandleError)
                   | Some half_open \<Rightarrow>
                       let s = s\<lparr>sc_wait_cookie_ack := (sc_wait_cookie_ack s)(alias_of from p := None)\<rparr>
                       in bindR (make_new_assoc s p (wc_aliases half_open)
                            (wc_local_verification_tag half_open) (wc_peer_initial_tsn half_open)
                            (min (wc_local_in_streams half_open) (wc_peer_in_streams half_open))
                            \<lparr> ts_primary_path = wc_original_address half_open,
                              ts_peer_verification_tag = wc_peer_verification_tag half_open,
                              ts_local_port = pk_to p,
                              ts_peer_port = pk_from p,
                              ts_init_tsn = wc_local_initial_tsn half_open,
                              ts_out_streams = min (wc_local_out_streams half_open) (wc_peer_out_streams half_open),
                              ts_out_buffer_limit = st_out_buffer_limit (sc_settings s),
                              ts_peer_arwnd = wc_peer_arwnd half_open \<rparr>
                            now) (\<lambda>(s, i). Ret (s, data, Handled i))))
        | _ \<Rightarrow> Ret (s, data, HandleError)))"

subsection \<open>The passive side of the handshake\<close>

definition create_init_ack ::
  "'f sctp \<Rightarrow> unrecognized_param list \<Rightarrow> 'f state_cookie \<Rightarrow> u32 \<Rightarrow> u32 \<Rightarrow> 'f init_ack" where
  "create_init_ack s unrecognized k initial_tsn local_verification_tag =
     \<lparr> ia_initiate_tag = local_verification_tag,
       ia_a_rwnd = as_u32 (st_in_buffer_limit (sc_settings s)),
       ia_outbound_streams = st_outgoing_streams (sc_settings s),
       ia_inbound_streams = st_incoming_streams (sc_settings s),
       ia_initial_tsn = initial_tsn,
       ia_cookie = k,
       ia_unrecognized = unrecognized,
       ia_aliases = [],
       ia_cookie_preservative = None,
       ia_supported_addr_types = None \<rparr>"

text \<open>
  The fresh random numbers, the initial TSN first, are used unless an own INIT to the same peer
  is on its way.
\<close>

definition init_cookie ::
  "'f hasher \<Rightarrow> 'f sctp \<Rightarrow> packet \<Rightarrow> 'f transport_address \<Rightarrow> 'f init_chunk \<Rightarrow> u32 \<Rightarrow> u32 \<Rightarrow> 'f cookie" where
  "init_cookie hash s p from init initial_tsn local_verification_tag =
     (let k = \<lparr> mac = 0,
                init_address = from,
                ck_peer_port = pk_from p,
                ck_local_port = pk_to p,
                ck_aliases = ic_aliases init,
                ck_local_verification_tag = local_verification_tag,
                ck_peer_verification_tag = ic_initiate_tag init,
                ck_local_initial_tsn = initial_tsn,
                ck_peer_initial_tsn = ic_initial_tsn init,
                ck_incoming_streams = min (st_incoming_streams (sc_settings s)) (ic_outbound_streams init),
                ck_outgoing_streams = min (st_outgoing_streams (sc_settings s)) (ic_inbound_streams init),
                ck_peer_arwnd = ic_a_rwnd init \<rparr>
      in k\<lparr>mac := calc_mac hash k (st_cookie_secret (sc_settings s))\<rparr>)"

definition handle_init ::
  "'f hasher \<Rightarrow> u32 \<Rightarrow> u32 \<Rightarrow> 'f sctp \<Rightarrow> packet \<Rightarrow> bytes \<Rightarrow> 'f transport_address
   \<Rightarrow> ('f sctp \<times> unit handle_special_result) rust" where
  "handle_init hash fresh_tsn fresh_tag s p data from =
     (if \<not> is_init data then Ret (s, NotRecognized)
      else bindR (chunk_parse data) (\<lambda>(size, r).
        case r of
          Inr (CInit init) \<Rightarrow>
            if size \<noteq> length data then Ret (s, HandleError)
            else
              let (initial_tsn, local_verification_tag) =
                    (case sc_wait_init_ack s (alias_of from p) of
                       Some half_open \<Rightarrow> (wi_local_initial_tsn half_open, wi_local_verification_tag half_open)
                     | None \<Rightarrow> (fresh_tsn, fresh_tag));
                  k = Ours (init_cookie hash s p from init initial_tsn local_verification_tag);
                  init_ack = CInitAck (create_init_ack s (ic_unrecognized init) k initial_tsn local_verification_tag)
              in Ret (push_immediate s
                        (from, packet_new (pk_to p) (pk_from p) (ic_initiate_tag init), init_ack), Handled ())
        | _ \<Rightarrow> Ret (s, HandleError)))"

definition handle_cookie_echo ::
  "'f fake_addr_impl \<Rightarrow> 'f hasher \<Rightarrow> 'f sctp \<Rightarrow> packet \<Rightarrow> bytes \<Rightarrow> 'f transport_address \<Rightarrow> instant
   \<Rightarrow> ('f sctp \<times> bytes \<times> assoc_id handle_special_result) rust" where
  "handle_cookie_echo I hash s p data from now =
     (if \<not> is_cookie_echo data then Ret (s, data, NotRecognized)
      else bindR (chunk_parse data) (\<lambda>(size, r).
        case r of
          Inr (CStateCookie k) \<Rightarrow>
            bindR (make_ours I k) (\<lambda>ours.
              case ours of
                None \<Rightarrow> Ret (s, data, HandleError)
              | Some k \<Rightarrow>
                  if calc_mac hash k (st_cookie_secret (sc_settings s)) \<noteq> mac k then Ret (s, data, HandleError)
                  else bindR (advance data size) (\<lambda>data.
                    case sc_aliases s (alias_of from p) of
                      Some existing \<Rightarrow> Ret (s, data, Handled existing)
                    | None \<Rightarrow>
                        bindR (make_new_assoc s p (ck_aliases k) (ck_local_verification_tag k)
                          (ck_peer_initial_tsn k) (ck_incoming_streams k)
                          \<lparr> ts_primary_path = init_address k,
                            ts_peer_verification_tag = ck_peer_verification_tag k,
                            ts_local_port = ck_local_port k,
                            ts_peer_port = ck_peer_port k,
                            ts_init_tsn = ck_local_initial_tsn k,
                            ts_out_streams = ck_outgoing_streams k,
                            ts_out_buffer_limit = st_out_buffer_limit (sc_settings s),
                            ts_peer_arwnd = ck_peer_arwnd k \<rparr>
                          now) (\<lambda>(s, i).
                            Ret (s\<lparr>sc_tx_notifications := sc_tx_notifications s @ [(i, TxSend CStateCookieAck)]\<rparr>,
                                 data, Handled i))))
        | _ \<Rightarrow> Ret (s, data, HandleError)))"

subsection \<open>Packets\<close>

text \<open>What an ABORT leaves of an association: the notification that tells its receiver.\<close>

definition abort_assoc :: "'f sctp \<Rightarrow> assoc_id \<Rightarrow> 'f transport_address \<Rightarrow> packet \<Rightarrow> 'f chunk \<Rightarrow> 'f sctp" where
  "abort_assoc s i from p c =
     (let s = s\<lparr>sc_aliases := (\<lambda>a. case sc_aliases s a of Some j \<Rightarrow> if j \<noteq> i then Some j else None | None \<Rightarrow> None)\<rparr>;
          s = s\<lparr>assoc_infos := (assoc_infos s)(i := None)\<rparr>;
          s = s\<lparr>sc_tx_notifications := filter (\<lambda>(j, _). j \<noteq> i) (sc_tx_notifications s)\<rparr>;
          s = s\<lparr>sc_rx_notifications := filter (\<lambda>(j, _). j \<noteq> i) (sc_rx_notifications s)\<rparr>;
          s = s\<lparr>sc_send_immediate := filter (\<lambda>(addr, q, _).
                \<not> (addr = from \<and> pk_from q = pk_to p \<and> pk_to q = pk_from p)) (sc_send_immediate s)\<rparr>
      in push_rx s i (RxChunk c))"

text \<open>One parsed chunk, and whether the rest of the packet is looked at.\<close>

definition process_chunk ::
  "assoc_id \<Rightarrow> 'f transport_address \<Rightarrow> packet \<Rightarrow> per_assoc_info \<Rightarrow> (parse_error + 'f chunk) \<Rightarrow> 'f sctp
   \<Rightarrow> 'f sctp \<times> bool" where
  "process_chunk i from p info r s =
     (case r of
        Inr c \<Rightarrow>
          (case c of
             CInit _ \<Rightarrow> (s, True)
           | CInitAck _ \<Rightarrow> (s, True)
           | CAbort _ _ \<Rightarrow> (abort_assoc s i from p c, False)
           | CHeartBeat h \<Rightarrow>
               (push_immediate s (from, packet_new (pk_to p) (pk_from p) (pa_peer_verification_tag info),
                  CHeartBeatAck (heart_beat_ack_from h)), True)
           | CPadding _ \<Rightarrow> (s, True)
           | _ \<Rightarrow> (push_rx s i (RxChunk c), True))
      | Inl (Unrecognized report stop) \<Rightarrow>
          ((if report
            then push_immediate s (from, packet_new (pk_to p) (pk_from p) (pa_peer_verification_tag info), COpError)
            else s), \<not> stop)
      | Inl Done \<Rightarrow> (s, False)
      | Inl IllegalFormat \<Rightarrow> (s, False))"

function process_loop ::
  "assoc_id \<Rightarrow> 'f transport_address \<Rightarrow> packet \<Rightarrow> per_assoc_info \<Rightarrow> 'f sctp \<Rightarrow> bytes \<Rightarrow> 'f sctp rust" where
  "process_loop i from p info s data =
     (if data = [] then Ret s
      else bindR (chunk_parse data) (\<lambda>(size, r).
           bindR (advance data size) (\<lambda>data.
             let (s, again) = process_chunk i from p info r s
             in if again then process_loop i from p info s data else Ret s)))"
  by pat_completeness auto
termination
  by (relation "measure (\<lambda>(i, from, p, info, s, data). length data)")
     (auto simp: advance_def split: if_splits dest: chunk_parse_size)

declare process_loop.simps [simp del]

definition process_chunks ::
  "'f sctp \<Rightarrow> assoc_id \<Rightarrow> 'f transport_address \<Rightarrow> packet \<Rightarrow> bytes \<Rightarrow> 'f sctp rust" where
  "process_chunks s i from p data =
     (case assoc_infos s i of
        None \<Rightarrow> Ret s
      | Some info \<Rightarrow>
          if pa_local_verification_tag info \<noteq> pk_verification_tag p then Ret s
          else process_loop i from p info s data)"

definition receive_data ::
  "crc32 \<Rightarrow> 'f fake_addr_impl \<Rightarrow> 'f hasher \<Rightarrow> u32 \<Rightarrow> u32 \<Rightarrow> 'f sctp \<Rightarrow> bytes \<Rightarrow> 'f transport_address \<Rightarrow> instant
   \<Rightarrow> 'f sctp rust" where
  "receive_data crc I hash fresh_tsn fresh_tag s data from now =
     (case packet_parse crc data of
        None \<Rightarrow> Ret s
      | Some p \<Rightarrow>
          bindR (advance data 12) (\<lambda>data.
          bindR (handle_init hash fresh_tsn fresh_tag s p data from) (\<lambda>(s, r).
            if handled_or_error r then Ret s
            else
              bindR (handle_init_ack s p data from) (\<lambda>(s, r).
                if handled_or_error r then Ret s
                else
                  bindR (handle_cookie_echo I hash s p data from now) (\<lambda>(s, data, echo).
                    if echo = HandleError then Ret s
                    else
                      bindR (handle_cookie_ack s p data from now) (\<lambda>(s, data, ack).
                        if ack = HandleError then Ret s
                        else
                          let assoc_id =
                                (case ack of Handled i \<Rightarrow> Some i
                                 | _ \<Rightarrow> (case echo of Handled i \<Rightarrow> Some i
                                        | _ \<Rightarrow> sc_aliases s (alias_of from p)))
                          in (case assoc_id of
                                None \<Rightarrow> Ret s
                              | Some i \<Rightarrow> process_chunks s i from p data)))))))"

subsection \<open>What the caller takes out\<close>

definition rx_notifications :: "'f sctp \<Rightarrow> 'f sctp \<times> (assoc_id \<times> 'f rx_note) list" where
  "rx_notifications s = (s\<lparr>sc_rx_notifications := []\<rparr>, sc_rx_notifications s)"

definition sctp_tx_notifications :: "'f sctp \<Rightarrow> 'f sctp \<times> (assoc_id \<times> 'f tx_note) list" where
  "sctp_tx_notifications s = (s\<lparr>sc_tx_notifications := []\<rparr>, sc_tx_notifications s)"

definition send_immediate :: "'f sctp \<Rightarrow> 'f sctp \<times> 'f outgoing list" where
  "send_immediate s = (s\<lparr>sc_send_immediate := []\<rparr>, sc_send_immediate s)"

definition next_send_immediate :: "'f sctp \<Rightarrow> 'f sctp \<times> 'f outgoing option" where
  "next_send_immediate s =
     (case sc_send_immediate s of
        [] \<Rightarrow> (s, None)
      | m # ms \<Rightarrow> (s\<lparr>sc_send_immediate := ms\<rparr>, Some m))"

definition has_next_send_immediate :: "'f sctp \<Rightarrow> bool" where
  "has_next_send_immediate s = (sc_send_immediate s \<noteq> [])"

definition new_assoc :: "'f sctp \<Rightarrow> 'f sctp \<times> 'f association option" where
  "new_assoc s = (s\<lparr>sc_new_assoc := None\<rparr>, sc_new_assoc s)"

end
