(* ===== verification/Endpoint_Inv.thy ===== *)
theory Endpoint_Inv
  imports Endpoint
begin

text \<open>
  The invariant of the endpoint and the cases of its handlers: identifiers are handed out once,
  aliases and notifications name known associations, and the notifications for the receiver carry
  only the kinds of chunk that are meant for it.
\<close>

subsection \<open>The cases of the handlers\<close>

lemma chunk_parse_cases:
  obtains n and r :: "parse_error + 'f chunk" where "chunk_parse data = Ret (n, r)" "n \<le> length data"
    "data \<noteq> [] \<Longrightarrow> 0 < n" "advance data n = Ret (drop n data)"
proof -
  obtain x :: "usize \<times> (parse_error + 'f chunk)" where x: "chunk_parse data = Ret x"
    using chunk_parse_returns [of data] by (auto simp: returns_iff)
  obtain n r where nr: "x = (n, r)" by (cases x)
  have p: "chunk_parse data = Ret (n, r)" using x nr by simp
  show thesis
    using chunk_parse_size [OF p] by (intro that [OF p]) (auto simp: advance_def)
qed

text \<open>The first byte of a buffer decides the kind of the chunk that is parsed from it.\<close>

lemma parsed_match:
  assumes "chunk_parse d = Ret (n, Inr c)"
  obtains f v where "chunk_match (d ! 0) f v = Ret (Inr c)" "CHUNK_HEADER_SIZE \<le> length d"
  using assms by (auto simp: chunk_parse_def Let_def outcome split: if_splits)

lemma parsed_special:
  assumes "chunk_parse d = Ret (n, Inr c)"
  shows "is_init d \<longleftrightarrow> (\<exists>i. c = CInit i)" "is_init_ack d \<longleftrightarrow> (\<exists>a. c = CInitAck a)"
    "is_cookie_echo d \<longleftrightarrow> (\<exists>k. c = CStateCookie k)" "is_cookie_ack d \<longleftrightarrow> c = CStateCookieAck"
proof -
  obtain f v where match: "chunk_match (d ! 0) f v = Ret (Inr c)" and len: "CHUNK_HEADER_SIZE \<le> length d"
    using assms by (rule parsed_match)
  have kinds: "(d ! 0 = 1) = (\<exists>i. c = CInit i)" "(d ! 0 = 2) = (\<exists>a. c = CInitAck a)"
    "(d ! 0 = 10) = (\<exists>k. c = CStateCookie k)" "(d ! 0 = 11) = (c = CStateCookieAck)"
    using match by (auto simp: chunk_match_def outcome option_chunk_def split: option.splits if_splits)
  then show "is_init d \<longleftrightarrow> (\<exists>i. c = CInit i)" "is_init_ack d \<longleftrightarrow> (\<exists>a. c = CInitAck a)"
    "is_cookie_echo d \<longleftrightarrow> (\<exists>k. c = CStateCookie k)" "is_cookie_ack d \<longleftrightarrow> c = CStateCookieAck"
    using len by (simp_all add: is_init_def is_init_ack_def is_cookie_echo_def is_cookie_ack_def first_chunk_is_def)
qed

lemma handle_init_cases:
  obtains (other) "\<not> is_init data" "handle_init hash t v s p data from = Ret (s, NotRecognized)"
  | (bad) "is_init data" "handle_init hash t v s p data from = Ret (s, HandleError)"
  | (answer) init t' v' where "is_init data" "chunk_parse data = Ret (length data, Inr (CInit init))"
      "(t', v') = (case sc_wait_init_ack s (alias_of from p) of
         Some h \<Rightarrow> (wi_local_initial_tsn h, wi_local_verification_tag h) | None \<Rightarrow> (t, v))"
      "handle_init hash t v s p data from =
         Ret (push_immediate s (from, packet_new (pk_to p) (pk_from p) (ic_initiate_tag init),
            CInitAck (create_init_ack s (ic_unrecognized init) (Ours (init_cookie hash s p from init t' v')) t' v')),
          Handled ())"
proof (cases "is_init data")
  case True
  obtain n and r :: "parse_error + 'a chunk" where r: "chunk_parse data = Ret (n, r)"
    by (rule chunk_parse_cases [of data])
  show thesis
  proof (cases "\<exists>init. r = Inr (CInit init) \<and> n = length data")
    case yes: True
    then obtain init where init: "r = Inr (CInit init)" "n = length data" by blast
    obtain t' v' where tv: "(case sc_wait_init_ack s (alias_of from p) of
        Some h \<Rightarrow> (wi_local_initial_tsn h, wi_local_verification_tag h) | None \<Rightarrow> (t, v)) = (t', v')"
      by (rule prod.exhaust)
    from True r init tv show thesis
      by (intro answer [OF _ _ tv [symmetric], of init]) (simp_all add: handle_init_def)
  next
    case False
    with True r show thesis
      by (intro bad) (auto simp: handle_init_def split: sum.split chunk.split)
  qed
qed (auto simp: handle_init_def intro: other)

definition cookie_wait :: "'f sctp \<Rightarrow> 'f transport_address \<Rightarrow> wait_init_ack \<Rightarrow> 'f init_ack \<Rightarrow> 'f wait_cookie_ack" where
  "cookie_wait s from half_open init_ack =
     \<lparr> wc_local_verification_tag = wi_local_verification_tag half_open,
       wc_peer_verification_tag = ia_initiate_tag init_ack,
       wc_aliases = ia_aliases init_ack,
       wc_original_address = from,
       wc_local_initial_tsn = wi_local_initial_tsn half_open,
       wc_peer_initial_tsn = ia_initial_tsn init_ack,
       wc_local_in_streams = st_incoming_streams (sc_settings s),
       wc_peer_in_streams = ia_inbound_streams init_ack,
       wc_local_out_streams = st_outgoing_streams (sc_settings s),
       wc_peer_out_streams = ia_outbound_streams init_ack,
       wc_peer_arwnd = ia_a_rwnd init_ack \<rparr>"

lemma handle_init_ack_cases:
  obtains (other) "\<not> is_init_ack data" "handle_init_ack s p data from = Ret (s, NotRecognized)"
  | (bad) "is_init_ack data" "handle_init_ack s p data from = Ret (s, HandleError)"
  | (echo) a h where "is_init_ack data" "chunk_parse data = Ret (length data, Inr (CInitAck a))"
      "sc_wait_init_ack s (alias_of from p) = Some h"
      "handle_init_ack s p data from =
         Ret (push_immediate
            (s\<lparr>sc_wait_init_ack := (sc_wait_init_ack s)(alias_of from p := None),
               sc_wait_cookie_ack := (sc_wait_cookie_ack s)(alias_of from p \<mapsto> cookie_wait s from h a)\<rparr>)
            (from, packet_new (pk_to p) (pk_from p) (ia_initiate_tag a), CStateCookie (ia_cookie a)),
          Handled ())"
proof (cases "is_init_ack data")
  case True
  obtain n and r :: "parse_error + 'a chunk" where r: "chunk_parse data = Ret (n, r)"
    by (rule chunk_parse_cases [of data])
  show thesis
  proof (cases "\<exists>a h. r = Inr (CInitAck a) \<and> n = length data \<and> sc_wait_init_ack s (alias_of from p) = Some h")
    case yes: True
    then obtain a h where "r = Inr (CInitAck a)" "n = length data" "sc_wait_init_ack s (alias_of from p) = Some h"
      by blast
    with True r show thesis
      by (intro echo) (auto simp: handle_init_ack_def cookie_wait_def Let_def)
  next
    case False
    with True r show thesis
      by (intro bad) (auto simp: handle_init_ack_def split: sum.split chunk.split option.split)
  qed
qed (auto simp: handle_init_ack_def intro: other)

text \<open>What a new association adds to the endpoint.\<close>

definition with_assoc ::
  "'f sctp \<Rightarrow> u64 \<Rightarrow> per_assoc_info \<Rightarrow> 'f assoc_alias \<Rightarrow> 'f transport_address list \<Rightarrow> 'f association \<Rightarrow> 'f sctp" where
  "with_assoc s g info original addrs a =
     s\<lparr>assoc_id_gen := g, assoc_infos := (assoc_infos s)(AssocId g \<mapsto> info),
       sc_aliases := insert_aliases original (AssocId g) addrs ((sc_aliases s)(original \<mapsto> AssocId g)),
       sc_new_assoc := Some a\<rparr>"

lemma assoc_tx_new_returns: "returns (assoc_tx_new i st now)"
  by (simp add: assoc_tx_new_def per_destination_new_def word_sub_def usize_sub_def returns_bindR)

lemma make_new_assoc_cases:
  assumes "unat (assoc_id_gen s) + 1 < 2 ^ 64"
  obtains a where
    "association_new (AssocId (assoc_id_gen s + 1)) tsn n (st_in_buffer_limit (sc_settings s)) ts now = Ret a"
    "make_new_assoc s p addrs tag tsn n ts now =
       Ret (with_assoc s (assoc_id_gen s + 1)
              \<lparr>pa_local_verification_tag = tag, pa_peer_verification_tag = ts_peer_verification_tag ts\<rparr>
              (alias_of (ts_primary_path ts) p) addrs a,
            AssocId (assoc_id_gen s + 1))"
proof -
  obtain tx where "assoc_tx_new (AssocId (assoc_id_gen s + 1)) ts now = Ret tx"
    using assoc_tx_new_returns [of "AssocId (assoc_id_gen s + 1)" ts now] by (auto simp: returns_iff)
  with assms show thesis
    by (intro that) (auto simp: make_new_assoc_def association_new_def next_assoc_id_def word_add_def
        with_assoc_def Let_def)
qed

lemma make_new_assoc_overflow:
  assumes "\<not> unat (assoc_id_gen s) + 1 < 2 ^ 64"
  shows "make_new_assoc s p addrs tag tsn n ts now = Panic ArithOverflow"
  using assms by (simp add: make_new_assoc_def next_assoc_id_def word_add_def)

lemma make_new_assoc_Ret:
  assumes "make_new_assoc s p addrs tag tsn n ts now = Ret (s', i)"
  obtains a where "unat (assoc_id_gen s) + 1 < 2 ^ 64" "i = AssocId (assoc_id_gen s + 1)"
    "association_new i tsn n (st_in_buffer_limit (sc_settings s)) ts now = Ret a"
    "s' = with_assoc s (assoc_id_gen s + 1)
       \<lparr>pa_local_verification_tag = tag, pa_peer_verification_tag = ts_peer_verification_tag ts\<rparr>
       (alias_of (ts_primary_path ts) p) addrs a"
proof (cases "unat (assoc_id_gen s) + 1 < 2 ^ 64")
  case True
  then show thesis
    using make_new_assoc_cases [OF True, of tsn n ts now p addrs tag] assms that by fastforce
next
  case False
  with assms show thesis by (simp add: make_new_assoc_overflow)
qed

definition cookie_settings :: "'f sctp \<Rightarrow> 'f cookie \<Rightarrow> 'f assoc_tx_settings" where
  "cookie_settings s k =
     \<lparr> ts_primary_path = init_address k,
       ts_peer_verification_tag = ck_peer_verification_tag k,
       ts_local_port = ck_local_port k,
       ts_peer_port = ck_peer_port k,
       ts_init_tsn = ck_local_initial_tsn k,
       ts_out_streams = ck_outgoing_streams k,
       ts_out_buffer_limit = st_out_buffer_limit (sc_settings s),
       ts_peer_arwnd = ck_peer_arwnd k \<rparr>"

definition ack_settings :: "'f sctp \<Rightarrow> packet \<Rightarrow> 'f wait_cookie_ack \<Rightarrow> 'f assoc_tx_settings" where
  "ack_settings s p half_open =
     \<lparr> ts_primary_path = wc_original_address half_open,
       ts_peer_verification_tag = wc_peer_verification_tag half_open,
       ts_local_port = pk_to p,
       ts_peer_port = pk_from p,
       ts_init_tsn = wc_local_initial_tsn half_open,
       ts_out_streams = min (wc_local_out_streams half_open) (wc_peer_out_streams half_open),
       ts_out_buffer_limit = st_out_buffer_limit (sc_settings s),
       ts_peer_arwnd = wc_peer_arwnd half_open \<rparr>"

text \<open>The cookie that a packet carries in its first chunk, as the endpoint reads it.\<close>

definition echoed :: "'f fake_addr_impl \<Rightarrow> bytes \<Rightarrow> (usize \<times> 'f cookie) option rust" where
  "echoed I data = bindR (chunk_parse data) (\<lambda>(n, r). case r of
     Inr (CStateCookie k) \<Rightarrow> bindR (make_ours I k) (\<lambda>x. Ret (map_option (Pair n) x)) | _ \<Rightarrow> Ret None)"

lemma handle_cookie_echo_echoed:
  "handle_cookie_echo I hash s p data from now =
     (if \<not> is_cookie_echo data then Ret (s, data, NotRecognized)
      else bindR (echoed I data) (\<lambda>e. case e of
          None \<Rightarrow> Ret (s, data, HandleError)
        | Some (n, k) \<Rightarrow>
            if calc_mac hash k (st_cookie_secret (sc_settings s)) \<noteq> mac k then Ret (s, data, HandleError)
            else case sc_aliases s (alias_of from p) of
              Some i \<Rightarrow> Ret (s, drop n data, Handled i)
            | None \<Rightarrow>
                bindR (make_new_assoc s p (ck_aliases k) (ck_local_verification_tag k)
                    (ck_peer_initial_tsn k) (ck_incoming_streams k) (cookie_settings s k) now) (\<lambda>(s, i).
                  Ret (s\<lparr>sc_tx_notifications := sc_tx_notifications s @ [(i, TxSend CStateCookieAck)]\<rparr>,
                       drop n data, Handled i))))"
proof -
  obtain n and r :: "parse_error + 'a chunk" where r: "chunk_parse data = Ret (n, r)"
    "advance data n = Ret (drop n data)"
    by (rule chunk_parse_cases [of data])
  consider (cookie) k where "r = Inr (CStateCookie k)"
    | (other) "\<forall>k. r \<noteq> Inr (CStateCookie k)" by blast
  then show ?thesis
  proof cases
    case cookie
    show ?thesis
    proof (cases "make_ours I k")
      case (Ret x)
      with cookie r show ?thesis
        by (cases x) (simp_all add: handle_cookie_echo_def echoed_def cookie_settings_def cong: option.case_cong)
    qed (use cookie r in \<open>simp add: handle_cookie_echo_def echoed_def\<close>)
  next
    case other
    with r show ?thesis
      by (auto simp: handle_cookie_echo_def echoed_def split: sum.split chunk.split)
  qed
qed

lemma handle_cookie_echo_Ret:
  assumes "handle_cookie_echo I hash s p data from now = Ret (s', data', r)"
  obtains (same) "s' = s" "case r of Handled i \<Rightarrow> sc_aliases s (alias_of from p) = Some i | _ \<Rightarrow> data' = data"
  | (fresh) n k a i where "is_cookie_echo data" "echoed I data = Ret (Some (n, k))"
      "calc_mac hash k (st_cookie_secret (sc_settings s)) = mac k"
      "sc_aliases s (alias_of from p) = None"
      "unat (assoc_id_gen s) + 1 < 2 ^ 64" "i = AssocId (assoc_id_gen s + 1)"
      "association_new i (ck_peer_initial_tsn k) (ck_incoming_streams k)
         (st_in_buffer_limit (sc_settings s)) (cookie_settings s k) now = Ret a"
      "s' = (with_assoc s (assoc_id_gen s + 1)
          \<lparr>pa_local_verification_tag = ck_local_verification_tag k,
           pa_peer_verification_tag = ck_peer_verification_tag k\<rparr>
          (alias_of (init_address k) p) (ck_aliases k) a)
        \<lparr>sc_tx_notifications := sc_tx_notifications s @ [(i, TxSend CStateCookieAck)]\<rparr>"
      "r = Handled i" "data' = drop n data"
proof -
  note unf = assms [unfolded handle_cookie_echo_echoed]
  show thesis
  proof (cases "\<exists>n k. is_cookie_echo data \<and> echoed I data = Ret (Some (n, k)) \<and>
      calc_mac hash k (st_cookie_secret (sc_settings s)) = mac k \<and> sc_aliases s (alias_of from p) = None")
    case True
    then obtain n k where nk: "is_cookie_echo data" "echoed I data = Ret (Some (n, k))"
      "calc_mac hash k (st_cookie_secret (sc_settings s)) = mac k" "sc_aliases s (alias_of from p) = None"
      by blast
    with unf obtain t i where t: "make_new_assoc s p (ck_aliases k) (ck_local_verification_tag k)
        (ck_peer_initial_tsn k) (ck_incoming_streams k) (cookie_settings s k) now = Ret (t, i)"
      "s' = t\<lparr>sc_tx_notifications := sc_tx_notifications t @ [(i, TxSend CStateCookieAck)]\<rparr>"
      "r = Handled i" "data' = drop n data"
      by (auto simp: outcome)
    from t(1) show thesis
      by (rule make_new_assoc_Ret)
         (rule fresh [OF nk], use t in \<open>simp_all add: cookie_settings_def with_assoc_def\<close>)
  next
    case other: False
    show thesis
    proof (cases "is_cookie_echo data")
      case True
      with unf obtain e where e: "echoed I data = Ret e" by (auto simp: outcome)
      show thesis
      proof (cases e)
        case (Some nk)
        obtain n k where nk: "nk = (n, k)" by (cases nk)
        with e Some True unf other show thesis
          by (intro same) (auto split: if_splits option.splits)
      qed (use e True unf in \<open>intro same, auto\<close>)
    qed (use unf in \<open>intro same, auto\<close>)
  qed
qed

lemma handle_cookie_ack_cases:
  fixes s :: "'f sctp"
  obtains (other) "\<not> is_cookie_ack data" "handle_cookie_ack s p data from now = Ret (s, data, NotRecognized)"
  | (bad) data' where "is_cookie_ack data" "handle_cookie_ack s p data from now = Ret (s, data', HandleError)"
  | (known) n i where "is_cookie_ack data" "sc_aliases s (alias_of from p) = Some i"
      "chunk_parse data = Ret (n, Inr (CStateCookieAck :: 'f chunk))"
      "handle_cookie_ack s p data from now = Ret (s, drop n data, Handled i)"
  | (fresh) n h where "is_cookie_ack data" "sc_aliases s (alias_of from p) = None"
      "chunk_parse data = Ret (n, Inr (CStateCookieAck :: 'f chunk))"
      "sc_wait_cookie_ack s (alias_of from p) = Some h"
      "handle_cookie_ack s p data from now =
         bindR (make_new_assoc (s\<lparr>sc_wait_cookie_ack := (sc_wait_cookie_ack s)(alias_of from p := None)\<rparr>) p
            (wc_aliases h) (wc_local_verification_tag h) (wc_peer_initial_tsn h)
            (min (wc_local_in_streams h) (wc_peer_in_streams h)) (ack_settings s p h) now)
          (\<lambda>(s, i). Ret (s, drop n data, Handled i))"
proof (cases "is_cookie_ack data")
  case True
  obtain n and r :: "parse_error + 'f chunk" where r: "chunk_parse data = Ret (n, r)"
    "advance data n = Ret (drop n data)"
    by (rule chunk_parse_cases [of data])
  show thesis
  proof (cases "r = Inr CStateCookieAck")
    case ack: True
    show thesis
    proof (cases "sc_aliases s (alias_of from p)")
      case none: None
      show thesis
      proof (cases "sc_wait_cookie_ack s (alias_of from p)")
        case None
        with True r ack none show thesis
          by (intro bad) (auto simp: handle_cookie_ack_def)
      next
        case (Some h)
        with True r ack none show thesis
          by (intro fresh) (auto simp: handle_cookie_ack_def ack_settings_def Let_def)
      qed
    next
      case (Some i)
      with True r ack show thesis
        by (intro known) (auto simp: handle_cookie_ack_def)
    qed
  next
    case False
    with True r show thesis
      by (intro bad) (auto simp: handle_cookie_ack_def split: sum.split chunk.split)
  qed
qed (auto simp: handle_cookie_ack_def intro: other)

lemma handle_cookie_ack_Ret:
  assumes "handle_cookie_ack s p data from now = Ret (s', data', r)"
  obtains (same) "s' = s" "case r of Handled i \<Rightarrow> sc_aliases s (alias_of from p) = Some i | _ \<Rightarrow> True"
  | (fresh) h a i where "is_cookie_ack data" "sc_aliases s (alias_of from p) = None"
      "sc_wait_cookie_ack s (alias_of from p) = Some h"
      "unat (assoc_id_gen s) + 1 < 2 ^ 64" "i = AssocId (assoc_id_gen s + 1)"
      "association_new i (wc_peer_initial_tsn h) (min (wc_local_in_streams h) (wc_peer_in_streams h))
         (st_in_buffer_limit (sc_settings s)) (ack_settings s p h) now = Ret a"
      "s' = with_assoc (s\<lparr>sc_wait_cookie_ack := (sc_wait_cookie_ack s)(alias_of from p := None)\<rparr>)
          (assoc_id_gen s + 1)
          \<lparr>pa_local_verification_tag = wc_local_verification_tag h,
           pa_peer_verification_tag = wc_peer_verification_tag h\<rparr>
          (alias_of (wc_original_address h) p) (wc_aliases h) a"
      "r = Handled i"
proof (cases rule: handle_cookie_ack_cases [of data s p "from" now])
  case (fresh n h)
  let ?s = "s\<lparr>sc_wait_cookie_ack := (sc_wait_cookie_ack s)(alias_of from p := None)\<rparr>"
  from assms fresh(5) obtain i where "make_new_assoc ?s p (wc_aliases h) (wc_local_verification_tag h)
      (wc_peer_initial_tsn h) (min (wc_local_in_streams h) (wc_peer_in_streams h)) (ack_settings s p h) now = Ret (s', i)"
    "r = Handled i"
    by (auto simp: outcome)
  from this(1) show thesis
    by (rule make_new_assoc_Ret)
       (rule that(2) [OF fresh(1,2,4)], use \<open>r = Handled i\<close> in \<open>simp_all add: ack_settings_def\<close>)
qed (use assms that(1) in auto)

subsection \<open>The invariant\<close>

text \<open>The chunks that the endpoint passes on to a receiver.\<close>

definition forwarded :: "'f chunk \<Rightarrow> bool" where
  "forwarded c = (case c of CInit _ \<Rightarrow> False | CInitAck _ \<Rightarrow> False | CHeartBeat _ \<Rightarrow> False | CPadding _ \<Rightarrow> False | _ \<Rightarrow> True)"

definition rx_note_ok :: "'f sctp \<Rightarrow> assoc_id \<times> 'f rx_note \<Rightarrow> bool" where
  "rx_note_ok s x = (case x of (i, RxChunk c) \<Rightarrow> forwarded c \<and>
     (i \<in> dom (assoc_infos s) \<or> (i \<le> AssocId (assoc_id_gen s) \<and> (\<exists>r e. c = CAbort r e))))"

text \<open>An association as the constructor made it.\<close>

definition brand_new :: "'f association \<Rightarrow> bool" where
  "brand_new a = (\<exists>t n limit ts now. association_new (as_id a) t n limit ts now = Ret a)"

text \<open>The only notification for a transmitter that the endpoint makes is the COOKIE ACK to send.\<close>

definition cookie_ack_note :: "assoc_id \<times> 'f tx_note \<Rightarrow> bool" where
  "cookie_ack_note x = (snd x = TxSend CStateCookieAck)"

definition ep_inv :: "'f sctp \<Rightarrow> bool" where
  "ep_inv s =
     ((\<forall>i \<in> dom (assoc_infos s). i \<le> AssocId (assoc_id_gen s))
      \<and> ran (sc_aliases s) \<subseteq> dom (assoc_infos s)
      \<and> fst ` set (sc_tx_notifications s) \<subseteq> dom (assoc_infos s)
      \<and> list_all (rx_note_ok s) (sc_rx_notifications s)
      \<and> (\<forall>a. sc_new_assoc s = Some a \<longrightarrow> as_id a \<le> AssocId (assoc_id_gen s) \<and> brand_new a)
      \<and> list_all cookie_ack_note (sc_tx_notifications s))"

text \<open>
  What every step respects: identifiers grow, an identifier that was given out keeps its
  verification tags until its association is gone for good, and a new association has an
  identifier that was not given out before.
\<close>

definition ep_below :: "'f sctp \<Rightarrow> 'f sctp \<Rightarrow> bool" where
  "ep_below s s' = (assoc_id_gen s \<le> assoc_id_gen s' \<and> sc_settings s' = sc_settings s
     \<and> (\<forall>i \<le> AssocId (assoc_id_gen s). assoc_infos s' i = assoc_infos s i \<or> assoc_infos s' i = None)
     \<and> (\<forall>a. sc_new_assoc s' = Some a \<longrightarrow> sc_new_assoc s = Some a \<or> AssocId (assoc_id_gen s) < as_id a))"

lemma AssocId_le [simp]: "AssocId a \<le> AssocId b \<longleftrightarrow> a \<le> b"
  by (simp add: less_eq_assoc_id_def)

lemma ep_below_refl [simp]: "ep_below s s"
  by (simp add: ep_below_def)

lemma ep_below_trans:
  assumes "ep_below s t" and "ep_below t u"
  shows "ep_below s u"
proof -
  have le: "AssocId (assoc_id_gen s) \<le> AssocId (assoc_id_gen t)"
    using assms(1) by (simp add: ep_below_def)
  have "sc_new_assoc u = Some a \<Longrightarrow> sc_new_assoc s = Some a \<or> AssocId (assoc_id_gen s) < as_id a" for a
    using assms order_le_less_trans [OF le] unfolding ep_below_def by blast
  moreover have "assoc_infos u i = assoc_infos s i \<or> assoc_infos u i = None"
    if "i \<le> AssocId (assoc_id_gen s)" for i
    using assms order_trans [OF that le] that unfolding ep_below_def by metis
  ultimately show ?thesis
    using assms by (auto simp: ep_below_def)
qed

lemma ep_updates [simp]:
  "ep_inv (push_immediate s m) = ep_inv s"
  "ep_below s' (push_immediate s m) = ep_below s' s"
  "ep_inv (s\<lparr>sc_send_immediate := ms\<rparr>) = ep_inv s"
  "ep_inv (s\<lparr>sc_wait_init_ack := w\<rparr>) = ep_inv s"
  "ep_inv (s\<lparr>sc_wait_cookie_ack := c\<rparr>) = ep_inv s"
  "ep_below s' (s\<lparr>sc_send_immediate := ms\<rparr>) = ep_below s' s"
  "ep_below s' (s\<lparr>sc_wait_init_ack := w\<rparr>) = ep_below s' s"
  "ep_below s' (s\<lparr>sc_wait_cookie_ack := c\<rparr>) = ep_below s' s"
  "ep_below s' (s\<lparr>sc_tx_notifications := ns\<rparr>) = ep_below s' s"
  "ep_below s' (s\<lparr>sc_rx_notifications := rs\<rparr>) = ep_below s' s"
  by (simp_all add: ep_inv_def ep_below_def push_immediate_def rx_note_ok_def [abs_def])

lemma insert_aliases_ran:
  "ran (insert_aliases original i as m) \<subseteq> insert i (ran m)"
proof (induction "as" arbitrary: m)
  case (Cons a "as")
  have "ran (m(original\<lparr>peer_addr := a\<rparr> \<mapsto> i)) \<subseteq> insert i (ran m)"
    by (auto simp: ran_def)
  then show ?case
    using Cons [of "m(original\<lparr>peer_addr := a\<rparr> \<mapsto> i)"] by (simp only: insert_aliases.simps) blast
qed auto

lemma association_new_ids:
  "association_new i t n limit ts now = Ret a \<Longrightarrow> as_id a = i \<and> rx_id (as_rx a) = i \<and> tx_id (as_tx a) = i"
  by (auto simp: association_new_def assoc_rx_new_def assoc_tx_new_def outcome)

lemma association_new_brand_new: "association_new i t n limit ts now = Ret a \<Longrightarrow> brand_new a"
  using association_new_ids [of i t n limit ts now a] unfolding brand_new_def by blast

lemma next_id_fresh:
  fixes g :: u64
  assumes "unat g + 1 < 2 ^ 64"
  shows "g \<le> g + 1" "\<not> g + 1 \<le> g"
proof -
  have "unat (g + 1) = unat g + 1"
    using assms by (simp add: unat_word_ariths)
  then show "g \<le> g + 1" "\<not> g + 1 \<le> g"
    by (simp_all add: word_le_nat_alt)
qed

lemma with_assoc_below:
  assumes "unat (assoc_id_gen s) + 1 < 2 ^ 64" and "as_id a = AssocId (assoc_id_gen s + 1)"
  shows "ep_below s (with_assoc s (assoc_id_gen s + 1) info original addrs a)"
  using next_id_fresh [OF assms(1)] assms(2)
  by (auto simp: ep_below_def with_assoc_def not_le [symmetric])

lemma with_assoc_inv:
  assumes "ep_inv s" and g: "unat (assoc_id_gen s) + 1 < 2 ^ 64"
    and "association_new (AssocId (assoc_id_gen s + 1)) t n limit ts now = Ret a"
  shows "ep_inv (with_assoc s (assoc_id_gen s + 1) info original addrs a)"
proof -
  let ?i = "AssocId (assoc_id_gen s + 1)" and ?s = "with_assoc s (assoc_id_gen s + 1) info original addrs a"
  have le: "AssocId (assoc_id_gen s) \<le> ?i" using next_id_fresh [OF g] by simp
  have dom: "dom (assoc_infos ?s) = insert ?i (dom (assoc_infos s))"
    by (auto simp: with_assoc_def)
  have "rx_note_ok ?s x" if "rx_note_ok s x" for x
    using that le by (auto simp: rx_note_ok_def with_assoc_def split: rx_note.splits prod.splits intro: order_trans)
  then have rx: "list_all (rx_note_ok ?s) (sc_rx_notifications s)"
    using assms(1) by (auto simp: ep_inv_def list_all_iff)
  have "ran ((sc_aliases s)(original \<mapsto> ?i)) \<subseteq> insert ?i (ran (sc_aliases s))"
    by (auto simp: ran_def)
  then have "ran (sc_aliases ?s) \<subseteq> insert ?i (ran (sc_aliases s))"
    using insert_aliases_ran [of original ?i addrs "(sc_aliases s)(original \<mapsto> ?i)"]
    by (auto simp: with_assoc_def)
  moreover have "\<forall>i \<in> dom (assoc_infos s). i \<le> ?i"
    using assms(1) order_trans [OF _ le] unfolding ep_inv_def by blast
  ultimately show ?thesis
    using assms(1) rx association_new_ids [OF assms(3)] association_new_brand_new [OF assms(3)]
    unfolding ep_inv_def dom by (auto simp: with_assoc_def)
qed

lemma tx_note_inv:
  "ep_inv s \<Longrightarrow> i \<in> dom (assoc_infos s) \<Longrightarrow>
     ep_inv (s\<lparr>sc_tx_notifications := sc_tx_notifications s @ [(i, TxSend CStateCookieAck)]\<rparr>)"
  by (auto simp: ep_inv_def cookie_ack_note_def rx_note_ok_def [abs_def])

lemma push_rx_inv:
  "ep_inv s \<Longrightarrow> i \<in> dom (assoc_infos s) \<Longrightarrow> forwarded c \<Longrightarrow>
     ep_inv (push_rx s i (RxChunk c)) \<and> ep_below s (push_rx s i (RxChunk c))"
  by (auto simp: ep_inv_def push_rx_def rx_note_ok_def [abs_def])

lemma abort_assoc_inv:
  assumes "ep_inv s" and "i \<in> dom (assoc_infos s)" and "c = CAbort r e"
  shows "ep_inv (abort_assoc s i from p c)" and "ep_below s (abort_assoc s i from p c)"
proof -
  let ?t = "abort_assoc s i from p c"
  have le: "i \<le> AssocId (assoc_id_gen s)" using assms(1,2) unfolding ep_inv_def by blast
  note defs = abort_assoc_def push_rx_def Let_def
  have dom: "dom (assoc_infos ?t) = dom (assoc_infos s) - {i}" "assoc_id_gen ?t = assoc_id_gen s"
    by (auto simp: defs)
  have ran: "ran (sc_aliases ?t) \<subseteq> ran (sc_aliases s) - {i}"
    by (auto simp: defs ran_def split: option.splits if_splits)
  have tx: "fst ` set (sc_tx_notifications ?t) \<subseteq> fst ` set (sc_tx_notifications s) - {i}"
    by (auto simp: defs)
  have "rx_note_ok ?t x" if x: "x \<in> set (sc_rx_notifications ?t)" for x
  proof -
    consider "x = (i, RxChunk c)" | "fst x \<noteq> i" "x \<in> set (sc_rx_notifications s)"
      using x by (auto simp: defs)
    then show ?thesis
    proof cases
      case 1
      then show ?thesis using assms(3) le dom by (simp add: rx_note_ok_def forwarded_def)
    next
      case 2
      then have "rx_note_ok s x" using assms(1) by (auto simp: ep_inv_def list_all_iff)
      with 2 show ?thesis
        unfolding rx_note_ok_def dom by (auto split: prod.splits rx_note.splits)
    qed
  qed
  then have rx: "list_all (rx_note_ok ?t) (sc_rx_notifications ?t)"
    by (simp add: list_all_iff)
  have new: "sc_new_assoc ?t = sc_new_assoc s" by (simp add: defs)
  have acks: "list_all cookie_ack_note (sc_tx_notifications ?t)"
    using assms(1) by (simp add: ep_inv_def defs list_all_iff)
  note inv = assms(1) [unfolded ep_inv_def]
  show "ep_inv ?t"
    unfolding ep_inv_def dom new
  proof (intro conjI)
    show "\<forall>j \<in> dom (assoc_infos s) - {i}. j \<le> AssocId (assoc_id_gen s)" using inv by simp
    show "ran (sc_aliases ?t) \<subseteq> dom (assoc_infos s) - {i}"
      using inv by (intro subset_trans [OF ran] Diff_mono) simp_all
    show "fst ` set (sc_tx_notifications ?t) \<subseteq> dom (assoc_infos s) - {i}"
      using inv by (intro subset_trans [OF tx] Diff_mono) simp_all
  qed (use rx inv acks in \<open>simp_all\<close>)
  show "ep_below s ?t"
    by (auto simp: defs ep_below_def)
qed

lemma process_chunk_inv:
  assumes "ep_inv s" and "i \<in> dom (assoc_infos s)" and "process_chunk i from p info r s = (s', again)"
  shows "ep_inv s' \<and> ep_below s s' \<and> (again \<longrightarrow> i \<in> dom (assoc_infos s'))"
proof (cases r)
  case (Inr c)
  have fwd: "ep_inv (push_rx s i (RxChunk c)) \<and> ep_below s (push_rx s i (RxChunk c))
      \<and> i \<in> dom (assoc_infos (push_rx s i (RxChunk c)))" if "forwarded c"
    using push_rx_inv [OF assms(1,2) that] assms(2) by (simp add: push_rx_def)
  have same: "i \<in> dom (assoc_infos (push_immediate s m))" for m
    using assms(2) by (simp add: push_immediate_def)
  show ?thesis
    using assms fwd same Inr abort_assoc_inv [OF assms(1,2), of c]
    by (cases c) (auto simp: process_chunk_def forwarded_def)
next
  case (Inl e)
  with assms show ?thesis
    by (cases e) (auto simp: process_chunk_def push_immediate_def split: if_splits)
qed

lemma process_loop_inv:
  "ep_inv s \<Longrightarrow> i \<in> dom (assoc_infos s) \<Longrightarrow> process_loop i from p info s data = Ret s' \<Longrightarrow>
     ep_inv s' \<and> ep_below s s'"
proof (induction i "from" p info s data rule: process_loop.induct)
  case (1 i "from" p info s data)
  show ?case
  proof (cases "data = []")
    case True
    then show ?thesis using 1 by (simp add: process_loop.simps)
  next
    case False
    obtain n and r :: "parse_error + 'a chunk" where n: "chunk_parse data = Ret (n, r)"
      "advance data n = Ret (drop n data)"
      by (rule chunk_parse_cases [of data])
    obtain s1 again where s1: "process_chunk i from p info r s = (s1, again)" by fastforce
    note step = process_chunk_inv [OF "1.prems"(1,2) s1]
    have "process_loop i from p info s data =
        (if again then process_loop i from p info s1 (drop n data) else Ret s1)"
      using False n s1 by (subst process_loop.simps) simp
    then show ?thesis
      using "1.IH" [OF False n(1) refl n(2) s1 [symmetric] refl] step "1.prems"(3)
      by (auto intro: ep_below_trans split: if_splits)
  qed
qed

lemma process_chunks_inv:
  assumes "ep_inv s" and "process_chunks s i from p data = Ret s'"
  shows "ep_inv s' \<and> ep_below s s'"
proof (cases "assoc_infos s i")
  case (Some info)
  then have "i \<in> dom (assoc_infos s)" by blast
  then show ?thesis
    using assms Some process_loop_inv [OF assms(1)]
    by (cases "pa_local_verification_tag info = pk_verification_tag p") (simp_all add: process_chunks_def)
qed (use assms in \<open>simp add: process_chunks_def\<close>)

lemma handle_cookie_echo_inv:
  assumes "ep_inv s" and "handle_cookie_echo I hash s p data from now = Ret (s', data', r)"
  shows "ep_inv s' \<and> ep_below s s'"
  using assms(2)
proof (cases rule: handle_cookie_echo_Ret)
  case (fresh n k a i)
  let ?s = "with_assoc s (assoc_id_gen s + 1)
      \<lparr>pa_local_verification_tag = ck_local_verification_tag k, pa_peer_verification_tag = ck_peer_verification_tag k\<rparr>
      (alias_of (init_address k) p) (ck_aliases k) a"
  have "ep_inv ?s" by (rule with_assoc_inv [OF assms(1) fresh(5) fresh(7) [unfolded fresh(6)]])
  then have "ep_inv (?s\<lparr>sc_tx_notifications := sc_tx_notifications ?s @ [(i, TxSend CStateCookieAck)]\<rparr>)"
    by (rule tx_note_inv) (simp add: with_assoc_def fresh(6))
  moreover have "sc_tx_notifications ?s = sc_tx_notifications s" by (simp add: with_assoc_def)
  ultimately show ?thesis
    using fresh(8) with_assoc_below [OF fresh(5)] association_new_ids [OF fresh(7)] fresh(6) by simp
qed (use assms in simp)

lemma handle_cookie_ack_inv:
  assumes "ep_inv s" and "handle_cookie_ack s p data from now = Ret (s', data', r)"
  shows "ep_inv s' \<and> ep_below s s'"
  using assms(2)
proof (cases rule: handle_cookie_ack_Ret)
  case (fresh h a i)
  let ?s = "s\<lparr>sc_wait_cookie_ack := (sc_wait_cookie_ack s)(alias_of from p := None)\<rparr>"
  have g: "unat (assoc_id_gen ?s) + 1 < 2 ^ 64" "ep_inv ?s" using fresh assms(1) by simp_all
  have "association_new (AssocId (assoc_id_gen ?s + 1)) (wc_peer_initial_tsn h)
      (min (wc_local_in_streams h) (wc_peer_in_streams h)) (st_in_buffer_limit (sc_settings s)) (ack_settings s p h) now = Ret a"
    using fresh by simp
  from with_assoc_inv [OF g(2,1) this] show ?thesis
    using fresh(5,7) with_assoc_below [OF g(1), of a] association_new_ids [OF fresh(6)]
    by (simp add: ep_below_def)
qed (use assms in simp)

lemma handle_init_inv:
  assumes "ep_inv s" and "handle_init hash t v s p data from = Ret (s', r)"
  shows "ep_inv s' \<and> ep_below s s'"
  by (cases rule: handle_init_cases [of data hash t v s p "from"]) (use assms in auto)

lemma handle_init_ack_inv:
  assumes "ep_inv s" and "handle_init_ack s p data from = Ret (s', r)"
  shows "ep_inv s' \<and> ep_below s s'"
  by (cases rule: handle_init_ack_cases [of data s p "from"]) (use assms in auto)

lemma receive_data_inv:
  assumes "ep_inv s" and "receive_data crc I hash t v s data from now = Ret s'"
  shows "ep_inv s' \<and> ep_below s s'"
proof (cases "packet_parse crc data")
  case (Some p)
  obtain d where d: "advance data 12 = Ret d"
    using assms(2) Some by (auto simp: receive_data_def outcome)
  obtain s1 r1 where s1: "handle_init hash t v s p d from = Ret (s1, r1)"
    using assms(2) Some d by (auto simp: receive_data_def outcome)
  note i1 = handle_init_inv [OF assms(1) s1]
  show ?thesis
  proof (cases "handled_or_error r1")
    case go: False
    obtain s2 r2 where s2: "handle_init_ack s1 p d from = Ret (s2, r2)"
      using assms(2) Some d s1 go by (auto simp: receive_data_def outcome)
    note i2 = handle_init_ack_inv [OF conjunct1 [OF i1] s2]
    show ?thesis
    proof (cases "handled_or_error r2")
      case go2: False
      obtain s3 d3 r3 where s3: "handle_cookie_echo I hash s2 p d from now = Ret (s3, d3, r3)"
        using assms(2) Some d s1 s2 go go2 by (auto simp: receive_data_def outcome)
      note i3 = handle_cookie_echo_inv [OF conjunct1 [OF i2] s3]
      show ?thesis
      proof (cases "r3 = HandleError")
        case go3: False
        obtain s4 d4 r4 where s4: "handle_cookie_ack s3 p d3 from now = Ret (s4, d4, r4)"
          using assms(2) Some d s1 s2 s3 go go2 go3 by (auto simp: receive_data_def outcome)
        note i4 = handle_cookie_ack_inv [OF conjunct1 [OF i3] s4]
        have "s' = s4 \<or> (\<exists>i. process_chunks s4 i from p d4 = Ret s')"
          using assms(2) Some d s1 s2 s3 s4 go go2 go3
          by (auto simp: receive_data_def Let_def split: if_splits option.splits)
        then have "ep_inv s' \<and> ep_below s4 s'"
          using i4 process_chunks_inv [of s4] by auto
        with i1 i2 i3 i4 show ?thesis
          using ep_below_trans by blast
      next
        case True
        then show ?thesis
          using assms(2) Some d s1 s2 s3 go go2 i1 i2 i3 ep_below_trans by (auto simp: receive_data_def) blast
      qed
    next
      case True
      then show ?thesis
        using assms(2) Some d s1 s2 go i1 i2 ep_below_trans by (auto simp: receive_data_def)
    qed
  next
    case True
    then show ?thesis
      using assms(2) Some d s1 i1 by (auto simp: receive_data_def)
  qed
qed (use assms in \<open>simp add: receive_data_def\<close>)

end
