(* ===== verification/Endpoint_Props.thy ===== *)
theory Endpoint_Props
  imports Endpoint_Inv Rx_Props
begin

text \<open>
  Properties of the endpoint: what holds in every reachable state, on which packets it panics,
  what an INIT, an ABORT and an unauthenticated packet do, and what the handshake does not check.
\<close>

subsection \<open>Runs\<close>

datatype 'f ep_op =
    EpReceive bytes "'f transport_address" instant u32 u32  \<comment> \<open>a packet, with the random numbers it may draw\<close>
  | EpInit "'f transport_address" u16 u16 u32 u32
  | EpRxNotes | EpTxNotes | EpSendAll | EpSendNext | EpNewAssoc

fun ep_apply :: "crc32 \<Rightarrow> 'f fake_addr_impl \<Rightarrow> 'f hasher \<Rightarrow> 'f ep_op \<Rightarrow> 'f sctp \<Rightarrow> 'f sctp rust" where
  "ep_apply crc I hash (EpReceive data from now t v) s = receive_data crc I hash t v s data from now"
| "ep_apply crc I hash (EpInit addr pport lport v t) s = Ret (init_association v t s addr pport lport)"
| "ep_apply crc I hash EpRxNotes s = Ret (fst (rx_notifications s))"
| "ep_apply crc I hash EpTxNotes s = Ret (fst (sctp_tx_notifications s))"
| "ep_apply crc I hash EpSendAll s = Ret (fst (send_immediate s))"
| "ep_apply crc I hash EpSendNext s = Ret (fst (next_send_immediate s))"
| "ep_apply crc I hash EpNewAssoc s = Ret (fst (new_assoc s))"

lemma ep_inv_taken:
  assumes "ep_inv s"
  shows "ep_inv (s\<lparr>sc_rx_notifications := []\<rparr>)" "ep_inv (s\<lparr>sc_tx_notifications := []\<rparr>)"
    "ep_inv (s\<lparr>sc_new_assoc := None\<rparr>)" "ep_below s (s\<lparr>sc_new_assoc := None\<rparr>)"
  using assms by (simp_all add: ep_inv_def ep_below_def rx_note_ok_def [abs_def])

lemma ep_apply_inv:
  assumes "ep_inv s" and "ep_apply crc I hash e s = Ret s'"
  shows "ep_inv s' \<and> ep_below s s'"
proof (cases e)
  case (EpReceive data "from" now t v)
  then show ?thesis using receive_data_inv [OF assms(1)] assms(2) by simp
next
  case (EpInit addr pport lport v t)
  then show ?thesis using assms by (auto simp: init_association_def Let_def)
next
  case EpSendNext
  then show ?thesis using assms by (auto simp: next_send_immediate_def split: list.splits)
qed (use assms ep_inv_taken [OF assms(1)] in
      \<open>auto simp: rx_notifications_def sctp_tx_notifications_def send_immediate_def new_assoc_def\<close>)

interpretation endpoint: ordered_system "ep_apply crc I hash" "\<lambda>_. True" ep_inv ep_below for crc I hash
proof
  show "ep_inv s'" "ep_below s s'" if "ep_inv s" "ep_apply crc I hash e s = Ret s'" for e and s s' :: "'a sctp"
    using ep_apply_inv [OF that] by simp_all
qed (simp, rule ep_below_trans)

lemma sctp_new_inv: "ep_inv (sctp_new st)"
  by (simp add: ep_inv_def sctp_new_def)

lemma ep_reachable:
  assumes "runR (ep_apply crc I hash) ops (sctp_new st) = Ret s"
  shows "ep_inv s" and "ep_below (sctp_new st) s"
  using endpoint.run_inv [OF sctp_new_inv _ assms] endpoint.run_below [OF sctp_new_inv _ assms]
  by (simp_all add: list_all_iff)

subsection \<open>Panics\<close>

lemma process_loop_returns: "returns (process_loop i from p info s data)"
proof (induction i "from" p info s data rule: process_loop.induct)
  case (1 i "from" p info s data)
  obtain n and r :: "parse_error + 'a chunk" where n: "chunk_parse data = Ret (n, r)"
    "advance data n = Ret (drop n data)"
    by (rule chunk_parse_cases [of data])
  obtain s1 again where s1: "process_chunk i from p info r s = (s1, again)" by fastforce
  show ?case
    using "1.IH" [OF _ n(1) refl n(2) s1 [symmetric] refl] n s1
    by (subst process_loop.simps) simp
qed

lemma process_chunks_returns: "returns (process_chunks s i from p data)"
  by (simp add: process_chunks_def process_loop_returns split: option.split)

lemma handle_init_returns: "\<exists>s' r. handle_init hash t v s p data from = Ret (s', r)
    \<and> (\<not> is_init data \<longrightarrow> s' = s \<and> r = NotRecognized) \<and> assoc_id_gen s' = assoc_id_gen s"
  by (cases rule: handle_init_cases [of data hash t v s p "from"]) (auto simp: push_immediate_def)

lemma handle_init_ack_returns: "\<exists>s' r. handle_init_ack s p data from = Ret (s', r)
    \<and> (\<not> is_init_ack data \<longrightarrow> s' = s \<and> r = NotRecognized) \<and> assoc_id_gen s' = assoc_id_gen s"
  by (cases rule: handle_init_ack_cases [of data s p "from"]) (auto simp: push_immediate_def)

lemma handle_cookie_ack_returns:
  assumes "unat (assoc_id_gen s) + 1 < 2 ^ 64"
  shows "returns (handle_cookie_ack s p data from now)"
proof (cases rule: handle_cookie_ack_cases [of data s p "from" now])
  case (fresh n h)
  let ?s = "s\<lparr>sc_wait_cookie_ack := (sc_wait_cookie_ack s)(alias_of from p := None)\<rparr>"
  have "unat (assoc_id_gen ?s) + 1 < 2 ^ 64" using assms by simp
  then show ?thesis
    by (rule make_new_assoc_cases [of ?s "wc_peer_initial_tsn h" "min (wc_local_in_streams h) (wc_peer_in_streams h)"
          "ack_settings s p h" now p "wc_aliases h" "wc_local_verification_tag h"]) (simp add: fresh(5))
qed simp_all

lemma handle_cookie_echo_outcome:
  assumes "unat (assoc_id_gen s) + 1 < 2 ^ 64"
  shows "case handle_cookie_echo I hash s p data from now of
      Panic q \<Rightarrow> is_cookie_echo data \<and> echoed I data = Panic q
    | Ret (s', _, _) \<Rightarrow> unat (assoc_id_gen s') \<le> unat (assoc_id_gen s) + 1 \<and> (is_cookie_echo data \<longrightarrow> returns (echoed I data))"
proof (cases "handle_cookie_echo I hash s p data from now")
  case (Ret x)
  obtain s' d r where x: "x = (s', d, r)" by (cases x)
  have "unat (assoc_id_gen s') \<le> unat (assoc_id_gen s) + 1"
    using Ret [unfolded x]
  proof (cases rule: handle_cookie_echo_Ret)
    case (fresh n k a i)
    then have "unat (assoc_id_gen s') = unat (assoc_id_gen s) + 1"
      using assms by (simp add: with_assoc_def unat_word_ariths)
    then show ?thesis by simp
  qed simp
  moreover have "is_cookie_echo data \<longrightarrow> returns (echoed I data)"
    using Ret by (auto simp: handle_cookie_echo_echoed outcome)
  ultimately show ?thesis using Ret x by simp
next
  case (Panic q)
  have "is_cookie_echo data" using Panic by (auto simp: handle_cookie_echo_echoed split: if_splits)
  moreover have "echoed I data = Panic q"
  proof (cases "echoed I data")
    case (Ret e)
    have "returns (handle_cookie_echo I hash s p data from now)"
    proof (cases e)
      case (Some nk)
      obtain n k where nk: "nk = (n, k)" by (cases nk)
      show ?thesis
        by (rule make_new_assoc_cases [OF assms, of "ck_peer_initial_tsn k" "ck_incoming_streams k" "cookie_settings s k"
              now p "ck_aliases k" "ck_local_verification_tag k"])
           (simp add: handle_cookie_echo_echoed Ret Some nk split: option.split)
    qed (simp add: handle_cookie_echo_echoed Ret)
    with Panic show ?thesis by simp
  qed (use Panic \<open>is_cookie_echo data\<close> in \<open>simp add: handle_cookie_echo_echoed\<close>)
  ultimately show ?thesis using Panic by simp
qed

lemma special_disjoint: "is_cookie_echo d \<Longrightarrow> \<not> is_init d \<and> \<not> is_init_ack d"
  by (auto simp: is_cookie_echo_def is_init_def is_init_ack_def first_chunk_is_def split: if_splits)

lemma packet_parse_advance: "packet_parse crc data = Some p \<Longrightarrow> advance data 12 = Ret (drop 12 data)"
  by (auto simp: packet_parse_def advance_def split: if_splits)

lemma receive_data_panic_iff:
  fixes s :: "'f sctp"
  assumes "unat (assoc_id_gen s) + 2 < 2 ^ 64"
  shows "receive_data crc I hash t v s data from now = Panic q \<longleftrightarrow>
    (\<exists>p. packet_parse crc data = Some p \<and> is_cookie_echo (drop 12 data) \<and> echoed I (drop 12 data) = Panic q)"
proof (cases "packet_parse crc data")
  case (Some p)
  let ?d = "drop 12 data"
  note adv = packet_parse_advance [OF Some]
  obtain s1 r1 where s1: "handle_init hash t v s p ?d from = Ret (s1, r1)"
    "\<not> is_init ?d \<longrightarrow> s1 = s \<and> r1 = NotRecognized" "assoc_id_gen s1 = assoc_id_gen s"
    using handle_init_returns by blast
  obtain s2 r2 where s2: "handle_init_ack s1 p ?d from = Ret (s2, r2)"
    "\<not> is_init_ack ?d \<longrightarrow> s2 = s1 \<and> r2 = NotRecognized" "assoc_id_gen s2 = assoc_id_gen s1"
    using handle_init_ack_returns by blast
  have gen: "unat (assoc_id_gen s2) + 1 < 2 ^ 64" using assms s1 s2 by simp
  have echo: "case handle_cookie_echo I hash s2 p ?d from now of
      Panic q \<Rightarrow> is_cookie_echo ?d \<and> echoed I ?d = Panic q
    | Ret (s', _, _) \<Rightarrow> unat (assoc_id_gen s') \<le> unat (assoc_id_gen s2) + 1
        \<and> (is_cookie_echo ?d \<longrightarrow> returns (echoed I ?d))"
    by (rule handle_cookie_echo_outcome [OF gen])
  show ?thesis
  proof (cases "handled_or_error r1 \<or> handled_or_error r2")
    case True
    then have "\<not> is_cookie_echo ?d"
      using special_disjoint s1(2) s2(2) by (auto simp: handled_or_error_def)
    with True show ?thesis
      using Some adv s1(1) s2(1) by (auto simp: receive_data_def)
  next
    case go: False
    show ?thesis
    proof (cases "handle_cookie_echo I hash s2 p ?d from now")
      case (Panic q')
      with go echo show ?thesis
        using Some adv s1(1) s2(1) by (auto simp: receive_data_def)
    next
      case (Ret x)
      obtain s3 d3 r3 where x: "x = (s3, d3, r3)" by (cases x)
      have "unat (assoc_id_gen s3) + 1 < 2 ^ 64"
        using echo assms s1(3) s2(3) by (simp add: Ret x)
      then obtain s4 d4 r4 where s4: "handle_cookie_ack s3 p d3 from now = Ret (s4, d4, r4)"
        using handle_cookie_ack_returns by (metis returns_iff prod_cases3)
      have "returns (receive_data crc I hash t v s data from now)"
        using go Some adv s1(1) s2(1) Ret x s4
        by (simp add: receive_data_def Let_def process_chunks_returns split: option.split)
      moreover have "is_cookie_echo ?d \<longrightarrow> returns (echoed I ?d)"
        using echo by (simp add: Ret x)
      ultimately show ?thesis
        using Some by (auto simp: returns_iff)
    qed
  qed
qed (simp add: receive_data_def)

lemma option_chunk_not_cookie: "option_chunk f x = Inr (CStateCookie k) \<Longrightarrow> \<exists>y. f y = CStateCookie k"
  by (auto simp: option_chunk_def split: option.splits)

lemma chunk_parse_cookie:
  assumes "chunk_parse d = Ret (n, Inr (CStateCookie x))"
  obtains k where "x = Opaque k"
proof -
  obtain t f v where "chunk_match t f v = Ret (Inr (CStateCookie x))"
    using assms by (auto simp: chunk_parse_def Let_def outcome split: if_splits)
  then show thesis
    using that by (auto simp: chunk_match_def outcome split: if_splits dest!: option_chunk_not_cookie)
qed

lemma echoed_panic_iff:
  "echoed fake_addr_socket d = Panic q \<longleftrightarrow> q = BufUnderflow \<and>
     (\<exists>n k. chunk_parse d = Ret (n, Inr (CStateCookie (Opaque k) :: socket_addr chunk)) \<and> 33 \<le> length k \<and> length k \<le> 36)"
proof -
  obtain n and r :: "parse_error + socket_addr chunk" where r: "chunk_parse d = Ret (n, r)"
    by (rule chunk_parse_cases [of d])
  show ?thesis
  proof (cases "\<exists>k. r = Inr (CStateCookie k)")
    case True
    then obtain k where k: "r = Inr (CStateCookie (Opaque k))"
      using r chunk_parse_cookie by blast
    then have "echoed fake_addr_socket d = Panic q \<longleftrightarrow> cookie_parse fake_addr_socket k = Panic q"
      using r by (simp add: echoed_def bindR_eq_Panic)
    also have "\<dots> \<longleftrightarrow> q = BufUnderflow \<and> 33 \<le> length k \<and> length k \<le> 36"
      using socket_addr.cookie_parse_returns_iff [of k] cookie_parse_underflow [of k fake_addr_socket]
      by (auto simp: returns_iff)
    finally show ?thesis using r k by auto
  next
    case False
    with r show ?thesis
      by (auto simp: echoed_def split: sum.splits chunk.splits)
  qed
qed

subsection \<open>Packets of an established association\<close>

definition plain :: "bytes \<Rightarrow> bool" where
  "plain d = (\<not> is_init d \<and> \<not> is_init_ack d \<and> \<not> is_cookie_echo d \<and> \<not> is_cookie_ack d)"

definition handshake_chunk :: "'f chunk \<Rightarrow> bool" where
  "handshake_chunk c = (case c of CInit _ \<Rightarrow> True | CInitAck _ \<Rightarrow> True | CStateCookie _ \<Rightarrow> True
     | CStateCookieAck \<Rightarrow> True | _ \<Rightarrow> False)"

lemma receive_plain:
  assumes "packet_parse crc data = Some p" and "plain (drop 12 data)"
  shows "receive_data crc I hash t v s data from now =
    (case sc_aliases s (alias_of from p) of
       None \<Rightarrow> Ret s | Some i \<Rightarrow> process_chunks s i from p (drop 12 data))"
  using assms packet_parse_advance [OF assms(1)]
  by (simp add: receive_data_def plain_def handle_init_def handle_init_ack_def handle_cookie_echo_def
      handle_cookie_ack_def handled_or_error_def)

lemma parsed_plain: "chunk_parse d = Ret (n, Inr c) \<Longrightarrow> \<not> handshake_chunk c \<Longrightarrow> plain d"
  by (auto simp: plain_def parsed_special handshake_chunk_def)

text \<open>A packet of the association with the right tag and a single chunk, or one that ends it.\<close>

lemma receive_single:
  assumes "packet_parse crc data = Some p" and "plain (drop 12 data)"
    and "sc_aliases s (alias_of from p) = Some i" and "assoc_infos s i = Some info"
    and "pa_local_verification_tag info = pk_verification_tag p" and "drop 12 data \<noteq> []"
    and "chunk_parse (drop 12 data) = Ret (n, r)" and "process_chunk i from p info r s = (s', again)"
    and "again \<longrightarrow> n = length (drop 12 data)"
  shows "receive_data crc I hash t v s data from now = Ret s'"
proof -
  obtain m and r' :: "parse_error + 'a chunk" where "chunk_parse (drop 12 data) = Ret (m, r')"
    "advance (drop 12 data) m = Ret (drop m (drop 12 data))"
    by (rule chunk_parse_cases)
  then have adv: "advance (drop 12 data) n = Ret (drop n (drop 12 data))"
    using assms(7) by simp
  have stop: "process_loop i from p info s' [] = Ret s'"
    by (simp add: process_loop.simps)
  have "process_loop i from p info s (drop 12 data) = Ret s'"
    using assms(6-9) adv by (subst process_loop.simps) (auto simp: stop simp del: drop_drop)
  then show ?thesis
    by (subst receive_plain [OF assms(1,2)]) (simp add: process_chunks_def assms(3-5))
qed

lemma calc_mac_ignores_mac [simp]: "calc_mac hash (k\<lparr>mac := m\<rparr>) secret = calc_mac hash k secret"
  by (simp add: calc_mac_def)

lemma insert_aliases_hit: "m a = Some i \<Longrightarrow> insert_aliases original i as m a = Some i"
  by (induction "as" arbitrary: m) auto

subsection \<open>An example endpoint\<close>

definition demo_header :: bytes where "demo_header = [0, 100, 0, 200, 0, 0, 0, 22, 0, 0, 0, 0]"

definition demo_packet :: packet where "demo_packet = \<lparr>pk_from = 100, pk_to = 200, pk_verification_tag = 22\<rparr>"

definition demo_ep :: "socket_addr sctp" where
  "demo_ep = (sctp_new \<lparr>st_cookie_secret = [1], st_incoming_streams = 1, st_outgoing_streams = 1,
       st_in_buffer_limit = 100, st_out_buffer_limit = 100\<rparr>)
     \<lparr>assoc_id_gen := 2, assoc_infos := [AssocId 2 \<mapsto> \<lparr>pa_local_verification_tag = 22, pa_peer_verification_tag = 11\<rparr>],
       sc_aliases := [\<lparr>peer_addr = IpV4 1, al_peer_port = 100, al_local_port = 200\<rparr> \<mapsto> AssocId 2]\<rparr>"

lemma demo_packet: "packet_parse (\<lambda>_. 0) (demo_header @ d) = Some demo_packet"
  by (simp add: demo_header_def demo_packet_def packet_parse_def be_nat_def Let_def)

lemma demo_drop [simp]: "drop 12 (demo_header @ d) = d"
  by (simp add: demo_header_def)

lemma demo_ep_sel [simp]:
  "sc_aliases demo_ep (alias_of (IpV4 1) demo_packet) = Some (AssocId 2)"
  "assoc_infos demo_ep (AssocId 2) = Some \<lparr>pa_local_verification_tag = 22, pa_peer_verification_tag = 11\<rparr>"
  "assoc_id_gen demo_ep = 2"
  "pk_verification_tag demo_packet = 22"
  by (simp_all add: demo_ep_def alias_of_def demo_packet_def)

lemma demo_abort: "chunk_parse [6, 0, 0, 4] = Ret (4, Inr (CAbort False []))"
  by (simp add: chunk_parse_def chunk_match_def CHUNK_HEADER_SIZE_def be_nat_def padded_len_def Let_def)

lemma demo_error: "chunk_parse [9, 0, 0, 4] = Ret (4, Inr COpError)"
  by (simp add: chunk_parse_def chunk_match_def CHUNK_HEADER_SIZE_def be_nat_def padded_len_def Let_def)

lemma demo_short_cookie: "chunk_parse ([10, 0, 0, 37] @ replicate 33 0) = Ret (37, Inr (CStateCookie (Opaque (replicate 33 0))))"
  by (simp add: chunk_parse_def chunk_match_def CHUNK_HEADER_SIZE_def be_nat_def padded_len_def Let_def)

subsection \<open>Properties\<close>

text \<open>
  C9. In every reachable state of an endpoint: the identifiers of associations were all given
  out by the counter, so the next one is fresh; every alias and every notification for a
  transmitter names a known association; every notification for a receiver names a known
  association or is the ABORT that ended it, and never carries an INIT, INIT ACK, HEARTBEAT or
  padding. And between two reachable states, an identifier keeps its verification tags until its
  association is gone, and is never used again.
\<close>

theorem endpoint_reachable_inv:
  assumes "runR (ep_apply crc I hash) ops (sctp_new st) = Ret s" and "unat (assoc_id_gen s) + 1 < 2 ^ 64"
    and "runR (ep_apply crc I hash) later s = Ret s'"
  shows "AssocId (assoc_id_gen s + 1) \<notin> dom (assoc_infos s)
    \<and> ran (sc_aliases s) \<subseteq> dom (assoc_infos s)
    \<and> fst ` set (sc_tx_notifications s) \<subseteq> dom (assoc_infos s)
    \<and> (\<forall>i c. (i, RxChunk c) \<in> set (sc_rx_notifications s) \<longrightarrow> forwarded c
         \<and> (i \<in> dom (assoc_infos s) \<or> (\<exists>r e. c = CAbort r e)))
    \<and> (\<forall>i \<le> AssocId (assoc_id_gen s). assoc_infos s' i = assoc_infos s i \<or> assoc_infos s' i = None)"
proof -
  note inv = ep_reachable(1) [OF assms(1)]
  have fresh: "AssocId (assoc_id_gen s + 1) \<notin> dom (assoc_infos s)"
  proof
    assume "AssocId (assoc_id_gen s + 1) \<in> dom (assoc_infos s)"
    then have "AssocId (assoc_id_gen s + 1) \<le> AssocId (assoc_id_gen s)"
      by (rule bspec [OF conjunct1 [OF inv [unfolded ep_inv_def]]])
    then show False using next_id_fresh [OF assms(2)] by simp
  qed
  have rx: "forwarded c \<and> (i \<in> dom (assoc_infos s) \<or> (\<exists>r e. c = CAbort r e))"
    if "(i, RxChunk c) \<in> set (sc_rx_notifications s)" for i c
  proof -
    have "rx_note_ok s (i, RxChunk c)"
      using inv that by (simp only: ep_inv_def list_all_iff)
    then show ?thesis
      unfolding rx_note_ok_def prod.case rx_note.case by blast
  qed
  have "ep_below s s'"
    using endpoint.run_below [OF inv _ assms(3)] by (simp add: list_all_iff)
  with fresh rx inv show ?thesis
    unfolding ep_inv_def ep_below_def by (intro conjI allI impI; elim conjE) simp_all
qed

theorem endpoint_reachable_inv_witness:
  "\<exists>s :: socket_addr sctp.
     runR (ep_apply (\<lambda>_. 0) fake_addr_socket (\<lambda>_. 7)) [EpInit (IpV4 1) 100 200 22 5] (sctp_new (sc_settings demo_ep)) = Ret s
     \<and> AssocId (assoc_id_gen s + 1) \<notin> dom (assoc_infos s) \<and> sc_send_immediate s \<noteq> []"
proof -
  let ?s = "init_association 22 5 (sctp_new (sc_settings demo_ep)) (IpV4 1) 100 200 :: socket_addr sctp"
  have run: "runR (ep_apply (\<lambda>_. 0) fake_addr_socket (\<lambda>_. 7)) [EpInit (IpV4 1) 100 200 22 5]
      (sctp_new (sc_settings demo_ep)) = Ret ?s"
    by simp
  moreover have "unat (assoc_id_gen ?s) + 1 < 2 ^ 64" "sc_send_immediate ?s \<noteq> []"
    by (simp_all add: init_association_def sctp_new_def push_immediate_def Let_def)
  ultimately show ?thesis
    using endpoint_reachable_inv [OF run, of "[]" ?s] by auto
qed

text \<open>
  C10. On which packets the endpoint panics. As long as identifiers are left, receiving a packet
  returns, whatever its bytes and whatever the state, except for exactly one kind: a packet with
  a valid checksum whose first chunk is a COOKIE ECHO with a cookie of 33 to 36 bytes. The loop
  over the chunks of a packet ends.
\<close>

theorem receive_data_panics_iff:
  assumes "unat (assoc_id_gen s) + 2 < 2 ^ 64"
  shows "receive_data crc fake_addr_socket hash t v s data from now = Panic q \<longleftrightarrow>
    q = BufUnderflow \<and> packet_parse crc data \<noteq> None \<and> is_cookie_echo (drop 12 data)
    \<and> (\<exists>n k. chunk_parse (drop 12 data) = Ret (n, Inr (CStateCookie (Opaque k) :: socket_addr chunk))
         \<and> 33 \<le> length k \<and> length k \<le> 36)"
  using receive_data_panic_iff [OF assms, of crc fake_addr_socket hash t v data "from" now q]
    echoed_panic_iff [of "drop 12 data" q] by auto

theorem receive_data_panics_iff_witness:
  "receive_data (\<lambda>_. 0) fake_addr_socket (\<lambda>_. 7) 0 0 demo_ep (demo_header @ [10, 0, 0, 37] @ replicate 33 0) (IpV4 1) 0
     = Panic BufUnderflow
   \<and> returns (receive_data (\<lambda>_. 0) fake_addr_socket (\<lambda>_. 7) 0 0 demo_ep (demo_header @ [6, 0, 0, 4]) (IpV4 1) 0)"
proof
  have gen: "unat (assoc_id_gen demo_ep) + 2 < 2 ^ 64" by simp
  have "is_cookie_echo ([10, 0, 0, 37] @ replicate 33 0)"
    by (simp add: is_cookie_echo_def first_chunk_is_def CHUNK_HEADER_SIZE_def)
  then show "receive_data (\<lambda>_. 0) fake_addr_socket (\<lambda>_. 7) 0 0 demo_ep
      (demo_header @ [10, 0, 0, 37] @ replicate 33 0) (IpV4 1) 0 = Panic BufUnderflow"
    unfolding receive_data_panics_iff [OF gen] demo_drop demo_packet demo_short_cookie by simp
  have "\<not> is_cookie_echo [6, 0, 0, 4]"
    by (simp add: is_cookie_echo_def first_chunk_is_def)
  then have "receive_data (\<lambda>_. 0) fake_addr_socket (\<lambda>_. 7) 0 0 demo_ep (demo_header @ [6, 0, 0, 4]) (IpV4 1) 0 \<noteq> Panic q" for q
    unfolding receive_data_panics_iff [OF gen] demo_drop by simp
  then show "returns (receive_data (\<lambda>_. 0) fake_addr_socket (\<lambda>_. 7) 0 0 demo_ep (demo_header @ [6, 0, 0, 4]) (IpV4 1) 0)"
    by (auto simp: returns_def split: rust.split)
qed

text \<open>
  C12. An INIT allocates nothing. Receiving a packet that starts with an INIT changes the endpoint
  only by at most one packet to send back: an INIT ACK to the source, whose cookie carries all that
  is known of the peer, is authenticated by the endpoint's secret and bound to the address and the
  ports the INIT came from.
\<close>

theorem init_is_stateless:
  fixes s :: "'f sctp"
  assumes "packet_parse crc data = Some p" and "is_init (drop 12 data)"
  shows "\<exists>ms. receive_data crc I hash t v s data from now =
      Ret (s\<lparr>sc_send_immediate := sc_send_immediate s @ ms\<rparr>)
    \<and> (ms = [] \<or> (\<exists>(init :: 'f init_chunk) a k. ms = [(from, packet_new (pk_to p) (pk_from p) (ic_initiate_tag init), CInitAck a)]
         \<and> chunk_parse (drop 12 data) = Ret (length (drop 12 data), Inr (CInit init))
         \<and> ia_cookie a = Ours k \<and> calc_mac hash k (st_cookie_secret (sc_settings s)) = mac k
         \<and> init_address k = from \<and> ck_peer_port k = pk_from p \<and> ck_local_port k = pk_to p
         \<and> ck_local_verification_tag k = ia_initiate_tag a \<and> ck_local_initial_tsn k = ia_initial_tsn a
         \<and> ck_peer_verification_tag k = ic_initiate_tag init \<and> ck_peer_initial_tsn k = ic_initial_tsn init))"
proof (cases rule: handle_init_cases [of "drop 12 data" hash t v s p "from"])
  case other
  with assms show ?thesis by simp
next
  case bad
  then show ?thesis
    using assms packet_parse_advance [OF assms(1)]
    by (intro exI [of _ "[]"]) (simp add: receive_data_def handled_or_error_def)
next
  case (answer init t' v')
  let ?k = "init_cookie hash s p from init t' v'"
  let ?a = "create_init_ack s (ic_unrecognized init) (Ours ?k) t' v'"
  let ?m = "(from, packet_new (pk_to p) (pk_from p) (ic_initiate_tag init), CInitAck ?a)"
  have "receive_data crc I hash t v s data from now = Ret (s\<lparr>sc_send_immediate := sc_send_immediate s @ [?m]\<rparr>)"
    using assms packet_parse_advance [OF assms(1)] answer(4)
    by (simp add: receive_data_def handled_or_error_def push_immediate_def)
  moreover have "ia_cookie ?a = Ours ?k \<and> calc_mac hash ?k (st_cookie_secret (sc_settings s)) = mac ?k
      \<and> init_address ?k = from \<and> ck_peer_port ?k = pk_from p \<and> ck_local_port ?k = pk_to p
      \<and> ck_local_verification_tag ?k = ia_initiate_tag ?a \<and> ck_local_initial_tsn ?k = ia_initial_tsn ?a
      \<and> ck_peer_verification_tag ?k = ic_initiate_tag init \<and> ck_peer_initial_tsn ?k = ic_initial_tsn init"
    by (simp add: create_init_ack_def init_cookie_def calc_mac_def Let_def)
  ultimately show ?thesis using answer(2) by blast
qed

theorem init_is_stateless_witness:
  "\<exists>ms. receive_data (\<lambda>_. 0) fake_addr_socket (\<lambda>_. 7) 5 6 demo_ep (demo_header @ [1, 0, 0, 20] @ replicate 16 3) (IpV4 9) 0
     = Ret (demo_ep\<lparr>sc_send_immediate := ms\<rparr>)"
proof -
  have "is_init ([1, 0, 0, 20] @ replicate 16 3)"
    by (simp add: is_init_def first_chunk_is_def CHUNK_HEADER_SIZE_def)
  then show ?thesis
    using init_is_stateless [OF demo_packet, of "[1, 0, 0, 20] @ replicate 16 3" fake_addr_socket "\<lambda>_. 7" 5 6 demo_ep "IpV4 9" 0]
    unfolding demo_drop by blast
qed





text \<open>
  C38. A cookie is not bound to its sender. Whoever has a valid cookie can send it from any source
  that the endpoint does not know yet: a new association is made each time, with the same tags, and
  the alias of the address for which the cookie was issued is taken away from the association that
  it belonged to.
\<close>

theorem cookie_replay_takes_over:
  assumes "packet_parse crc data = Some p" and "is_cookie_echo (drop 12 data)"
    and "echoed I (drop 12 data) = Ret (Some (n, k))" and "n = length (drop 12 data)"
    and "calc_mac hash k (st_cookie_secret (sc_settings s)) = mac k"
    and "sc_aliases s (alias_of from p) = None"
    and "ep_inv s" and "unat (assoc_id_gen s) + 1 < 2 ^ 64"
    and "sc_aliases s (alias_of (init_address k) p) = Some old"
  shows "\<exists>s' new. receive_data crc I hash t v s data from now = Ret s'
    \<and> new \<noteq> old \<and> sc_aliases s' (alias_of (init_address k) p) = Some new
    \<and> assoc_infos s' old = assoc_infos s old
    \<and> assoc_infos s' new = Some \<lparr>pa_local_verification_tag = ck_local_verification_tag k,
        pa_peer_verification_tag = ck_peer_verification_tag k\<rparr>"
proof -
  let ?i = "AssocId (assoc_id_gen s + 1)"
  let ?info = "\<lparr>pa_local_verification_tag = ck_local_verification_tag k, pa_peer_verification_tag = ck_peer_verification_tag k\<rparr>"
  obtain b where b: "make_new_assoc s p (ck_aliases k) (ck_local_verification_tag k) (ck_peer_initial_tsn k)
      (ck_incoming_streams k) (cookie_settings s k) now =
      Ret (with_assoc s (assoc_id_gen s + 1)
        \<lparr>pa_local_verification_tag = ck_local_verification_tag k,
         pa_peer_verification_tag = ts_peer_verification_tag (cookie_settings s k)\<rparr>
        (alias_of (ts_primary_path (cookie_settings s k)) p) (ck_aliases k) b, ?i)"
    by (rule make_new_assoc_cases [OF assms(8), of "ck_peer_initial_tsn k" "ck_incoming_streams k"
          "cookie_settings s k" now p "ck_aliases k" "ck_local_verification_tag k"])
  let ?w = "with_assoc s (assoc_id_gen s + 1) ?info (alias_of (init_address k) p) (ck_aliases k) b"
  let ?s = "?w\<lparr>sc_tx_notifications := sc_tx_notifications ?w @ [(?i, TxSend CStateCookieAck)]\<rparr>"
  have "handle_cookie_echo I hash s p (drop 12 data) from now = Ret (?s, [], Handled ?i)"
    using assms(2-6) b by (simp add: handle_cookie_echo_echoed cookie_settings_def)
  moreover have "process_chunks ?s ?i from p [] = Ret ?s"
    by (simp add: process_chunks_def with_assoc_def process_loop.simps)
  moreover have "\<not> is_cookie_ack []"
    by (simp add: is_cookie_ack_def first_chunk_is_def CHUNK_HEADER_SIZE_def)
  ultimately have "receive_data crc I hash t v s data from now = Ret ?s"
    using special_disjoint [OF assms(2)] packet_parse_advance [OF assms(1)] assms(1)
    by (simp add: receive_data_def handle_init_def handle_init_ack_def handle_cookie_ack_def handled_or_error_def)
  moreover have "old \<le> AssocId (assoc_id_gen s)"
    using assms(7,9) unfolding ep_inv_def by (meson ranI subset_iff)
  then have "old \<noteq> ?i" using next_id_fresh [OF assms(8)] by auto
  moreover have "sc_aliases ?s (alias_of (init_address k) p) = Some ?i"
    by (simp add: with_assoc_def insert_aliases_hit)
  ultimately show ?thesis
    by (intro exI [of _ ?s] exI [of _ ?i]) (simp add: with_assoc_def)
qed

lemma packet_tag:
  "alias_of from (p\<lparr>pk_verification_tag := x\<rparr>) = alias_of from p"
  "pk_from (p\<lparr>pk_verification_tag := x\<rparr>) = pk_from p" "pk_to (p\<lparr>pk_verification_tag := x\<rparr>) = pk_to p"
  "make_new_assoc s (p\<lparr>pk_verification_tag := x\<rparr>) = make_new_assoc s p"
  by (simp_all add: alias_of_def make_new_assoc_def fun_eq_iff)

text \<open>
  The answers of the handshake are accepted without looking at the verification tag: an INIT
  ACK and a COOKIE ACK do the same whatever the tag of the packet is. An off-path sender who knows
  the ports can answer an INIT with a tag of its own.
\<close>

theorem handshake_tag_unchecked:
  "handle_init_ack s (p\<lparr>pk_verification_tag := x\<rparr>) data from = handle_init_ack s p data from
   \<and> handle_cookie_ack s (p\<lparr>pk_verification_tag := x\<rparr>) data from now = handle_cookie_ack s p data from now"
  unfolding handle_init_ack_def handle_cookie_ack_def packet_tag by (intro conjI refl)

text \<open>
  C39. A peer can stop an association with one chunk. An authenticated packet with a single chunk
  that the receiver has no case for (an ERROR, a reserved ECN chunk, a second COOKIE ECHO or COOKIE
  ACK behind another chunk) is passed on as a notification, and the notification panics the receiver in
  every state. And when the endpoint meets a chunk of unknown type that asks for a report, it
  queues an ERROR chunk, whose serialization panics.
\<close>

theorem unanswerable_chunks_panic:
  fixes s :: "'f sctp" and c :: "'f chunk"
  assumes "packet_parse crc data = Some p" and "sc_aliases s (alias_of from p) = Some i"
    and "assoc_infos s i = Some info" and "pa_local_verification_tag info = pk_verification_tag p"
    and "chunk_parse (drop 12 data) = Ret (length (drop 12 data), r)" and "plain (drop 12 data)" and "drop 12 data \<noteq> []"
    and "r = Inr c \<and> forwarded c \<and> unhandled c \<or> r = Inl (Unrecognized True stop) \<and> c = COpError"
  shows "\<exists>s'. receive_data crc I hash t v s data from now = Ret s'
    \<and> (case r of
         Inr _ \<Rightarrow> last (sc_rx_notifications s') = (i, RxChunk c) \<and> rx_notification rx (RxChunk c) now = Panic NotYetImplemented
       | Inl _ \<Rightarrow> snd (snd (last (sc_send_immediate s'))) = c \<and> chunk_serialize I c = Panic NotYetImplemented)"
proof -
  obtain s' again where s': "process_chunk i from p info r s = (s', again)" by fastforce
  have "receive_data crc I hash t v s data from now = Ret s'"
    by (rule receive_single [OF assms(1,6,2-4,7,5) s']) simp
  moreover have "case r of
      Inr _ \<Rightarrow> last (sc_rx_notifications s') = (i, RxChunk c) \<and> rx_notification rx (RxChunk c) now = Panic NotYetImplemented
    | Inl _ \<Rightarrow> snd (snd (last (sc_send_immediate s'))) = c \<and> chunk_serialize I c = Panic NotYetImplemented"
    using assms(8)
  proof (elim disjE conjE)
    assume "r = Inr c" "forwarded c" "unhandled c"
    with s' unhandled_panics [of c rx now] show ?thesis
      by (cases c) (auto simp: process_chunk_def forwarded_def unhandled_def push_rx_def)
  next
    assume "r = Inl (Unrecognized True stop)" "c = COpError"
    with s' show ?thesis by (auto simp: process_chunk_def push_immediate_def)
  qed
  ultimately show ?thesis by blast
qed

theorem unanswerable_chunks_panic_witness:
  "\<exists>s'. receive_data (\<lambda>_. 0) fake_addr_socket (\<lambda>_. 7) 0 0 demo_ep (demo_header @ [9, 0, 0, 4]) (IpV4 1) 0 = Ret s'
     \<and> last (sc_rx_notifications s') = (AssocId 2, RxChunk COpError)
     \<and> rx_notification (assoc_rx_new (AssocId 2) 5 1 100) (RxChunk COpError :: socket_addr rx_note) 0 = Panic NotYetImplemented"
proof -
  let ?d = "demo_header @ [9, 0, 0, 4]"
  have error: "chunk_parse (drop 12 ?d) = Ret (length (drop 12 ?d), Inr (COpError :: socket_addr chunk))"
    by (simp only: demo_drop demo_error) simp
  have d: "plain (drop 12 ?d)" "drop 12 ?d \<noteq> []"
    unfolding demo_drop by (rule parsed_plain [OF demo_error]) (simp_all add: handshake_chunk_def)
  show ?thesis
    using unanswerable_chunks_panic [OF demo_packet demo_ep_sel(1,2) _ error d, of COpError True fake_addr_socket
        "\<lambda>_. 7" 0 0 0 "assoc_rx_new (AssocId 2) 5 1 100"]
    by (simp add: forwarded_def unhandled_def del: rx_notification.simps)
qed

end
