(* ===== verification/Handshake.thy ===== *)
theory Handshake
  imports Endpoint_Props
begin

text \<open>
  The four-way handshake between two endpoints, over the wire: every chunk is serialized into a
  packet, and the other side parses the bytes. What is shown of the two associations that result
  is the agreement on which everything else rests: tags, TSNs, ports, windows and streams.
\<close>

subsection \<open>Over the wire\<close>

definition wire :: "crc32 \<Rightarrow> 'f fake_addr_impl \<Rightarrow> packet \<Rightarrow> 'f chunk \<Rightarrow> bytes rust" where
  "wire crc I p c = bindR (chunk_serialize I c) (\<lambda>bs. Ret (packet_serialize crc p bs @ bs))"

text \<open>The message that one endpoint sends, as the other receives it.\<close>

definition deliver ::
  "crc32 \<Rightarrow> 'f fake_addr_impl \<Rightarrow> 'f hasher \<Rightarrow> u32 \<Rightarrow> u32 \<Rightarrow> 'f sctp \<Rightarrow> packet \<times> 'f chunk \<Rightarrow> 'f transport_address \<Rightarrow> instant
   \<Rightarrow> 'f sctp rust" where
  "deliver crc I hash t v s m from now =
     bindR (wire crc I (fst m) (snd m)) (\<lambda>data. receive_data crc I hash t v s data from now)"

text \<open>One party: its address and port, and the random tag and TSN that it draws.\<close>

record 'f party =
  pt_addr :: "'f transport_address"
  pt_port :: u16
  pt_tag :: u32
  pt_tsn :: u32

text \<open>
  The handshake that \<open>a\<close> starts with \<open>b\<close>: INIT, INIT ACK, COOKIE ECHO, and the COOKIE ACK that the new
  association of \<open>b\<close> is told to send.
\<close>

definition handshake ::
  "crc32 \<Rightarrow> 'f fake_addr_impl \<Rightarrow> 'f hasher \<Rightarrow> 'f party \<Rightarrow> 'f sctp \<Rightarrow> 'f party \<Rightarrow> 'f sctp \<Rightarrow> instant
   \<Rightarrow> ('f sctp \<times> 'f sctp) option rust" where
  "handshake crc I hash a A b B now =
     (let A = init_association (pt_tag a) (pt_tsn a) A (pt_addr b) (pt_port b) (pt_port a)
      in bindR (deliver crc I hash (pt_tsn b) (pt_tag b) B (snd (last (sc_send_immediate A))) (pt_addr a) now) (\<lambda>B.
         bindR (deliver crc I hash 0 0 A (snd (last (sc_send_immediate B))) (pt_addr b) now) (\<lambda>A.
         bindR (deliver crc I hash 0 0 B (snd (last (sc_send_immediate A))) (pt_addr a) now) (\<lambda>B.
           case (sc_new_assoc B, snd (last (sc_tx_notifications B))) of
             (Some y, TxSend c) \<Rightarrow>
               bindR (deliver crc I hash 0 0 A (packet_header (as_tx y), c) (pt_addr b) now) (\<lambda>A. Ret (Some (A, B)))
           | _ \<Rightarrow> Ret None))))"

definition peer_alias :: "'f party \<Rightarrow> 'f party \<Rightarrow> 'f assoc_alias" where
  "peer_alias peer self = \<lparr>peer_addr = pt_addr peer, al_peer_port = pt_port peer, al_local_port = pt_port self\<rparr>"

lemma peer_alias_of:
  "alias_of (pt_addr b) (packet_new (pt_port b) (pt_port a) v) = peer_alias b a"
  by (simp add: alias_of_def packet_new_def peer_alias_def)

text \<open>
  What one side must know of the other: the association is registered under its alias with both
  tags, and its halves continue from the parameters that were exchanged.
\<close>

definition established :: "'f sctp \<Rightarrow> 'f party \<Rightarrow> 'f party \<Rightarrow> u32 \<Rightarrow> u16 \<Rightarrow> u16 \<Rightarrow> bool" where
  "established S self peer window ins outs =
     (\<exists>x. sc_new_assoc S = Some x
        \<and> sc_aliases S (peer_alias peer self) = Some (as_id x)
        \<and> assoc_infos S (as_id x) = Some \<lparr>pa_local_verification_tag = pt_tag self, pa_peer_verification_tag = pt_tag peer\<rparr>
        \<and> packet_header (as_tx x) = packet_new (pt_port self) (pt_port peer) (pt_tag peer)
        \<and> primary_path (as_tx x) = pt_addr peer
        \<and> tx_tsn_counter (as_tx x) = pt_tsn self \<and> rx_tsn_counter (as_rx x) = tsn_decrease (pt_tsn peer)
        \<and> peer_rcv_window (as_tx x) = window
        \<and> length (rx_per_stream (as_rx x)) = unat ins \<and> length (tx_per_stream (as_tx x)) = unat outs)"

lemma assoc_tx_new_fields:
  assumes "assoc_tx_new i ts now = Ret y"
  shows "primary_path y = ts_primary_path ts" "peer_verification_tag y = ts_peer_verification_tag ts"
    "local_port y = ts_local_port ts" "peer_port y = ts_peer_port ts" "tx_tsn_counter y = ts_init_tsn ts"
    "peer_rcv_window y = ts_peer_arwnd ts" "tx_per_stream y = replicate (unat (ts_out_streams ts)) 0"
  using assms by (auto simp: assoc_tx_new_def outcome)

lemma established_assoc:
  assumes "association_new i (pt_tsn peer) ins limit ts now = Ret x"
    and "sc_new_assoc S = Some x" "sc_aliases S (peer_alias peer self) = Some i"
    "assoc_infos S i = Some \<lparr>pa_local_verification_tag = pt_tag self, pa_peer_verification_tag = pt_tag peer\<rparr>"
    and "ts_primary_path ts = pt_addr peer" "ts_peer_verification_tag ts = pt_tag peer" "ts_local_port ts = pt_port self"
    "ts_peer_port ts = pt_port peer" "ts_init_tsn ts = pt_tsn self" "ts_out_streams ts = outs" "ts_peer_arwnd ts = window"
  shows "established S self peer window ins outs"
proof -
  have rx: "as_id x = i" "as_rx x = assoc_rx_new i (pt_tsn peer) ins limit" and tx: "assoc_tx_new i ts now = Ret (as_tx x)"
    using assms(1) by (auto simp: association_new_def outcome)
  then show ?thesis
    using assms(2-) by (auto simp: established_def assoc_tx_new_fields [OF tx] assoc_rx_new_def packet_header_def)
qed

lemma packet_new_sel [simp]:
  "pk_from (packet_new x y v) = x" "pk_to (packet_new x y v) = y" "pk_verification_tag (packet_new x y v) = v"
  by (simp_all add: packet_new_def)

text \<open>The messages of the handshake and the states in between.\<close>

definition hs_init :: "'f sctp \<Rightarrow> 'f party \<Rightarrow> 'f party \<Rightarrow> packet \<times> 'f chunk" where
  "hs_init A a b = (packet_new (pt_port a) (pt_port b) 0, CInit (create_init_chunk A (pt_tag a) (pt_tsn a)))"

definition hs_A1 :: "'f sctp \<Rightarrow> 'f party \<Rightarrow> 'f party \<Rightarrow> 'f sctp" where
  "hs_A1 A a b = push_immediate (A\<lparr>sc_wait_init_ack := (sc_wait_init_ack A)(peer_alias b a \<mapsto>
     \<lparr>wi_local_verification_tag = pt_tag a, wi_local_initial_tsn = pt_tsn a\<rparr>)\<rparr>) (pt_addr b, hs_init A a b)"

definition hs_cookie :: "'f hasher \<Rightarrow> 'f sctp \<Rightarrow> 'f party \<Rightarrow> 'f sctp \<Rightarrow> 'f party \<Rightarrow> 'f cookie" where
  "hs_cookie hash A a B b = init_cookie hash B (packet_new (pt_port a) (pt_port b) 0) (pt_addr a)
     (init_chunk_view (create_init_chunk A (pt_tag a) (pt_tsn a))) (pt_tsn b) (pt_tag b)"

definition hs_ack :: "'f hasher \<Rightarrow> 'f sctp \<Rightarrow> 'f party \<Rightarrow> 'f sctp \<Rightarrow> 'f party \<Rightarrow> 'f init_ack" where
  "hs_ack hash A a B b = create_init_ack B [] (Ours (hs_cookie hash A a B b)) (pt_tsn b) (pt_tag b)"

definition hs_B1 :: "'f hasher \<Rightarrow> 'f sctp \<Rightarrow> 'f party \<Rightarrow> 'f sctp \<Rightarrow> 'f party \<Rightarrow> 'f sctp" where
  "hs_B1 hash A a B b = push_immediate B
     (pt_addr a, packet_new (pt_port b) (pt_port a) (pt_tag a), CInitAck (hs_ack hash A a B b))"

definition hs_wait :: "'f fake_addr_impl \<Rightarrow> 'f hasher \<Rightarrow> 'f sctp \<Rightarrow> 'f party \<Rightarrow> 'f sctp \<Rightarrow> 'f party \<Rightarrow> 'f wait_cookie_ack" where
  "hs_wait I hash A a B b = cookie_wait (hs_A1 A a b) (pt_addr b)
     \<lparr>wi_local_verification_tag = pt_tag a, wi_local_initial_tsn = pt_tsn a\<rparr> (init_ack_view I (hs_ack hash A a B b))"

definition hs_A2 :: "'f fake_addr_impl \<Rightarrow> 'f hasher \<Rightarrow> 'f sctp \<Rightarrow> 'f party \<Rightarrow> 'f sctp \<Rightarrow> 'f party \<Rightarrow> 'f sctp" where
  "hs_A2 I hash A a B b = push_immediate
     ((hs_A1 A a b)\<lparr>sc_wait_init_ack := (sc_wait_init_ack (hs_A1 A a b))(peer_alias b a := None),
        sc_wait_cookie_ack := (sc_wait_cookie_ack (hs_A1 A a b))(peer_alias b a \<mapsto> hs_wait I hash A a B b)\<rparr>)
     (pt_addr b, packet_new (pt_port a) (pt_port b) (pt_tag b),
      CStateCookie (Opaque (cookie_serialize I (hs_cookie hash A a B b))))"

definition hs_B2 :: "'f hasher \<Rightarrow> 'f sctp \<Rightarrow> 'f party \<Rightarrow> 'f sctp \<Rightarrow> 'f party \<Rightarrow> 'f association \<Rightarrow> 'f sctp" where
  "hs_B2 hash A a B b y = (with_assoc (hs_B1 hash A a B b) (assoc_id_gen B + 1)
       \<lparr>pa_local_verification_tag = pt_tag b, pa_peer_verification_tag = pt_tag a\<rparr> (peer_alias a b) [] y)
     \<lparr>sc_tx_notifications := sc_tx_notifications B @ [(AssocId (assoc_id_gen B + 1), TxSend CStateCookieAck)]\<rparr>"

lemma create_init_sel [simp]:
  "ic_initiate_tag (create_init_chunk s v t) = v" "ic_unrecognized (create_init_chunk s v t) = []"
  by (simp_all add: create_init_chunk_def)

lemma hs_A1: "init_association (pt_tag a) (pt_tsn a) A (pt_addr b) (pt_port b) (pt_port a) = hs_A1 A a b"
  by (simp add: hs_A1_def init_association_def peer_alias_def hs_init_def create_init_chunk_def Let_def)

lemma hs_A1_settings [simp]: "sc_settings (hs_A1 A a b) = sc_settings A"
  by (simp add: hs_A1_def push_immediate_def)

lemma hs_last:
  "snd (last (sc_send_immediate (hs_A1 A a b))) = hs_init A a b"
  "snd (last (sc_send_immediate (hs_B1 hash A a B b))) =
     (packet_new (pt_port b) (pt_port a) (pt_tag a), CInitAck (hs_ack hash A a B b))"
  "snd (last (sc_send_immediate (hs_A2 I hash A a B b))) =
     (packet_new (pt_port a) (pt_port b) (pt_tag b), CStateCookie (Opaque (cookie_serialize I (hs_cookie hash A a B b))))"
  "sc_new_assoc (hs_B2 hash A a B b y) = Some y"
  "snd (last (sc_tx_notifications (hs_B2 hash A a B b y))) = TxSend CStateCookieAck"
  by (simp_all add: hs_A1_def hs_B1_def hs_A2_def hs_B2_def push_immediate_def with_assoc_def)

lemma hs_cookie_fields:
  "init_address (hs_cookie hash A a B b) = pt_addr a"
  "ck_local_verification_tag (hs_cookie hash A a B b) = pt_tag b"
  "ck_peer_verification_tag (hs_cookie hash A a B b) = pt_tag a"
  "ck_local_initial_tsn (hs_cookie hash A a B b) = pt_tsn b"
  "ck_peer_initial_tsn (hs_cookie hash A a B b) = pt_tsn a"
  "ck_local_port (hs_cookie hash A a B b) = pt_port b"
  "ck_peer_port (hs_cookie hash A a B b) = pt_port a"
  "ck_incoming_streams (hs_cookie hash A a B b) =
     min (st_incoming_streams (sc_settings B)) (st_outgoing_streams (sc_settings A))"
  "ck_outgoing_streams (hs_cookie hash A a B b) =
     min (st_outgoing_streams (sc_settings B)) (st_outgoing_streams (sc_settings A))"
  "ck_peer_arwnd (hs_cookie hash A a B b) = as_u32 (st_in_buffer_limit (sc_settings A))"
  by (simp_all add: hs_cookie_def init_cookie_def create_init_chunk_def init_chunk_view_def Let_def)

lemma hs_cookie_aliases: "ck_aliases (hs_cookie hash A a B b) = []"
  by (simp add: hs_cookie_def init_cookie_def create_init_chunk_def init_chunk_view_def Let_def)

lemma hs_cookie_mac:
  "calc_mac hash (hs_cookie hash A a B b) (st_cookie_secret (sc_settings B)) = mac (hs_cookie hash A a B b)"
  by (simp add: hs_cookie_def init_cookie_def calc_mac_def Let_def)

context fake_addr
begin

lemma wire_fits:
  assumes "chunk_fits I c"
  obtains bs where "wire crc I p c = Ret (packet_serialize crc p bs @ bs)"
    "chunk_parse bs = Ret (length bs, Inr (chunk_view I c))"
proof -
  obtain bs n where "chunk_serialize I c = Ret bs" "length bs = padded_len n"
    "\<forall>r. chunk_parse (bs @ r) = Ret (padded_len n, Inr (chunk_view I c))"
    using chunk_fits_roundtrips [OF assms] by (auto simp: chunk_roundtrips_def)
  then show thesis
    by (intro that [of bs]) (simp_all add: wire_def, metis append_Nil2)
qed

text \<open>One step of each handler on a message that came over the wire.\<close>

lemma deliver_init:
  assumes "chunk_fits I (CInit init)" and "sc_wait_init_ack s (alias_of from p) = None"
  shows "deliver crc I hash t v s (p, CInit init) from now =
    Ret (push_immediate s (from, packet_new (pk_to p) (pk_from p) (ic_initiate_tag init),
      CInitAck (create_init_ack s [] (Ours (init_cookie hash s p from (init_chunk_view init) t v)) t v)))"
proof -
  obtain bs where bs: "wire crc I p (CInit init) = Ret (packet_serialize crc p bs @ bs)"
    "chunk_parse bs = Ret (length bs, Inr (CInit (init_chunk_view init)))"
    using wire_fits [OF assms(1), of crc p] by (auto simp: chunk_view_def)
  have "is_init bs" using parsed_special(1) [OF bs(2)] by simp
  with bs assms(2) show ?thesis
    by (simp add: deliver_def receive_data_def packet_parse_serialize advance_def packet_serialize_length
        handle_init_def handled_or_error_def init_chunk_view_def)
qed

lemma deliver_init_ack:
  assumes "chunk_fits I (CInitAck a)" and "sc_wait_init_ack s (alias_of from p) = Some h"
  shows "deliver crc I hash t v s (p, CInitAck a) from now =
    Ret (push_immediate
      (s\<lparr>sc_wait_init_ack := (sc_wait_init_ack s)(alias_of from p := None),
         sc_wait_cookie_ack := (sc_wait_cookie_ack s)(alias_of from p \<mapsto> cookie_wait s from h (init_ack_view I a))\<rparr>)
      (from, packet_new (pk_to p) (pk_from p) (ia_initiate_tag a),
       CStateCookie (Opaque (state_cookie_serialize I (ia_cookie a)))))"
proof -
  obtain bs where bs: "wire crc I p (CInitAck a) = Ret (packet_serialize crc p bs @ bs)"
    "chunk_parse bs = Ret (length bs, Inr (CInitAck (init_ack_view I a)))"
    using wire_fits [OF assms(1), of crc p] by (auto simp: chunk_view_def)
  have "is_init_ack bs" "\<not> is_init bs" using parsed_special(1,2) [OF bs(2)] by simp_all
  with bs assms(2) show ?thesis
    by (simp add: deliver_def receive_data_def packet_parse_serialize advance_def packet_serialize_length
        handle_init_def handle_init_ack_def handled_or_error_def init_ack_view_def cookie_wait_def Let_def)
qed

text \<open>A cookie of ours without \<open>Fake\<close> aliases comes back from its echo.\<close>

lemma echoed_ours:
  assumes "chunk_parse bs = Ret (n, Inr (CStateCookie (Opaque (cookie_serialize I k)) :: 'f chunk))"
    and "list_all (\<lambda>a. \<not> is_fake a) (ck_aliases k)"
  shows "echoed I bs = Ret (Some (n, k))"
proof -
  have "filter (\<lambda>a. \<not> is_fake a) (ck_aliases k) = ck_aliases k"
    using assms(2) by (simp add: filter_id_conv list_all_iff)
  with assms(1) show ?thesis
    by (simp add: echoed_def cookie_roundtrip)
qed

lemma deliver_cookie_echo:
  assumes "chunk_fits I (CStateCookie (Opaque (cookie_serialize I k)))" and "list_all (\<lambda>a. \<not> is_fake a) (ck_aliases k)"
    and "calc_mac hash k (st_cookie_secret (sc_settings s)) = mac k" and "sc_aliases s (alias_of from p) = None"
    and "unat (assoc_id_gen s) + 1 < 2 ^ 64"
  shows "\<exists>b. association_new (AssocId (assoc_id_gen s + 1)) (ck_peer_initial_tsn k) (ck_incoming_streams k)
         (st_in_buffer_limit (sc_settings s)) (cookie_settings s k) now = Ret b
    \<and> deliver crc I hash t v s (p, CStateCookie (Opaque (cookie_serialize I k))) from now =
        Ret ((with_assoc s (assoc_id_gen s + 1)
          \<lparr>pa_local_verification_tag = ck_local_verification_tag k,
           pa_peer_verification_tag = ck_peer_verification_tag k\<rparr>
          (alias_of (init_address k) p) (ck_aliases k) b)
        \<lparr>sc_tx_notifications := sc_tx_notifications s @ [(AssocId (assoc_id_gen s + 1), TxSend CStateCookieAck)]\<rparr>)"
proof -
  let ?c = "CStateCookie (Opaque (cookie_serialize I k)) :: 'f chunk"
  obtain bs where bs: "wire crc I p ?c = Ret (packet_serialize crc p bs @ bs)"
    "chunk_parse bs = Ret (length bs, Inr ?c)"
    using wire_fits [OF assms(1), of crc p] by (auto simp: chunk_view_def)
  have kinds: "is_cookie_echo bs" "\<not> is_init bs" "\<not> is_init_ack bs"
    using parsed_special(1-3) [OF bs(2)] by simp_all
  obtain b where b: "association_new (AssocId (assoc_id_gen s + 1)) (ck_peer_initial_tsn k) (ck_incoming_streams k)
      (st_in_buffer_limit (sc_settings s)) (cookie_settings s k) now = Ret b"
    "make_new_assoc s p (ck_aliases k) (ck_local_verification_tag k) (ck_peer_initial_tsn k) (ck_incoming_streams k)
       (cookie_settings s k) now =
     Ret (with_assoc s (assoc_id_gen s + 1)
       \<lparr>pa_local_verification_tag = ck_local_verification_tag k,
        pa_peer_verification_tag = ts_peer_verification_tag (cookie_settings s k)\<rparr>
       (alias_of (ts_primary_path (cookie_settings s k)) p) (ck_aliases k) b, AssocId (assoc_id_gen s + 1))"
    by (rule make_new_assoc_cases [OF assms(5), of "ck_peer_initial_tsn k" "ck_incoming_streams k"
          "cookie_settings s k" now p "ck_aliases k" "ck_local_verification_tag k"])
  let ?s = "(with_assoc s (assoc_id_gen s + 1)
       \<lparr>pa_local_verification_tag = ck_local_verification_tag k, pa_peer_verification_tag = ck_peer_verification_tag k\<rparr>
       (alias_of (init_address k) p) (ck_aliases k) b)
     \<lparr>sc_tx_notifications := sc_tx_notifications s @ [(AssocId (assoc_id_gen s + 1), TxSend CStateCookieAck)]\<rparr>"
  have "handle_cookie_echo I hash s p bs from now = Ret (?s, [], Handled (AssocId (assoc_id_gen s + 1)))"
    using echoed_ours [OF bs(2) assms(2)] kinds(1) assms(3,4) b(2)
    by (simp add: handle_cookie_echo_echoed cookie_settings_def with_assoc_def)
  moreover have "process_chunks ?s (AssocId (assoc_id_gen s + 1)) from p [] = Ret ?s"
    by (simp add: process_chunks_def with_assoc_def process_loop.simps)
  moreover have "\<not> is_cookie_ack []" by (simp add: is_cookie_ack_def first_chunk_is_def CHUNK_HEADER_SIZE_def)
  ultimately show ?thesis
    using b(1) bs(1) kinds
    by (simp add: deliver_def receive_data_def packet_parse_serialize advance_def packet_serialize_length
        handle_init_def handle_init_ack_def handle_cookie_ack_def handled_or_error_def)
qed

lemma deliver_cookie_ack:
  assumes "sc_aliases s (alias_of from p) = None" and "sc_wait_cookie_ack s (alias_of from p) = Some h"
    and "wc_original_address h = from" and "unat (assoc_id_gen s) + 1 < 2 ^ 64"
  shows "\<exists>a. association_new (AssocId (assoc_id_gen s + 1)) (wc_peer_initial_tsn h)
         (min (wc_local_in_streams h) (wc_peer_in_streams h)) (st_in_buffer_limit (sc_settings s)) (ack_settings s p h) now = Ret a
    \<and> deliver crc I hash t v s (p, CStateCookieAck) from now =
        Ret (with_assoc (s\<lparr>sc_wait_cookie_ack := (sc_wait_cookie_ack s)(alias_of from p := None)\<rparr>) (assoc_id_gen s + 1)
          \<lparr>pa_local_verification_tag = wc_local_verification_tag h,
           pa_peer_verification_tag = wc_peer_verification_tag h\<rparr>
          (alias_of from p) (wc_aliases h) a)"
proof -
  obtain bs where bs: "wire crc I p CStateCookieAck = Ret (packet_serialize crc p bs @ bs)"
    "chunk_parse bs = Ret (length bs, Inr (CStateCookieAck :: 'f chunk))"
    using wire_fits [of CStateCookieAck crc p] by (auto simp: chunk_view_def chunk_fits_def)
  have kinds: "is_cookie_ack bs" "\<not> is_init bs" "\<not> is_init_ack bs" "\<not> is_cookie_echo bs"
    using parsed_special [OF bs(2)] by simp_all
  let ?s = "s\<lparr>sc_wait_cookie_ack := (sc_wait_cookie_ack s)(alias_of from p := None)\<rparr>"
  have gen: "unat (assoc_id_gen ?s) + 1 < 2 ^ 64" using assms(4) by simp
  obtain a where a: "association_new (AssocId (assoc_id_gen ?s + 1)) (wc_peer_initial_tsn h)
      (min (wc_local_in_streams h) (wc_peer_in_streams h)) (st_in_buffer_limit (sc_settings ?s)) (ack_settings s p h) now = Ret a"
    "make_new_assoc ?s p (wc_aliases h) (wc_local_verification_tag h) (wc_peer_initial_tsn h)
       (min (wc_local_in_streams h) (wc_peer_in_streams h)) (ack_settings s p h) now =
     Ret (with_assoc ?s (assoc_id_gen ?s + 1)
       \<lparr>pa_local_verification_tag = wc_local_verification_tag h,
        pa_peer_verification_tag = ts_peer_verification_tag (ack_settings s p h)\<rparr>
       (alias_of (ts_primary_path (ack_settings s p h)) p) (wc_aliases h) a, AssocId (assoc_id_gen ?s + 1))"
    by (rule make_new_assoc_cases [OF gen, of "wc_peer_initial_tsn h" "min (wc_local_in_streams h) (wc_peer_in_streams h)"
          "ack_settings s p h" now p "wc_aliases h" "wc_local_verification_tag h"])
  let ?t = "with_assoc ?s (assoc_id_gen s + 1)
      \<lparr>pa_local_verification_tag = wc_local_verification_tag h, pa_peer_verification_tag = wc_peer_verification_tag h\<rparr>
      (alias_of from p) (wc_aliases h) a"
  have new: "make_new_assoc ?s p (wc_aliases h) (wc_local_verification_tag h) (wc_peer_initial_tsn h)
       (min (wc_local_in_streams h) (wc_peer_in_streams h)) (ack_settings s p h) now = Ret (?t, AssocId (assoc_id_gen s + 1))"
    using a(2) assms(3) by (simp add: ack_settings_def)
  have "handle_cookie_ack s p bs from now = Ret (?t, [], Handled (AssocId (assoc_id_gen s + 1)))"
    using kinds(1) bs(2) assms(1,2) new
    by (simp add: handle_cookie_ack_def advance_def ack_settings_def Let_def)
  moreover have "process_chunks ?t (AssocId (assoc_id_gen s + 1)) from p [] = Ret ?t"
    by (simp add: process_chunks_def with_assoc_def process_loop.simps)
  ultimately show ?thesis
    using a(1) bs(1) kinds
    by (simp add: deliver_def receive_data_def packet_parse_serialize advance_def packet_serialize_length
        handle_init_def handle_init_ack_def handle_cookie_echo_def handled_or_error_def)
qed

text \<open>The messages of the handshake fit the format when addresses are short.\<close>

lemma create_init_fits: "chunk_fits I (CInit (create_init_chunk s v t))"
  by (simp add: chunk_fits_def init_chunk_fits_def init_chunk_serialized_size_def create_init_chunk_def
      init_chunk_params_def opt_params_def lifetime_fits_def params_size_def)

lemma cookie_fits:
  assumes "\<And>x. fa_serialized_size I x < 60000" and "ck_aliases k = []"
  shows "chunk_fits I (CInitAck (create_init_ack s [] (Ours k) t v))"
    and "chunk_fits I (CStateCookie (Opaque (cookie_serialize I k)))"
proof -
  have "init_address_size I (init_address k) < 60002"
    using assms(1) [THEN less_trans, of 60001] by (cases "init_address k") simp_all
  then have size: "cookie_serialized_size I k < 60100"
    using assms(2) by (simp add: cookie_serialized_size_def)
  then have "padded_len (cookie_serialized_size I k) < 60200"
    by (simp add: padded_len_def)
  then show "chunk_fits I (CInitAck (create_init_ack s [] (Ours k) t v))"
    by (simp add: chunk_fits_def init_ack_fits_def init_ack_serialized_size_def create_init_ack_def
        opt_params_def lifetime_fits_def params_size_def)
  show "chunk_fits I (CStateCookie (Opaque (cookie_serialize I k)))"
    using size by (simp add: chunk_fits_def cookie_serialize_length)
qed

lemma message_init:
  assumes "sc_wait_init_ack B (peer_alias a b) = None"
  shows "deliver crc I hash (pt_tsn b) (pt_tag b) B (hs_init A a b) (pt_addr a) now = Ret (hs_B1 hash A a B b)"
proof -
  have "sc_wait_init_ack B (alias_of (pt_addr a) (packet_new (pt_port a) (pt_port b) 0)) = None"
    using assms by (simp add: peer_alias_of)
  from deliver_init [OF create_init_fits this] show ?thesis
    by (simp add: hs_init_def hs_B1_def hs_ack_def hs_cookie_def)
qed

lemma message_init_ack:
  assumes "\<And>x. fa_serialized_size I x < 60000"
  shows "deliver crc I hash 0 0 (hs_A1 A a b) (packet_new (pt_port b) (pt_port a) (pt_tag a), CInitAck (hs_ack hash A a B b))
    (pt_addr b) now = Ret (hs_A2 I hash A a B b)"
proof -
  let ?p = "packet_new (pt_port b) (pt_port a) (pt_tag a)"
  have "sc_wait_init_ack (hs_A1 A a b) (alias_of (pt_addr b) ?p) =
      Some \<lparr>wi_local_verification_tag = pt_tag a, wi_local_initial_tsn = pt_tsn a\<rparr>"
    by (simp add: hs_A1_def push_immediate_def peer_alias_of)
  from deliver_init_ack [OF _ this] show ?thesis
    using cookie_fits(1) [OF assms hs_cookie_aliases]
    by (simp add: hs_A2_def hs_wait_def hs_ack_def peer_alias_of create_init_ack_def)
qed

lemma message_cookie_echo:
  fixes A :: "'f sctp"
  assumes "\<And>x. fa_serialized_size I x < 60000" and "sc_aliases B (peer_alias a b) = None"
    and "unat (assoc_id_gen B) + 1 < 2 ^ 64"
  shows "\<exists>y. association_new (AssocId (assoc_id_gen B + 1)) (pt_tsn a)
        (min (st_incoming_streams (sc_settings B)) (st_outgoing_streams (sc_settings A)))
        (st_in_buffer_limit (sc_settings B)) (cookie_settings B (hs_cookie hash A a B b)) now = Ret y
    \<and> deliver crc I hash 0 0 (hs_B1 hash A a B b)
        (packet_new (pt_port a) (pt_port b) (pt_tag b), CStateCookie (Opaque (cookie_serialize I (hs_cookie hash A a B b))))
        (pt_addr a) now = Ret (hs_B2 hash A a B b y)"
proof -
  let ?k = "hs_cookie hash A a B b" and ?B = "hs_B1 hash A a B b"
  let ?p = "packet_new (pt_port a) (pt_port b) (pt_tag b)"
  have B: "sc_settings ?B = sc_settings B" "sc_aliases ?B = sc_aliases B" "assoc_id_gen ?B = assoc_id_gen B"
    "sc_tx_notifications ?B = sc_tx_notifications B"
    by (simp_all add: hs_B1_def push_immediate_def)
  have k: "calc_mac hash ?k (st_cookie_secret (sc_settings ?B)) = mac ?k" "list_all (\<lambda>a. \<not> is_fake a) (ck_aliases ?k)"
    by (simp_all add: B hs_cookie_mac hs_cookie_aliases)
  have "sc_aliases ?B (alias_of (pt_addr a) ?p) = None" "unat (assoc_id_gen ?B) + 1 < 2 ^ 64"
    using assms(2,3) by (simp_all add: B peer_alias_of)
  from deliver_cookie_echo [OF cookie_fits(2) [OF assms(1) hs_cookie_aliases] k(2,1) this, of now crc 0 0]
  show ?thesis
    by (simp add: B hs_B2_def hs_cookie_fields hs_cookie_aliases peer_alias_of cookie_settings_def)
qed

lemma message_cookie_ack:
  assumes "sc_aliases A (peer_alias b a) = None" and "unat (assoc_id_gen A) + 1 < 2 ^ 64"
  shows "\<exists>x A'. association_new (AssocId (assoc_id_gen A + 1)) (pt_tsn b)
        (min (st_incoming_streams (sc_settings A)) (st_incoming_streams (sc_settings B)))
        (st_in_buffer_limit (sc_settings A))
        (ack_settings A (packet_new (pt_port b) (pt_port a) (pt_tag a)) (hs_wait I hash A a B b)) now = Ret x
    \<and> deliver crc I hash 0 0 (hs_A2 I hash A a B b) (packet_new (pt_port b) (pt_port a) (pt_tag a), CStateCookieAck)
        (pt_addr b) now = Ret A'
    \<and> sc_new_assoc A' = Some x \<and> sc_aliases A' (peer_alias b a) = Some (AssocId (assoc_id_gen A + 1))
    \<and> assoc_infos A' (AssocId (assoc_id_gen A + 1)) =
        Some \<lparr>pa_local_verification_tag = pt_tag a, pa_peer_verification_tag = pt_tag b\<rparr>"
proof -
  let ?A = "hs_A2 I hash A a B b" and ?w = "hs_wait I hash A a B b"
  let ?p = "packet_new (pt_port b) (pt_port a) (pt_tag a)"
  have A: "sc_settings ?A = sc_settings A" "sc_aliases ?A = sc_aliases A" "assoc_id_gen ?A = assoc_id_gen A"
    "sc_wait_cookie_ack ?A (peer_alias b a) = Some ?w"
    by (simp_all add: hs_A2_def hs_A1_def push_immediate_def hs_wait_def cookie_wait_def)
  have "sc_aliases ?A (alias_of (pt_addr b) ?p) = None" "sc_wait_cookie_ack ?A (alias_of (pt_addr b) ?p) = Some ?w"
    "wc_original_address ?w = pt_addr b" "unat (assoc_id_gen ?A) + 1 < 2 ^ 64"
    using assms by (simp_all add: A peer_alias_of hs_wait_def cookie_wait_def)
  from deliver_cookie_ack [OF this, of now crc hash 0 0] show ?thesis
    by (auto simp: A peer_alias_of hs_wait_def cookie_wait_def ack_settings_def with_assoc_def
        init_ack_view_def hs_ack_def create_init_ack_def)
qed

lemma handshake_run:
  fixes A :: "'f sctp"
  assumes small: "\<And>x. fa_serialized_size I x < 60000"
    and fresh: "sc_aliases A (peer_alias b a) = None" "sc_aliases B (peer_alias a b) = None"
      "sc_wait_init_ack B (peer_alias a b) = None"
    and gen: "unat (assoc_id_gen A) + 1 < 2 ^ 64" "unat (assoc_id_gen B) + 1 < 2 ^ 64"
  shows "\<exists>A' B'. handshake crc I hash a A b B now = Ret (Some (A', B'))
    \<and> established A' a b (as_u32 (st_in_buffer_limit (sc_settings B)))
        (min (st_incoming_streams (sc_settings A)) (st_incoming_streams (sc_settings B)))
        (min (st_outgoing_streams (sc_settings A)) (st_outgoing_streams (sc_settings B)))
    \<and> established B' b a (as_u32 (st_in_buffer_limit (sc_settings A)))
        (min (st_incoming_streams (sc_settings B)) (st_outgoing_streams (sc_settings A)))
        (min (st_outgoing_streams (sc_settings B)) (st_outgoing_streams (sc_settings A)))"
proof -
  obtain y where y: "association_new (AssocId (assoc_id_gen B + 1)) (pt_tsn a)
      (min (st_incoming_streams (sc_settings B)) (st_outgoing_streams (sc_settings A)))
      (st_in_buffer_limit (sc_settings B)) (cookie_settings B (hs_cookie hash A a B b)) now = Ret y"
    "deliver crc I hash 0 0 (hs_B1 hash A a B b)
      (packet_new (pt_port a) (pt_port b) (pt_tag b), CStateCookie (Opaque (cookie_serialize I (hs_cookie hash A a B b))))
      (pt_addr a) now = Ret (hs_B2 hash A a B b y)"
    using message_cookie_echo [OF small fresh(2) gen(2)] by blast
  have B': "established (hs_B2 hash A a B b y) b a (as_u32 (st_in_buffer_limit (sc_settings A)))
        (min (st_incoming_streams (sc_settings B)) (st_outgoing_streams (sc_settings A)))
        (min (st_outgoing_streams (sc_settings B)) (st_outgoing_streams (sc_settings A)))"
    by (rule established_assoc [OF y(1)]) (simp_all add: hs_B2_def with_assoc_def cookie_settings_def hs_cookie_fields)
  then have header: "packet_header (as_tx y) = packet_new (pt_port b) (pt_port a) (pt_tag a)"
    by (auto simp: established_def hs_B2_def with_assoc_def)
  obtain x A' where x: "association_new (AssocId (assoc_id_gen A + 1)) (pt_tsn b)
      (min (st_incoming_streams (sc_settings A)) (st_incoming_streams (sc_settings B)))
      (st_in_buffer_limit (sc_settings A))
      (ack_settings A (packet_new (pt_port b) (pt_port a) (pt_tag a)) (hs_wait I hash A a B b)) now = Ret x"
    and A': "deliver crc I hash 0 0 (hs_A2 I hash A a B b) (packet_new (pt_port b) (pt_port a) (pt_tag a), CStateCookieAck)
      (pt_addr b) now = Ret A'" "sc_new_assoc A' = Some x"
      "sc_aliases A' (peer_alias b a) = Some (AssocId (assoc_id_gen A + 1))"
      "assoc_infos A' (AssocId (assoc_id_gen A + 1)) =
        Some \<lparr>pa_local_verification_tag = pt_tag a, pa_peer_verification_tag = pt_tag b\<rparr>"
    using message_cookie_ack [OF fresh(1) gen(1)] by blast
  have "established A' a b (as_u32 (st_in_buffer_limit (sc_settings B)))
      (min (st_incoming_streams (sc_settings A)) (st_incoming_streams (sc_settings B)))
      (min (st_outgoing_streams (sc_settings A)) (st_outgoing_streams (sc_settings B)))"
    by (rule established_assoc [OF x A'(2-4)])
       (simp_all add: ack_settings_def hs_wait_def cookie_wait_def init_ack_view_def hs_ack_def create_init_ack_def)
  moreover have "handshake crc I hash a A b B now = Ret (Some (A', hs_B2 hash A a B b y))"
    by (simp add: handshake_def hs_A1 hs_last message_init [OF fresh(3)] message_init_ack [OF small] y(2) A'(1) header)
  ultimately show ?thesis using B' by blast
qed

end

lemma socket_size: "fa_serialized_size fake_addr_socket x < 60000"
  by (cases x) (simp_all add: fake_addr_socket_def)

subsection \<open>Properties\<close>

text \<open>
  C2. The handshake works. Two endpoints that do not know each other yet and exchange the four
  messages over the wire both end with a new association: each side has the other's
  verification tag and checks its own, sends from its own initial TSN and expects the other's,
  uses the other's ports and address, and starts with the window that the other announced. The
  numbers of streams are the ones the code computes: the passive side takes the smaller of its
  incoming and the peer's outgoing streams, the active side compares incoming with incoming and
  outgoing with outgoing.
\<close>

theorem handshake_establishes:
  assumes "sc_aliases A (peer_alias b a) = None" and "sc_aliases B (peer_alias a b) = None"
    and "sc_wait_init_ack B (peer_alias a b) = None"
    and "unat (assoc_id_gen A) + 1 < 2 ^ 64" and "unat (assoc_id_gen B) + 1 < 2 ^ 64"
  shows "\<exists>A' B'. handshake crc fake_addr_socket hash a A b B now = Ret (Some (A', B'))
    \<and> established A' a b (as_u32 (st_in_buffer_limit (sc_settings B)))
        (min (st_incoming_streams (sc_settings A)) (st_incoming_streams (sc_settings B)))
        (min (st_outgoing_streams (sc_settings A)) (st_outgoing_streams (sc_settings B)))
    \<and> established B' b a (as_u32 (st_in_buffer_limit (sc_settings A)))
        (min (st_incoming_streams (sc_settings B)) (st_outgoing_streams (sc_settings A)))
        (min (st_outgoing_streams (sc_settings B)) (st_outgoing_streams (sc_settings A)))"
  by (rule socket_addr.handshake_run [OF socket_size assms])

definition demo_endpoint_settings :: "u16 \<Rightarrow> settings" where
  "demo_endpoint_settings n = \<lparr>st_cookie_secret = [1, 2, 3], st_incoming_streams = n, st_outgoing_streams = 10,
     st_in_buffer_limit = 10000, st_out_buffer_limit = 10000\<rparr>"

definition demo_client :: "socket_addr party" where
  "demo_client = \<lparr>pt_addr = IpV4 1, pt_port = 100, pt_tag = 11, pt_tsn = 1000\<rparr>"

definition demo_server :: "socket_addr party" where
  "demo_server = \<lparr>pt_addr = IpV4 2, pt_port = 200, pt_tag = 22, pt_tsn = 2000\<rparr>"

theorem handshake_establishes_witness:
  "\<exists>A' B'. handshake (\<lambda>_. 0) fake_addr_socket (\<lambda>_. 7) demo_client (sctp_new (demo_endpoint_settings 10))
      demo_server (sctp_new (demo_endpoint_settings 10)) 0 = Ret (Some (A', B'))
    \<and> established A' demo_client demo_server 10000 10 10 \<and> established B' demo_server demo_client 10000 10 10"
  using handshake_establishes [of "sctp_new (demo_endpoint_settings 10)" demo_server demo_client
      "sctp_new (demo_endpoint_settings 10)" "\<lambda>_. 0" "\<lambda>_. 7" 0]
  by (simp add: sctp_new_def demo_endpoint_settings_def as_u32_def)

text \<open>
  C40. The two sides of a handshake can disagree about streams. When the passive side accepts
  fewer streams than both sides are willing to send on, the active side opens more outgoing
  streams than the passive side has incoming ones.
\<close>

theorem handshake_stream_mismatch:
  assumes "sc_aliases A (peer_alias b a) = None" and "sc_aliases B (peer_alias a b) = None"
    and "sc_wait_init_ack B (peer_alias a b) = None"
    and "unat (assoc_id_gen A) + 1 < 2 ^ 64" and "unat (assoc_id_gen B) + 1 < 2 ^ 64"
    and "st_incoming_streams (sc_settings B) <
      min (st_outgoing_streams (sc_settings A)) (st_outgoing_streams (sc_settings B))"
  shows "\<exists>A' B' x y. handshake crc fake_addr_socket hash a A b B now = Ret (Some (A', B'))
    \<and> sc_new_assoc A' = Some x \<and> sc_new_assoc B' = Some y
    \<and> length (rx_per_stream (as_rx y)) < length (tx_per_stream (as_tx x))"
proof -
  let ?ins = "min (st_incoming_streams (sc_settings B)) (st_outgoing_streams (sc_settings A))"
  let ?outs = "min (st_outgoing_streams (sc_settings A)) (st_outgoing_streams (sc_settings B))"
  have "unat ?ins < unat ?outs"
    using assms(6) by (auto simp: word_less_nat_alt [symmetric] min_def split: if_splits)
  then show ?thesis
    using socket_addr.handshake_run [OF socket_size assms(1-5), of crc hash now]
    unfolding established_def by fastforce
qed

theorem handshake_stream_mismatch_witness:
  "\<exists>A' B' x y. handshake (\<lambda>_. 0) fake_addr_socket (\<lambda>_. 7) demo_client (sctp_new (demo_endpoint_settings 10))
      demo_server (sctp_new (demo_endpoint_settings 1)) 0 = Ret (Some (A', B'))
    \<and> sc_new_assoc A' = Some x \<and> sc_new_assoc B' = Some y
    \<and> length (rx_per_stream (as_rx y)) < length (tx_per_stream (as_tx x))"
  by (rule handshake_stream_mismatch) (simp_all add: sctp_new_def demo_endpoint_settings_def)

subsection \<open>A replayed cookie\<close>

definition demo_cookie :: "socket_addr cookie" where
  "demo_cookie = \<lparr>mac = 7, init_address = IpV4 1, ck_peer_port = 100, ck_local_port = 200, ck_aliases = [],
     ck_local_verification_tag = 22, ck_peer_verification_tag = 11, ck_local_initial_tsn = 5, ck_peer_initial_tsn = 6,
     ck_incoming_streams = 1, ck_outgoing_streams = 1, ck_peer_arwnd = 100\<rparr>"

lemma demo_ep_inv: "ep_inv demo_ep"
  by (simp add: ep_inv_def demo_ep_def sctp_new_def ran_def)

lemma demo_echo:
  obtains bs where "echoed fake_addr_socket bs = Ret (Some (length bs, demo_cookie))" "is_cookie_echo bs"
proof -
  let ?c = "CStateCookie (Opaque (cookie_serialize fake_addr_socket demo_cookie)) :: socket_addr chunk"
  have "chunk_fits fake_addr_socket ?c"
    by (rule socket_addr.cookie_fits(2) [OF socket_size]) (simp add: demo_cookie_def)
  then obtain bs where "chunk_parse bs = Ret (length bs, Inr (chunk_view fake_addr_socket ?c))"
    by (rule socket_addr.wire_fits)
  then have bs: "chunk_parse bs = Ret (length bs, Inr ?c)"
    by (simp add: chunk_view_def)
  show thesis
    using socket_addr.echoed_ours [OF bs] parsed_special(3) [OF bs] by (intro that) (simp_all add: demo_cookie_def)
qed

theorem cookie_replay_takes_over_witness:
  "\<exists>data s' new. receive_data (\<lambda>_. 0) fake_addr_socket (\<lambda>_. 7) 0 0 demo_ep data (IpV4 9) 0 = Ret s'
    \<and> new \<noteq> AssocId 2 \<and> sc_aliases s' (alias_of (IpV4 1) demo_packet) = Some new"
proof -
  obtain bs where bs: "echoed fake_addr_socket bs = Ret (Some (length bs, demo_cookie))" "is_cookie_echo bs"
    by (rule demo_echo)
  have echo: "is_cookie_echo (drop 12 (demo_header @ bs))"
    "echoed fake_addr_socket (drop 12 (demo_header @ bs)) = Ret (Some (length bs, demo_cookie))"
    "length bs = length (drop 12 (demo_header @ bs))"
    unfolding demo_drop using bs by simp_all
  have mac: "calc_mac (\<lambda>_. 7) demo_cookie (st_cookie_secret (sc_settings demo_ep)) = mac demo_cookie"
    by (simp add: calc_mac_def demo_cookie_def)
  have src: "sc_aliases demo_ep (alias_of (IpV4 9) demo_packet) = None" "unat (assoc_id_gen demo_ep) + 1 < 2 ^ 64"
    by (simp_all add: demo_ep_def alias_of_def)
  have old: "sc_aliases demo_ep (alias_of (init_address demo_cookie) demo_packet) = Some (AssocId 2)"
    by (simp add: demo_cookie_def)
  have "init_address demo_cookie = IpV4 1" by (simp add: demo_cookie_def)
  then show ?thesis
    using cookie_replay_takes_over [OF demo_packet echo mac src(1) demo_ep_inv src(2) old, of 0 0 0] by metis
qed

end
