(* ===== verification/Composition.thy ===== *)
theory Composition
  imports Tx_Control Delivery Rx_Props Handshake
begin

text \<open>
  Transmitter and receiver together: what is accepted at one end is read at the other, and
  where the two ends disagree about the meaning of a gap block.
\<close>

subsection \<open>From the messages to the chunks\<close>

lemma reassemble_headers:
  "reassemble p ds = Some (q, ms) \<Longrightarrow>
     (case p of None \<Rightarrow> {} | Some (h, _) \<Rightarrow> {h}) \<union> chunk_header ` set ds
       \<subseteq> fst ` set ms \<union> (case q of None \<Rightarrow> {} | Some (h, _) \<Rightarrow> {h})"
proof (induction p ds arbitrary: q ms rule: reassemble.induct)
  case (1 p)
  then show ?case by simp
next
  case (2 p d ds)
  define m where "m = (chunk_header d, (case p of None \<Rightarrow> [] | Some (_, b) \<Rightarrow> b) @ dc_buf d)"
  have cond: "case p of None \<Rightarrow> dc_begin d | Some (h', _) \<Rightarrow> \<not> dc_begin d \<and> h' = chunk_header d"
    using "2.prems" by (auto simp: Let_def split: if_splits)
  then have p: "(case p of None \<Rightarrow> {} | Some (h, _) \<Rightarrow> {h}) \<subseteq> {chunk_header d}"
    by (auto split: option.splits)
  show ?case
  proof (cases "dc_end d")
    case True
    then obtain ns where "reassemble None ds = Some (q, ns)" "ms = m # ns"
      using "2.prems" cond by (auto simp: Let_def m_def)
    then show ?thesis
      using "2.IH"(1) [OF refl cond refl True, of q ns] p by (auto simp: m_def)
  next
    case False
    then have "reassemble (Some m) ds = Some (q, ms)"
      using "2.prems" cond by (simp add: Let_def m_def)
    then have "insert (chunk_header d) (chunk_header ` set ds)
        \<subseteq> fst ` set ms \<union> (case q of None \<Rightarrow> {} | Some (h, _) \<Rightarrow> {h})"
      using "2.IH"(2) [OF refl cond refl False, folded m_def, of q ms] by (simp add: m_def)
    moreover have "(case p of None \<Rightarrow> {} | Some (h, _) \<Rightarrow> {h}) \<union> chunk_header ` set (d # ds)
        \<subseteq> insert (chunk_header d) (chunk_header ` set ds)"
      using p by auto
    ultimately show ?thesis by (rule order_trans [rotated])
  qed
qed

definition message_bytes :: "message list \<Rightarrow> nat" where
  "message_bytes ms = (\<Sum>m \<leftarrow> ms. length (snd m))"

lemma reassemble_chunk_bytes:
  "reassemble None ds = Some (None, ms) \<Longrightarrow> chunk_bytes ds = message_bytes ms"
  using arg_cong [OF reassemble_bytes [of None ds None ms], of length]
  by (simp add: chunk_bytes_def message_bytes_def length_concat comp_def)

text \<open>The messages that a receiver with so many streams and so much room can take.\<close>

definition acceptable :: "u16 \<Rightarrow> nat \<Rightarrow> message list \<Rightarrow> bool" where
  "acceptable n limit ms =
     (list_all (\<lambda>((stream, _, _, unordered), _). unat stream < unat n \<and> \<not> unordered) ms \<and> message_bytes ms \<le> limit)"

lemma sent_is_feed:
  assumes "reassemble None ds = Some (None, ms)" and "map dc_tsn ds = tsns_from init (length ds)"
    and "acceptable n limit ms" and "length ds \<le> 33554431"
    and "0 < unat init" and "unat init + length ds \<le> 4294967295"
  shows "feed init (unat n) limit ds"
proof -
  have "dc_tsn (ds ! i) = init + of_nat i" if "i < length ds" for i
    using arg_cong [OF assms(2), of "\<lambda>l. l ! i"] that by (simp add: nth_tsns_from)
  moreover have "unat (dc_stream_id d) < unat n \<and> \<not> dc_unordered d" if "d \<in> set ds" for d
  proof -
    have "chunk_header d \<in> fst ` set ms"
      using reassemble_headers [OF assms(1)] that by auto
    with assms(3) show ?thesis
      by (force simp: acceptable_def list_all_iff chunk_header_def)
  qed
  ultimately show ?thesis
    using assms(3-6) reassemble_chunk_bytes [OF assms(1)]
    by (simp add: feed_def acceptable_def list_all_iff)
qed

subsection \<open>Gap blocks of single chunks\<close>

lemma gap_loop_singles:
  "gap_loop cum b bs ps acked = Ret (ps', acked') \<Longrightarrow> (\<forall>x. b = Some x \<longrightarrow> fst x = snd x) \<Longrightarrow>
   list_all (\<lambda>(x, y). x = y) bs \<Longrightarrow> map partially_acked ps' = map partially_acked ps \<and> acked' = acked"
proof (induction cum b bs ps acked arbitrary: ps' rule: gap_loop.induct)
  case (3 cum b bs p ps acked)
  have eq: "fst b = snd b" using "3.prems"(2) by simp
  show ?case
  proof (cases "partially_acked p \<or> tsn_cmp (dc_tsn (re_data p)) (fst b) = Less")
    case True
    then show ?thesis
      using 3 eq by (auto simp: gap_loop.simps(3) Let_def outcome split: if_splits)
  next
    case False
    then have rec: "bindR (next_block cum bs) (\<lambda>(nb, bs). gap_loop cum nb bs (p # ps) acked) = Ret (ps', acked')"
      using "3.prems"(1) eq by (simp add: gap_loop.simps(3) Let_def)
    then obtain nb bs' where nb: "next_block cum bs = Ret (nb, bs')" "gap_loop cum nb bs' (p # ps) acked = Ret (ps', acked')"
      by (auto simp: outcome)
    have "(\<forall>x. nb = Some x \<longrightarrow> fst x = snd x) \<and> list_all (\<lambda>(x, y). x = y) bs'"
      using nb(1) "3.prems"(3) by (cases bs) (auto simp: outcome)
    then show ?thesis
      using "3.IH"(4) [OF refl _ _ _ nb(1) refl nb(2)] False eq by auto
  qed
qed auto

subsection \<open>Properties\<close>



text \<open>
  C34. Receiver and transmitter disagree about the end of a gap block. The receiver reports a
  single chunk that waits in its reorder buffer with a block whose end is its start, both being
  the offset of the chunk; the transmitter reads the end as exclusive. Such a block marks no
  chunk as received: whatever is in flight, the flags and the count of partially acknowledged
  bytes stay as they were, and the chunk is sent again.
\<close>

theorem single_gap_not_recognised:
  assumes "rx_inv r" and "tsn_reorder_buffer r = [(k, d)]" and "in_reach (rx_tsn_counter r) k"
  shows "\<exists>r' sack off. queue_ack r = Ret r' \<and> last (tx_notifications r') = TxSend (CSAck sack)
    \<and> blocks sack = [(off, off)] \<and> unat off = unat k - unat (rx_tsn_counter r)
    \<and> (\<forall>(s :: 'g assoc_tx) s' acked flight. process_sack_gap_blocks s sack acked flight = Ret s' \<longrightarrow>
         map partially_acked (resend_queue s') = map partially_acked (resend_queue s))"
proof -
  let ?c = "rx_tsn_counter r" and ?w = "as_u32 (in_buffer_limit r - current_in_buffer r)"
  let ?off = "ucast (k - ?c) :: u16"
  let ?sack = "\<lparr>cum_tsn = ?c, sa_a_rwnd = ?w, blocks = [(?off, ?off)], duplicated_tsn = []\<rparr>"
  have k: "unat ?c < unat k" "unat k - unat ?c < 65536" using assms(3) by (simp_all add: in_reach_def)
  then have "word_sub k 1 = Ret (k - 1)" "unat (k - 1) = unat k - 1"
    by (auto simp: word_sub_def word_le_nat_alt unat_sub_if_size)
  moreover have "word_add (k - 1) 1 = Ret k"
    using calculation(2) k(1) unat_u32_bound [of k] by (simp add: word_add_def)
  ultimately have "gap_blocks r = Ret [(?off, ?off)]"
    using assms(2) by (simp add: gap_blocks_def)
  moreover have "usize_sub (in_buffer_limit r) (current_in_buffer r) = Ret (in_buffer_limit r - current_in_buffer r)"
    using assms(1) by (simp add: rx_inv_def rx_bytes_ok_def usize_sub_def)
  ultimately have "queue_ack r = Ret (push_tx (r\<lparr>last_sent_arwnd := ?w\<rparr>) (TxSend (CSAck ?sack)))"
    by (simp add: queue_ack_def Let_def)
  moreover have "unat ?off = unat k - unat ?c"
    using k by (simp add: unat_offset)
  moreover have "map partially_acked (resend_queue s') = map partially_acked (resend_queue s)"
    if gaps: "process_sack_gap_blocks s ?sack acked flight = Ret s'" for s s' :: "'g assoc_tx" and acked flight
  proof -
    obtain b bs q n where nb: "next_block ?c [(?off, ?off)] = Ret (b, bs)"
      and loop: "gap_loop ?c b bs (resend_queue s) 0 = Ret (q, n)" and q: "resend_queue s' = q"
      using gaps by (auto simp: process_sack_gap_blocks_def outcome)
    have "(\<forall>x. b = Some x \<longrightarrow> fst x = snd x) \<and> bs = []"
      using nb by (auto simp: outcome)
    with gap_loop_singles [OF loop] q show ?thesis by simp
  qed
  ultimately show ?thesis
    by (intro exI [of _ "push_tx (r\<lparr>last_sent_arwnd := ?w\<rparr>) (TxSend (CSAck ?sack))"] exI [of _ ?sack] exI [of _ ?off])
       (simp add: push_tx_def)
qed

theorem single_gap_not_recognised_witness:
  "\<exists>r' sack off. queue_ack demo_rx = Ret r' \<and> last (tx_notifications r') = TxSend (CSAck sack)
    \<and> blocks sack = [(off, off)] \<and> unat off = 2"
proof -
  have "rx_inv demo_rx" using rx_reachable(1) [OF demo_rx_run] .
  moreover have "tsn_reorder_buffer demo_rx = [(11, demo_chunk 11)]" "rx_tsn_counter demo_rx = 9"
    by (simp_all add: demo_rx_def assoc_rx_new_def tsn_decrease_def)
  ultimately show ?thesis
    using single_gap_not_recognised [of demo_rx 11 "demo_chunk 11", where 'g = unit]
    by (auto simp: in_reach_def)
qed

end
