(* ===== verification/Async.thy ===== *)
theory Async
  imports Endpoint_Props "HOL-Library.AList"
begin

text \<open>
  The async wrapper (\<open>src/assoc_async/assoc.rs\<close>): the endpoint and its associations behind locks,
  with futures that register a waker when they have to wait. An \<open>Arc\<close> to the two halves of an
  association is a handle, an index into the store of associations; the receiver's own \<open>Arc\<close> to its
  transmitter is the other half of the same entry. Calling a waker appends it to a log. The
  \<open>HashMap\<close> of associations is an association list. Every readout of the clock is an argument.
  A poisoned lock cannot be seen, because a panic ends a run of the model.

  Under the lock of the endpoint \<open>handle_notifications\<close> takes the locks of the associations one
  at a time, so other tasks can use the associations in between. The methods are defined here as
  the code has them; \<open>async_apply\<close> has the pieces between two lock operations as its steps.
\<close>

subsection \<open>Data\<close>

type_synonym waker = nat
type_synonym handle = nat

datatype 'a poll = Ready 'a | Pending

record 'f inner_tx =
  it_tx :: "'f assoc_tx"
  send_wakers :: "waker list"
  poll_wakers :: "waker list"
  shutdown_wakers :: "waker list"

record 'f inner_rx =
  ir_rx :: "'f assoc_rx"
  recv_wakers :: "waker list"

record 'f async_assoc =
  aa_tx :: "'f inner_tx"
  aa_rx :: "'f inner_rx"

record 'f async_sctp =
  is_sctp :: "'f sctp"
  assocs :: "(assoc_id \<times> handle) list"
  ready_assocs :: "handle list"
  new_assoc_wakers :: "waker list"
  send_immediate_wakers :: "waker list"
  store :: "'f async_assoc list"  \<comment> \<open>what the handles point to\<close>
  woken :: "waker list"           \<comment> \<open>the wakers called so far\<close>

definition wake :: "waker list \<Rightarrow> 'f async_sctp \<Rightarrow> 'f async_sctp" where
  "wake ws w = w\<lparr>woken := woken w @ ws\<rparr>"

definition put_assoc :: "handle \<Rightarrow> 'f async_assoc \<Rightarrow> 'f async_sctp \<Rightarrow> 'f async_sctp" where
  "put_assoc h a w = w\<lparr>store := (store w)[h := a]\<rparr>"

definition async_new :: "settings \<Rightarrow> 'f async_sctp" where
  "async_new st =
     \<lparr> is_sctp = sctp_new st, assocs = [], ready_assocs = [], new_assoc_wakers = [],
       send_immediate_wakers = [], store = [], woken = [] \<rparr>"

subsection \<open>Notifications\<close>

definition async_remove_assoc :: "assoc_id \<Rightarrow> 'f async_sctp \<Rightarrow> 'f async_sctp" where
  "async_remove_assoc i w =
     (case map_of (assocs w) i of
        None \<Rightarrow> w
      | Some h \<Rightarrow>
          let w = w\<lparr>assocs := AList.delete i (assocs w)\<rparr>;
              a = store w ! h;
              tx = aa_tx a;
              rx = aa_rx a
          in wake (recv_wakers rx @ send_wakers tx @ poll_wakers tx @ shutdown_wakers tx)
               (put_assoc h
                  (a\<lparr>aa_rx := rx\<lparr>recv_wakers := []\<rparr>,
                     aa_tx := tx\<lparr>send_wakers := [], poll_wakers := [], shutdown_wakers := []\<rparr>\<rparr>) w))"

definition take_new_assoc :: "'f async_sctp \<Rightarrow> 'f async_sctp" where
  "take_new_assoc w =
     (case new_assoc (is_sctp w) of
        (s, None) \<Rightarrow> w\<lparr>is_sctp := s\<rparr>
      | (s, Some assoc) \<Rightarrow>
          let (rx, tx) = association_split assoc;
              h = length (store w);
              a = \<lparr>aa_tx = \<lparr>it_tx = tx, send_wakers = [], poll_wakers = [], shutdown_wakers = []\<rparr>,
                   aa_rx = \<lparr>ir_rx = rx, recv_wakers = []\<rparr>\<rparr>;
              w = w\<lparr>is_sctp := s, store := store w @ [a],
                    assocs := AList.update (as_id assoc) h (assocs w),
                    ready_assocs := ready_assocs w @ [h]\<rparr>
          in wake (new_assoc_wakers w) (w\<lparr>new_assoc_wakers := []\<rparr>))"

text \<open>One round of the loop over the endpoint's notifications for transmitters, and whether the
  association is then to be removed.\<close>

definition deliver_tx :: "assoc_id \<Rightarrow> 'f tx_note \<Rightarrow> 'f async_sctp \<Rightarrow> ('f async_sctp \<times> bool) rust" where
  "deliver_tx i n w =
     (case map_of (assocs w) i of
        None \<Rightarrow> Ret (w, False)
      | Some h \<Rightarrow>
          let a = store w ! h; tx = aa_tx a
          in bindR (tx_notification (it_tx tx) n) (\<lambda>s.
               Ret (wake (poll_wakers tx)
                      (put_assoc h (a\<lparr>aa_tx := tx\<lparr>it_tx := s, poll_wakers := []\<rparr>\<rparr>) w),
                    shutdown_complete s)))"

text \<open>The inner loop of the round for a receiver: what it has for its transmitter.\<close>

fun forward_notes :: "'f tx_note list \<Rightarrow> 'f inner_tx \<times> waker list \<Rightarrow> ('f inner_tx \<times> waker list) rust" where
  "forward_notes [] x = Ret x"
| "forward_notes (n # ns) (tx, ws) =
     bindR (tx_notification (it_tx tx) n) (\<lambda>s.
       forward_notes ns (tx\<lparr>it_tx := s, poll_wakers := [], send_wakers := []\<rparr>,
                         ws @ poll_wakers tx @ send_wakers tx))"

definition deliver_rx :: "instant \<Rightarrow> assoc_id \<Rightarrow> 'f rx_note \<Rightarrow> 'f async_sctp \<Rightarrow> ('f async_sctp \<times> bool) rust" where
  "deliver_rx now i n w =
     (case map_of (assocs w) i of
        None \<Rightarrow> Ret (w, False)
      | Some h \<Rightarrow>
          let a = store w ! h; rx = aa_rx a
          in bindR (rx_notification (ir_rx rx) n now) (\<lambda>r.
               let (r, ns) = drain_tx_notifications r
               in bindR (forward_notes ns (aa_tx a, recv_wakers rx)) (\<lambda>(tx, ws).
                    Ret (wake ws (put_assoc h (a\<lparr>aa_tx := tx, aa_rx := rx\<lparr>ir_rx := r, recv_wakers := []\<rparr>\<rparr>) w),
                         shutdown_complete (it_tx tx)))))"

definition remove_if :: "assoc_id \<Rightarrow> 'f async_sctp \<times> bool \<Rightarrow> 'f async_sctp" where
  "remove_if i x = (case x of (w, remove) \<Rightarrow> if remove then async_remove_assoc i w else w)"

text \<open>The clock is read once for every notification of a receiver.\<close>

definition async_handle_notifications :: "(nat \<Rightarrow> instant) \<Rightarrow> 'f async_sctp \<Rightarrow> 'f async_sctp rust" where
  "async_handle_notifications clock w =
     (let w = take_new_assoc w;
          (s, tx_notes) = sctp_tx_notifications (is_sctp w);
          w = w\<lparr>is_sctp := s\<rparr>
      in bindR (runR (\<lambda>(i, n) w. bindR (deliver_tx i n w) (\<lambda>x. Ret (remove_if i x))) tx_notes w) (\<lambda>w.
           let (s, rx_notes) = rx_notifications (is_sctp w);
               w = w\<lparr>is_sctp := s\<rparr>
           in runR (\<lambda>(k, i, n) w. bindR (deliver_rx (clock k) i n w) (\<lambda>x. Ret (remove_if i x)))
                (enumerate 0 rx_notes) w))"

subsection \<open>Methods of the endpoint\<close>

definition async_receive_data ::
  "crc32 \<Rightarrow> 'f fake_addr_impl \<Rightarrow> 'f hasher \<Rightarrow> u32 \<Rightarrow> u32 \<Rightarrow> instant \<Rightarrow> (nat \<Rightarrow> instant) \<Rightarrow> bytes
   \<Rightarrow> 'f transport_address \<Rightarrow> 'f async_sctp \<Rightarrow> 'f async_sctp rust" where
  "async_receive_data crc I hash fresh_tsn fresh_tag now clock data from w =
     bindR (receive_data crc I hash fresh_tsn fresh_tag (is_sctp w) data from now) (\<lambda>s.
       let w = w\<lparr>is_sctp := s\<rparr>;
           w = (if has_next_send_immediate s
                then wake (send_immediate_wakers w) (w\<lparr>send_immediate_wakers := []\<rparr>) else w)
       in async_handle_notifications clock w)"

definition async_connect ::
  "u32 \<Rightarrow> u32 \<Rightarrow> 'f transport_address \<Rightarrow> u16 \<Rightarrow> u16 \<Rightarrow> 'f async_sctp \<Rightarrow> 'f async_sctp" where
  "async_connect local_verification_tag initial_tsn addr pport lport w =
     w\<lparr>is_sctp := init_association local_verification_tag initial_tsn (is_sctp w) addr pport lport\<rparr>"

text \<open>The futures of \<open>connect\<close> and of \<open>accept\<close> have the same \<open>poll\<close>.\<close>

definition connect_future_poll :: "waker \<Rightarrow> 'f async_sctp \<Rightarrow> 'f async_sctp \<times> handle poll" where
  "connect_future_poll cx w =
     (case ready_assocs w of
        h # hs \<Rightarrow> (w\<lparr>ready_assocs := hs\<rparr>, Ready h)
      | [] \<Rightarrow> (w\<lparr>new_assoc_wakers := new_assoc_wakers w @ [cx]\<rparr>, Pending))"

definition accept_future_poll :: "waker \<Rightarrow> 'f async_sctp \<Rightarrow> 'f async_sctp \<times> handle poll" where
  "accept_future_poll cx w =
     (case ready_assocs w of
        h # hs \<Rightarrow> (w\<lparr>ready_assocs := hs\<rparr>, Ready h)
      | [] \<Rightarrow> (w\<lparr>new_assoc_wakers := new_assoc_wakers w @ [cx]\<rparr>, Pending))"

definition next_send_future_poll :: "waker \<Rightarrow> 'f async_sctp \<Rightarrow> 'f async_sctp \<times> 'f outgoing poll" where
  "next_send_future_poll cx w =
     (case next_send_immediate (is_sctp w) of
        (s, Some send) \<Rightarrow> (w\<lparr>is_sctp := s\<rparr>, Ready send)
      | (s, None) \<Rightarrow>
          (w\<lparr>is_sctp := s, send_immediate_wakers := send_immediate_wakers w @ [cx]\<rparr>, Pending))"

definition has_assocs_left :: "'f async_sctp \<Rightarrow> bool" where
  "has_assocs_left w = (assocs w \<noteq> [])"

subsection \<open>Methods of the transmitter\<close>

text \<open>A method of a transmitter returns its new state, the wakers it called and its result.\<close>

record send_future =
  sf_data :: "bytes option"
  sf_stream :: u16
  sf_ppid :: u32
  sf_immediate :: bool
  sf_unordered :: bool

definition async_send_data :: "bytes \<Rightarrow> u16 \<Rightarrow> u32 \<Rightarrow> bool \<Rightarrow> bool \<Rightarrow> send_future" where
  "async_send_data data stream ppid immediate unordered =
     \<lparr>sf_data = Some data, sf_stream = stream, sf_ppid = ppid, sf_immediate = immediate,
      sf_unordered = unordered\<rparr>"

definition send_future_poll ::
  "waker \<Rightarrow> send_future \<Rightarrow> 'f inner_tx
   \<Rightarrow> ('f inner_tx \<times> waker list \<times> send_future \<times> (send_error + unit) poll) rust" where
  "send_future_poll cx f tx =
     (case sf_data f of
        None \<Rightarrow> Panic UnwrapFailed
      | Some data \<Rightarrow>
          let f = f\<lparr>sf_data := None\<rparr>
          in bindR (try_send_data (it_tx tx) data (sf_stream f) (sf_ppid f) (sf_immediate f) (sf_unordered f))
               (\<lambda>(s, r).
                 let tx = tx\<lparr>it_tx := s\<rparr>
                 in case r of
                      Inr _ \<Rightarrow> Ret (tx\<lparr>poll_wakers := []\<rparr>, poll_wakers tx, f, Ready r)
                    | Inl err \<Rightarrow>
                        if se_kind err = BufferFull
                        then Ret (tx\<lparr>send_wakers := send_wakers tx @ [cx]\<rparr>, [],
                                  f\<lparr>sf_data := Some (se_data err)\<rparr>, Pending)
                        else Ret (tx, [], f, Ready r)))"

definition async_next_timeout :: "'f inner_tx \<Rightarrow> timer option" where
  "async_next_timeout tx = next_timeout (it_tx tx)"

definition async_handle_timeout :: "timer \<Rightarrow> 'f inner_tx \<Rightarrow> ('f inner_tx \<times> waker list) rust" where
  "async_handle_timeout t tx =
     bindR (handle_timeout (it_tx tx) t) (\<lambda>s.
       Ret (tx\<lparr>it_tx := s, poll_wakers := []\<rparr>, poll_wakers tx))"

definition async_shutdown_complete :: "'f inner_tx \<Rightarrow> bool" where
  "async_shutdown_complete tx = shutdown_complete (it_tx tx)"

text \<open>\<open>await_shutdown\<close> takes the lock twice: to look, and to register when it has to wait.\<close>

definition await_shutdown_register :: "waker \<Rightarrow> 'f inner_tx \<Rightarrow> 'f inner_tx" where
  "await_shutdown_register cx tx = tx\<lparr>shutdown_wakers := shutdown_wakers tx @ [cx]\<rparr>"

definition async_initiate_shutdown :: "'f inner_tx \<Rightarrow> 'f inner_tx" where
  "async_initiate_shutdown tx = tx\<lparr>it_tx := initiate_shutdown (it_tx tx)\<rparr>"

definition try_poll_any_chunk ::
  "'f fake_addr_impl \<Rightarrow> 'f assoc_tx \<Rightarrow> usize \<Rightarrow> usize \<Rightarrow> instant \<Rightarrow> instant
   \<Rightarrow> ('f assoc_tx \<times> 'f chunk poll_send_result) rust" where
  "try_poll_any_chunk I tx limit already_packed now now' =
     bindR (poll_signal_to_send I tx limit already_packed now) (\<lambda>x.
       poll_or_else x (\<lambda>tx.
         bindR (poll_data_to_send tx limit already_packed now') (\<lambda>(tx, r). Ret (tx, poll_map CData r))))"

definition try_poll_chunk_to_send ::
  "'f fake_addr_impl \<Rightarrow> usize \<Rightarrow> usize \<Rightarrow> instant \<Rightarrow> instant \<Rightarrow> 'f inner_tx
   \<Rightarrow> ('f inner_tx \<times> (packet \<times> 'f chunk) poll_send_result) rust" where
  "try_poll_chunk_to_send I limit already_packed now now' tx =
     bindR (try_poll_any_chunk I (it_tx tx) limit already_packed now now') (\<lambda>(s, r).
       Ret (tx\<lparr>it_tx := s\<rparr>, poll_map (Pair (packet_header s)) r))"

definition poll_future_poll ::
  "'f fake_addr_impl \<Rightarrow> usize \<Rightarrow> usize \<Rightarrow> instant \<Rightarrow> instant \<Rightarrow> waker \<Rightarrow> 'f inner_tx
   \<Rightarrow> ('f inner_tx \<times> waker list \<times> (unit + packet \<times> 'f chunk) poll) rust" where
  "poll_future_poll I limit already_packed now now' cx tx =
     bindR (try_poll_any_chunk I (it_tx tx) limit already_packed now now') (\<lambda>(s, r).
       let tx = tx\<lparr>it_tx := s\<rparr>;
           poll_result = poll_map (Pair (packet_header s)) r
       in case poll_result of
            PollSome (p, c) \<Rightarrow>
              (case c of
                 CData _ \<Rightarrow> Ret (tx\<lparr>send_wakers := []\<rparr>, send_wakers tx, Ready (Inr (p, c)))
               | _ \<Rightarrow> Ret (tx, [], Ready (Inr (p, c))))
          | PollNone \<Rightarrow> Ret (tx\<lparr>poll_wakers := poll_wakers tx @ [cx]\<rparr>, [], Pending)
          | PollClosed \<Rightarrow> Ret (tx\<lparr>send_wakers := []\<rparr>, send_wakers tx, Ready (Inl ())))"

definition async_primary_path :: "'f inner_tx \<Rightarrow> 'f transport_address" where
  "async_primary_path tx = primary_path (it_tx tx)"

text \<open>\<open>shutdown_all_connections\<close> of the endpoint calls a method of each transmitter.\<close>

definition shut_down_at :: "handle \<Rightarrow> 'f async_sctp \<Rightarrow> 'f async_sctp" where
  "shut_down_at h w =
     put_assoc h ((store w ! h)\<lparr>aa_tx := async_initiate_shutdown (aa_tx (store w ! h))\<rparr>) w"

definition shutdown_all_connections :: "'f async_sctp \<Rightarrow> 'f async_sctp" where
  "shutdown_all_connections w = fold shut_down_at (map snd (assocs w)) w"

subsection \<open>Methods of the receiver\<close>

text \<open>The loop of \<open>recv_data\<close> wakes the pollers, but not the senders.\<close>

fun recv_forward_notes :: "'f tx_note list \<Rightarrow> 'f inner_tx \<times> waker list \<Rightarrow> ('f inner_tx \<times> waker list) rust" where
  "recv_forward_notes [] x = Ret x"
| "recv_forward_notes (n # ns) (tx, ws) =
     bindR (tx_notification (it_tx tx) n) (\<lambda>s.
       recv_forward_notes ns (tx\<lparr>it_tx := s, poll_wakers := []\<rparr>, ws @ poll_wakers tx))"

definition recv_future_poll ::
  "waker \<Rightarrow> 'f async_assoc
   \<Rightarrow> ('f async_assoc \<times> waker list \<times> (poll_data_error + stream_receive_event) poll) rust" where
  "recv_future_poll cx a =
     (let rx = aa_rx a
      in bindR (poll_data (ir_rx rx)) (\<lambda>(s, r).
           case r of
             PollData data \<Rightarrow>
               let (s, ns) = drain_tx_notifications s
               in bindR (recv_forward_notes ns (aa_tx a, [])) (\<lambda>(tx, ws).
                    Ret (a\<lparr>aa_tx := tx, aa_rx := rx\<lparr>ir_rx := s\<rparr>\<rparr>, ws, Ready (Inr data)))
           | NoneAvailable \<Rightarrow>
               Ret (a\<lparr>aa_rx := rx\<lparr>ir_rx := s, recv_wakers := recv_wakers rx @ [cx]\<rparr>\<rparr>, [], Pending)
           | PollError err \<Rightarrow> Ret (a\<lparr>aa_rx := rx\<lparr>ir_rx := s\<rparr>\<rparr>, [], Ready (Inl err))))"

end
