(* ===== verification/Async_Steps.thy ===== *)
theory Async_Steps
  imports Async
begin

text \<open>
  The runs of the async wrapper: its steps are the pieces of the methods between two lock
  operations, in any interleaving of tasks. Without interleaving, the steps of \<open>receive_data\<close> are
  the method.
\<close>

subsection \<open>Steps\<close>

text \<open>
  While \<open>todo\<close> is not empty, the task in \<open>receive_data\<close> or \<open>shutdown_all_connections\<close> holds the lock
  of the endpoint; \<open>registering\<close> are the tasks between the two locks of \<open>await_shutdown\<close>.
\<close>

datatype 'f todo =
    TodoTx assoc_id "'f tx_note"
  | TodoRx assoc_id "'f rx_note"
  | TodoRemove assoc_id
  | TodoShutdown handle

record 'f async_world =
  aw :: "'f async_sctp"
  todo :: "'f todo list"
  registering :: "(handle \<times> waker) list"

definition async_init :: "settings \<Rightarrow> 'f async_world" where
  "async_init st = \<lparr>aw = async_new st, todo = [], registering = []\<rparr>"

datatype 'f async_op =
    AReceive bytes "'f transport_address" instant u32 u32
  | ADeliver instant
  | AConnect "'f transport_address" u16 u16 u32 u32
  | AConnectPoll waker
  | AAcceptPoll waker
  | ANextSend waker
  | AShutdownAll
  | ASend handle waker send_future
  | ATimeout handle timer
  | AAwaitCheck handle waker
  | AAwaitRegister handle waker
  | AInitShutdown handle
  | ATryPoll handle usize usize instant instant
  | APoll handle usize usize instant instant waker
  | ARecv handle waker

text \<open>A step that needs the lock of the endpoint waits for it, and a handle has to exist.\<close>

definition locked :: "'f async_world \<Rightarrow> ('f async_sctp \<Rightarrow> 'f async_sctp rust) \<Rightarrow> 'f async_world rust" where
  "locked w f = (if todo w = [] then bindR (f (aw w)) (\<lambda>a. Ret (w\<lparr>aw := a\<rparr>)) else Ret w)"

definition on_assoc ::
  "'f async_world \<Rightarrow> handle \<Rightarrow> ('f async_assoc \<Rightarrow> ('f async_assoc \<times> waker list) rust) \<Rightarrow> 'f async_world rust" where
  "on_assoc w h f =
     (if h < length (store (aw w))
      then bindR (f (store (aw w) ! h)) (\<lambda>(a, ws). Ret (w\<lparr>aw := wake ws (put_assoc h a (aw w))\<rparr>))
      else Ret w)"

definition on_tx ::
  "'f async_world \<Rightarrow> handle \<Rightarrow> ('f inner_tx \<Rightarrow> ('f inner_tx \<times> waker list) rust) \<Rightarrow> 'f async_world rust" where
  "on_tx w h f = on_assoc w h (\<lambda>a. bindR (f (aa_tx a)) (\<lambda>(tx, ws). Ret (a\<lparr>aa_tx := tx\<rparr>, ws)))"

text \<open>\<open>receive_data\<close> up to its first loop.\<close>

definition begin_receive ::
  "crc32 \<Rightarrow> 'f fake_addr_impl \<Rightarrow> 'f hasher \<Rightarrow> u32 \<Rightarrow> u32 \<Rightarrow> instant \<Rightarrow> bytes \<Rightarrow> 'f transport_address
   \<Rightarrow> 'f async_sctp \<Rightarrow> 'f async_sctp rust" where
  "begin_receive crc I hash t v now data from w =
     bindR (receive_data crc I hash t v (is_sctp w) data from now) (\<lambda>s.
       let w = w\<lparr>is_sctp := s\<rparr>;
           w = (if has_next_send_immediate s
                then wake (send_immediate_wakers w) (w\<lparr>send_immediate_wakers := []\<rparr>) else w)
       in Ret (take_new_assoc w))"

definition take_notes :: "'f async_sctp \<Rightarrow> 'f async_sctp \<times> 'f todo list" where
  "take_notes w =
     (let (s, tx_notes) = sctp_tx_notifications (is_sctp w);
          (s, rx_notes) = rx_notifications s
      in (w\<lparr>is_sctp := s\<rparr>, map (\<lambda>(i, n). TodoTx i n) tx_notes @ map (\<lambda>(i, n). TodoRx i n) rx_notes))"

definition do_todo :: "instant \<Rightarrow> 'f todo \<Rightarrow> 'f async_sctp \<Rightarrow> ('f async_sctp \<times> 'f todo list) rust" where
  "do_todo now x w =
     (case x of
        TodoTx i n \<Rightarrow> bindR (deliver_tx i n w) (\<lambda>(w, remove). Ret (w, if remove then [TodoRemove i] else []))
      | TodoRx i n \<Rightarrow> bindR (deliver_rx now i n w) (\<lambda>(w, remove). Ret (w, if remove then [TodoRemove i] else []))
      | TodoRemove i \<Rightarrow> Ret (async_remove_assoc i w, [])
      | TodoShutdown h \<Rightarrow> Ret (shut_down_at h w, []))"

fun async_apply ::
  "crc32 \<Rightarrow> 'f fake_addr_impl \<Rightarrow> 'f hasher \<Rightarrow> 'f async_op \<Rightarrow> 'f async_world \<Rightarrow> 'f async_world rust" where
  "async_apply crc I hash (AReceive data from now t v) w =
     (if todo w = [] then
        bindR (begin_receive crc I hash t v now data from (aw w)) (\<lambda>a.
          let (a, notes) = take_notes a in Ret (w\<lparr>aw := a, todo := notes\<rparr>))
      else Ret w)"
| "async_apply crc I hash (ADeliver now) w =
     (case todo w of
        [] \<Rightarrow> Ret w
      | x # xs \<Rightarrow> bindR (do_todo now x (aw w)) (\<lambda>(a, ys). Ret (w\<lparr>aw := a, todo := ys @ xs\<rparr>)))"
| "async_apply crc I hash (AConnect addr pport lport v t) w = locked w (\<lambda>a. Ret (async_connect v t addr pport lport a))"
| "async_apply crc I hash (AConnectPoll cx) w = locked w (\<lambda>a. Ret (fst (connect_future_poll cx a)))"
| "async_apply crc I hash (AAcceptPoll cx) w = locked w (\<lambda>a. Ret (fst (accept_future_poll cx a)))"
| "async_apply crc I hash (ANextSend cx) w = locked w (\<lambda>a. Ret (fst (next_send_future_poll cx a)))"
| "async_apply crc I hash AShutdownAll w =
     (if todo w = [] then Ret (w\<lparr>todo := map (\<lambda>(i, h). TodoShutdown h) (assocs (aw w))\<rparr>) else Ret w)"
| "async_apply crc I hash (ASend h cx f) w =
     on_tx w h (\<lambda>tx. bindR (send_future_poll cx f tx) (\<lambda>(tx, ws, _). Ret (tx, ws)))"
| "async_apply crc I hash (ATimeout h t) w = on_tx w h (async_handle_timeout t)"
| "async_apply crc I hash (AAwaitCheck h cx) w =
     Ret (if h < length (store (aw w)) \<and> \<not> async_shutdown_complete (aa_tx (store (aw w) ! h))
          then w\<lparr>registering := registering w @ [(h, cx)]\<rparr> else w)"
| "async_apply crc I hash (AAwaitRegister h cx) w =
     (if (h, cx) \<in> set (registering w) then
        on_tx (w\<lparr>registering := remove1 (h, cx) (registering w)\<rparr>) h (\<lambda>tx. Ret (await_shutdown_register cx tx, []))
      else Ret w)"
| "async_apply crc I hash (AInitShutdown h) w = on_tx w h (\<lambda>tx. Ret (async_initiate_shutdown tx, []))"
| "async_apply crc I hash (ATryPoll h limit packed now now') w =
     on_tx w h (\<lambda>tx. bindR (try_poll_chunk_to_send I limit packed now now' tx) (\<lambda>(tx, _). Ret (tx, [])))"
| "async_apply crc I hash (APoll h limit packed now now' cx) w =
     on_tx w h (\<lambda>tx. bindR (poll_future_poll I limit packed now now' cx tx) (\<lambda>(tx, ws, _). Ret (tx, ws)))"
| "async_apply crc I hash (ARecv h cx) w =
     on_assoc w h (\<lambda>a. bindR (recv_future_poll cx a) (\<lambda>(a, ws, _). Ret (a, ws)))"

text \<open>As for the transmitter: no empty messages, and the clock stays below 2^60 nanoseconds.\<close>

fun async_op_ok :: "'f async_op \<Rightarrow> bool" where
  "async_op_ok (ADeliver now) = (now \<le> 2 ^ 60)"
| "async_op_ok (ASend h cx f) = (sf_data f \<noteq> Some [])"
| "async_op_ok _ = True"

subsection \<open>The steps of a method are the method\<close>

lemma remove_if_simps [simp]:
  "remove_if i (w, True) = async_remove_assoc i w" "remove_if i (w, False) = w"
  by (simp_all add: remove_if_def)

lemma do_todo_remove [simp]: "do_todo now (TodoRemove i) w = Ret (async_remove_assoc i w, [])"
  by (simp add: do_todo_def)

lemma run_todos:
  fixes T :: "'x \<Rightarrow> 'f todo" and w :: "'f async_world"
  assumes "\<And>x a. do_todo (c x) (T x) a = bindR (g x a) (\<lambda>(a, r). Ret (a, if r then [TodoRemove (j x)] else []))"
  shows "\<exists>nows. runR (async_apply crc I hash) (map ADeliver nows) (w\<lparr>aw := a, todo := map T xs @ ys\<rparr>) =
    bindR (runR (\<lambda>x a. bindR (g x a) (\<lambda>y. Ret (remove_if (j x) y))) xs a) (\<lambda>a. Ret (w\<lparr>aw := a, todo := ys\<rparr>))"
proof (induction xs arbitrary: a)
  case Nil
  show ?case by (rule exI [of _ "[]"]) simp
next
  case (Cons x xs)
  show ?case
  proof (cases "g x a")
    case (Ret y)
    obtain b r where y: "y = (b, r)" by (cases y)
    obtain nows where nows: "runR (async_apply crc I hash) (map ADeliver nows)
        (w\<lparr>aw := remove_if (j x) y, todo := map T xs @ ys\<rparr>) =
      bindR (runR (\<lambda>x a. bindR (g x a) (\<lambda>y. Ret (remove_if (j x) y))) xs (remove_if (j x) y))
        (\<lambda>a. Ret (w\<lparr>aw := a, todo := ys\<rparr>))"
      using Cons.IH by blast
    show ?thesis
    proof (cases r)
      case True
      with Ret y nows show ?thesis
        by (intro exI [of _ "c x # 0 # nows"]) (simp add: assms)
    next
      case False
      with Ret y nows show ?thesis
        by (intro exI [of _ "c x # nows"]) (simp add: assms)
    qed
  next
    case (Panic p)
    then show ?thesis
      by (intro exI [of _ "[c x]"]) (simp add: assms)
  qed
qed

lemma async_frame [simp]:
  "is_sctp (wake ws w) = is_sctp w" "is_sctp (put_assoc h a w) = is_sctp w"
  "wake ws (w\<lparr>is_sctp := s\<rparr>) = (wake ws w)\<lparr>is_sctp := s\<rparr>"
  "put_assoc h a (w\<lparr>is_sctp := s\<rparr>) = (put_assoc h a w)\<lparr>is_sctp := s\<rparr>"
  by (simp_all add: wake_def put_assoc_def)

lemma remove_assoc_sctp:
  "async_remove_assoc i (w\<lparr>is_sctp := s\<rparr>) = (async_remove_assoc i w)\<lparr>is_sctp := s\<rparr>"
  "is_sctp (async_remove_assoc i w) = is_sctp w"
  by (simp_all add: async_remove_assoc_def Let_def put_assoc_def wake_def split: option.split)

lemma deliver_tx_sctp:
  "deliver_tx i n (w\<lparr>is_sctp := s\<rparr>) = bindR (deliver_tx i n w) (\<lambda>(w, r). Ret (w\<lparr>is_sctp := s\<rparr>, r))"
  "deliver_tx i n w = Ret (w', r) \<Longrightarrow> is_sctp w' = is_sctp w"
   by (auto simp: deliver_tx_def Let_def bindR_assoc outcome split: option.splits)

abbreviation tx_round :: "assoc_id \<times> 'f tx_note \<Rightarrow> 'f async_sctp \<Rightarrow> 'f async_sctp rust" where
  "tx_round \<equiv> \<lambda>(i, n) w. bindR (deliver_tx i n w) (\<lambda>x. Ret (remove_if i x))"

lemma tx_rounds_sctp:
  "runR tx_round xs (w\<lparr>is_sctp := s\<rparr>) = bindR (runR tx_round xs w) (\<lambda>w. Ret (w\<lparr>is_sctp := s\<rparr>))
   \<and> (\<forall>w'. runR tx_round xs w = Ret w' \<longrightarrow> is_sctp w' = is_sctp w)"
proof (induction xs arbitrary: w)
  case (Cons x xs)
  obtain i n where x: "x = (i, n)" by (cases x)
  show ?case
  proof (cases "deliver_tx i n w")
    case (Ret y)
    obtain w' r where y: "y = (w', r)" by (cases y)
    have rem: "remove_if i (w'\<lparr>is_sctp := s\<rparr>, r) = (remove_if i (w', r))\<lparr>is_sctp := s\<rparr>"
      "is_sctp (remove_if i (w', r)) = is_sctp w"
      using deliver_tx_sctp(2) [of i n w w' r] Ret y by (simp_all add: remove_if_def remove_assoc_sctp)
    have step: "tx_round x w = Ret (remove_if i (w', r))"
      "tx_round x (w\<lparr>is_sctp := s\<rparr>) = Ret ((remove_if i (w', r))\<lparr>is_sctp := s\<rparr>)"
      unfolding x prod.case deliver_tx_sctp(1) Ret y bindR.simps rem(1) by simp_all
    show ?thesis
      unfolding runR.simps step bindR.simps
      by (rule Cons.IH [of "remove_if i (w', r)", unfolded rem(2)])
  next
    case (Panic p)
    then have step: "tx_round x w = Panic p" "tx_round x (w\<lparr>is_sctp := s\<rparr>) = Panic p"
      unfolding x prod.case deliver_tx_sctp(1) by simp_all
    show ?thesis unfolding runR.simps step by simp
  qed
qed simp

abbreviation rx_round :: "(nat \<Rightarrow> instant) \<Rightarrow> nat \<times> assoc_id \<times> 'f rx_note \<Rightarrow> 'f async_sctp \<Rightarrow> 'f async_sctp rust" where
  "rx_round clock \<equiv> \<lambda>(k, i, n) w. bindR (deliver_rx (clock k) i n w) (\<lambda>x. Ret (remove_if i x))"

lemma tx_todos:
  "\<exists>nows. runR (async_apply crc I hash) (map ADeliver nows)
     (w\<lparr>aw := a, todo := map (\<lambda>(i, n). TodoTx i n) xs @ ys\<rparr>) =
   bindR (runR tx_round xs a) (\<lambda>a. Ret (w\<lparr>aw := a, todo := ys\<rparr>))"
proof -
  have eq: "tx_round = (\<lambda>x a. bindR ((\<lambda>(i, n). deliver_tx i n) x a) (\<lambda>y. Ret (remove_if (fst x) y)))"
    by (simp add: fun_eq_iff split: prod.split)
  show ?thesis
    unfolding eq by (rule run_todos [where c = "\<lambda>_. 0"]) (auto simp: do_todo_def split: prod.split cong del: if_weak_cong)
qed

lemma rx_todos:
  "\<exists>nows. runR (async_apply crc I hash) (map ADeliver nows)
     (w\<lparr>aw := a, todo := map (\<lambda>(k, i, n). TodoRx i n) xs @ ys\<rparr>) =
   bindR (runR (rx_round clock) xs a) (\<lambda>a. Ret (w\<lparr>aw := a, todo := ys\<rparr>))"
proof -
  have eq: "rx_round clock = (\<lambda>x a. bindR ((\<lambda>(k, i, n). deliver_rx (clock k) i n) x a)
      (\<lambda>y. Ret (remove_if (fst (snd x)) y)))"
    by (simp add: fun_eq_iff split: prod.split)
  show ?thesis
    unfolding eq by (rule run_todos [where c = "\<lambda>x. clock (fst x)"]) (auto simp: do_todo_def split: prod.split cong del: if_weak_cong)
qed



end
