(* ===== verification/Reached.thy ===== *)
theory Reached
  imports Endpoint_Props Tx_Control Handshake
begin

text \<open>
  States that the core reaches through its own operations: the link between the two wrappers, which
  drive the core from many tasks or threads, and the invariants of the core. Both wrappers show that
  whatever they hold is reached.
\<close>

subsection \<open>What the core has reached\<close>

definition tx_reached :: "'f fake_addr_impl \<Rightarrow> assoc_id \<Rightarrow> 'f assoc_tx \<Rightarrow> bool" where
  "tx_reached I i s = (\<exists>st now s0 ops. assoc_tx_new i st now = Ret s0 \<and> list_all tx_op_ok ops
     \<and> runR (tx_apply I) ops s0 = Ret s)"

definition rx_reached :: "assoc_id \<Rightarrow> 'f assoc_rx \<Rightarrow> bool" where
  "rx_reached i s = (\<exists>init n limit ops. runR rx_apply ops (assoc_rx_new i init n limit) = Ret s)"

definition ep_reached :: "crc32 \<Rightarrow> 'f fake_addr_impl \<Rightarrow> 'f hasher \<Rightarrow> 'f sctp \<Rightarrow> bool" where
  "ep_reached crc I hash s = (\<exists>st ops. runR (ep_apply crc I hash) ops (sctp_new st) = Ret s)"

lemma tx_reached_step:
  assumes "tx_reached I i s" and "tx_op_ok e" and "tx_apply I e s = Ret s'"
  shows "tx_reached I i s'"
proof -
  obtain st now s0 ops where *: "assoc_tx_new i st now = Ret s0" "list_all tx_op_ok ops"
    "runR (tx_apply I) ops s0 = Ret s"
    using assms(1) by (auto simp: tx_reached_def)
  have "runR (tx_apply I) (ops @ [e]) s0 = Ret s'" "list_all tx_op_ok (ops @ [e])"
    using * assms(2,3) by (simp_all add: runR_append runR_single)
  with *(1) show ?thesis unfolding tx_reached_def by blast
qed

lemma tx_reached_run:
  "tx_reached I i s \<Longrightarrow> list_all tx_op_ok es \<Longrightarrow> runR (tx_apply I) es s = Ret s' \<Longrightarrow> tx_reached I i s'"
  by (induction es arbitrary: s) (auto simp: outcome intro: tx_reached_step)

lemma single_op:
  "tx_op_ok e \<Longrightarrow> \<forall>n. e \<noteq> OpNotify n \<Longrightarrow> tx_apply I e s = Ret s' \<Longrightarrow>
   \<exists>es. list_all tx_op_ok es \<and> list_all (\<lambda>e. \<forall>n. e \<noteq> OpNotify n) es \<and> runR (tx_apply I) es s = Ret s'"
  by (intro exI [of _ "[e]"]) (simp add: runR_single)

lemma same_tx:
  "\<exists>es. list_all tx_op_ok es \<and> list_all (\<lambda>e. \<forall>n. e \<noteq> OpNotify n) es \<and> runR (tx_apply I) es s = Ret s"
  by (intro exI [of _ "[]"]) simp

lemma rx_reached_step:
  assumes "rx_reached i s" and "rx_apply e s = Ret s'"
  shows "rx_reached i s'"
proof -
  obtain init n limit ops where "runR rx_apply ops (assoc_rx_new i init n limit) = Ret s"
    using assms(1) by (auto simp: rx_reached_def)
  then have "runR rx_apply (ops @ [e]) (assoc_rx_new i init n limit) = Ret s'"
    using assms(2) by (simp add: runR_append runR_single)
  then show ?thesis unfolding rx_reached_def by blast
qed

lemma ep_reached_step:
  assumes "ep_reached crc I hash s" and "ep_apply crc I hash e s = Ret s'"
  shows "ep_reached crc I hash s'"
proof -
  obtain st ops where "runR (ep_apply crc I hash) ops (sctp_new st) = Ret s"
    using assms(1) by (auto simp: ep_reached_def)
  then have "runR (ep_apply crc I hash) (ops @ [e]) (sctp_new st) = Ret s'"
    using assms(2) by (simp add: runR_append runR_single)
  then show ?thesis unfolding ep_reached_def by blast
qed

lemma tx_reached_inv: "tx_reached I i s \<Longrightarrow> tx_inv s"
  unfolding tx_reached_def using tx_sys.run_inv assoc_tx_new_inv by blast

lemma rx_reached_inv: "rx_reached i s \<Longrightarrow> rx_inv s"
  unfolding rx_reached_def using rx_reachable(1) by blast

lemma ep_reached_inv: "ep_reached crc I hash s \<Longrightarrow> ep_inv s"
  unfolding ep_reached_def using ep_reachable(1) by blast

text \<open>What the invariants of the core say about a transmitter and a receiver in such states.\<close>

lemma reached_core:
  assumes "tx_reached I i s" and "rx_reached j r"
  shows "tx_assert_invariants s \<and> current_in_buffer r \<le> in_buffer_limit r
    \<and> (\<forall>limit packed now. returns (poll_data_to_send s limit packed now)) \<and> returns (poll_data r)"
proof -
  have tx: "tx_inv s" and rx: "rx_inv r" using assms by (auto intro: tx_reached_inv rx_reached_inv)
  have "returns (poll_data r)" using rx by (cases rule: rx_poll_cases) simp_all
  with tx rx show ?thesis by (simp add: tx_inv_asserts poll_data_returns rx_inv_def rx_bytes_ok_def)
qed

lemma assoc_tx_new_open: "assoc_tx_new i st now = Ret s \<Longrightarrow> tx_shutdown_state s = None"
  by (auto simp: assoc_tx_new_def outcome)

lemma brand_new_reached:
  assumes "brand_new a"
  shows "tx_reached I (as_id a) (as_tx a)" and "rx_reached (as_id a) (as_rx a)"
    and "tx_notifications (as_rx a) = []" and "\<not> shutdown_complete (as_tx a)"
proof -
  obtain t n limit ts now where a: "association_new (as_id a) t n limit ts now = Ret a"
    using assms by (auto simp: brand_new_def)
  then have tx: "assoc_tx_new (as_id a) ts now = Ret (as_tx a)"
    and rx: "as_rx a = assoc_rx_new (as_id a) t n limit"
    by (cases a, auto simp: association_new_def outcome)+
  have "runR (tx_apply I) [] (as_tx a) = Ret (as_tx a)" "list_all tx_op_ok []" by simp_all
  with tx show "tx_reached I (as_id a) (as_tx a)" unfolding tx_reached_def by blast
  have "runR rx_apply [] (assoc_rx_new (as_id a) t n limit) = Ret (as_rx a)" by (simp add: rx)
  then show "rx_reached (as_id a) (as_rx a)" unfolding rx_reached_def by blast
  show "tx_notifications (as_rx a) = []" by (simp add: rx assoc_rx_new_def)
  show "\<not> shutdown_complete (as_tx a)"
    using assoc_tx_new_open [OF tx] by (simp add: shutdown_complete_def is_completely_shutdown_def)
qed

text \<open>Only a notification completes a shutdown.\<close>

lemma completes_by_notification:
  assumes "tx_apply I e s = Ret s'" and "\<forall>n. e \<noteq> OpNotify n" and "shutdown_complete s'"
  shows "shutdown_complete s"
  using tx_apply_shut_step [OF assms(1)] assms(2,3)
  by (auto simp: shutdown_complete_def is_completely_shutdown_def elim: shut_step_from)

text \<open>What a receiver has for its transmitter is admissible there.\<close>

lemma rx_notes_ok:
  assumes "rx_inv s" and "rx_notification s n now = Ret s'" and "now \<le> 2 ^ 60"
    and "list_all notification_ok (tx_notifications s)"
  shows "list_all notification_ok (tx_notifications s')"
proof -
  obtain c where c: "n = RxChunk c" by (cases n)
  have s': "handle_chunk s c now = Ret s'"
    using assms(2) by (auto simp: c outcome split: if_splits)
  have ack: "list_all notification_ok (tx_notifications u)"
    if "queue_ack t = Ret u" "tx_notifications t = tx_notifications s" for t u
    using that assms(4) by (auto simp: push_tx_def elim!: queue_ack_cases)
  show ?thesis
  proof (cases "\<exists>d. c = CData d")
    case True
    then obtain d where d: "handle_data_chunk s d = Ret s'"
      using s' by (auto simp: handle_chunk_def)
    obtain t b where t: "handle_in_order_packet (length (tsn_reorder_buffer s)) s d = Ret (t, b)"
      "rx_smaller t s"
      using handle_in_order_ok [OF _ _ assms(1) order_refl] by blast
    then have "tx_notifications t = tx_notifications s"
      by (simp add: rx_smaller_def rx_frame_def)
    with t d show ?thesis
      using ack assms(4)
      by (auto simp: handle_data_chunk_def Let_def split: ordering.splits if_splits)
  qed (use s' assms(3,4) in \<open>cases c; auto simp: handle_chunk_def push_tx_def\<close>)
qed

text \<open>A receiver whose notes are drained has none after a poll.\<close>

lemma poll_data_notes: "poll_data s = Ret (s', r) \<Longrightarrow> tx_notifications s' = tx_notifications s"
  by (auto simp: poll_data_def pop_next_receive_event_def outcome split: if_splits list.splits)

lemma poll_data_idle: "rx_inv s \<Longrightarrow> poll_data s = Ret (s', NoneAvailable) \<Longrightarrow> s' = s"
  by (erule rx_poll_cases) auto

subsection \<open>Room in the send buffer\<close>

lemma handle_timeout_buffered:
  assumes "handle_timeout s t = Ret s'"
  shows "current_out_buffered s' = current_out_buffered s"
proof -
  have rto: "current_out_buffered (handle_rto_timeout u t) = current_out_buffered u" for u :: "'a assoc_tx"
    by (simp add: handle_rto_timeout_def Let_def set_rto_timeout_def)
  have shut: "current_out_buffered (handle_shutdown_rto_timeout u t) = current_out_buffered u" for u :: "'a assoc_tx"
    by (simp add: handle_shutdown_rto_timeout_def set_shutdown_rto_timeout_def push_send_next_def
        split: option.split shutdown_state.split)
  have hb: "handle_heartbeat_timeout u t = Ret u' \<Longrightarrow> current_out_buffered u' = current_out_buffered u" for u u' :: "'a assoc_tx"
    by (auto simp: handle_heartbeat_timeout_def Let_def outcome set_heartbeat_timeout_def push_send_next_def
        split: if_splits prod.splits)
  show ?thesis
    using assms unfolding handle_timeout_def Let_def by (auto simp: rto shut dest: hb split: if_splits)
qed

lemma poll_data_buffered:
  assumes "poll_data_to_send s limit packed now = Ret (s', r)"
  shows "current_out_buffered s' = current_out_buffered s"
proof -
  have "next_new_chunk s room = Some (t, d) \<Longrightarrow> current_out_buffered t = current_out_buffered s" for room t d
    by (auto elim: next_new_chunk_cases)
  then have "poll_new_data s room now = Ret (s', r) \<Longrightarrow> current_out_buffered s' = current_out_buffered s" for room
    unfolding poll_new_data_def Let_def
    by (auto simp: outcome set_rto_timeout_def split: if_splits option.splits)
  moreover have "poll_loss_recovery s room now = Ret (s', r) \<Longrightarrow> current_out_buffered s' = current_out_buffered s" for room
    by (auto simp: poll_loss_recovery_def Let_def set_rto_timeout_def split: if_splits list.splits)
  ultimately show ?thesis
    using assms unfolding poll_data_to_send_def Let_def
    by (auto split: if_splits congestion_state.splits prod.splits)
qed

lemma poll_signal_buffered:
  "poll_signal_to_send I s limit packed now = Ret (s', r) \<Longrightarrow> current_out_buffered s' = current_out_buffered s"
  by (auto simp: poll_signal_to_send_def Let_def outcome set_shutdown_rto_timeout_def
      split: list.splits if_splits option.splits shutdown_state.splits)

text \<open>Only a notification makes room.\<close>

lemma room_by_notification:
  assumes "tx_apply I e s = Ret s'" and "\<forall>n. e \<noteq> OpNotify n"
  shows "current_out_buffered s \<le> current_out_buffered s'"
  using assms
  by (cases e)
     (auto simp: outcome try_send_data_def Let_def initiate_shutdown_def
       dest: handle_timeout_buffered poll_data_buffered poll_signal_buffered split: if_splits)

lemma room_by_run:
  "list_all (\<lambda>e. \<forall>n. e \<noteq> OpNotify n) es \<Longrightarrow> runR (tx_apply I) es s = Ret s' \<Longrightarrow>
   current_out_buffered s \<le> current_out_buffered s'"
proof (induction es arbitrary: s)
  case (Cons e es)
  then obtain t where "tx_apply I e s = Ret t" "runR (tx_apply I) es t = Ret s'" by (auto simp: outcome)
  with Cons show ?case using room_by_notification [of I e s t] by (force intro: order_trans)
qed simp

subsection \<open>The heartbeat timer\<close>

lemma set_timeouts_heartbeat:
  "heartbeat_timer (set_rto_timeout s now) = heartbeat_timer s"
  "heartbeat_timer (set_shutdown_rto_timeout s now) = heartbeat_timer s"
  "heartbeat_timer (push_send_next s c) = heartbeat_timer s"
  "heartbeat_timer (set_heartbeat_timeout s now) \<noteq> None"
  by (simp_all add: set_rto_timeout_def set_shutdown_rto_timeout_def push_send_next_def set_heartbeat_timeout_def)

lemma handle_timeout_heartbeat:
  assumes "handle_timeout s t = Ret s'" and "heartbeat_timer s \<noteq> None"
  shows "heartbeat_timer s' \<noteq> None"
  using assms unfolding handle_timeout_def Let_def
  by (auto simp: rto_timeout_timers(2) shutdown_timeout_timers(2) dest: heartbeat_timeout_timers(5) split: if_splits)

lemma tx_notification_heartbeat:
  assumes "tx_notification s n = Ret s'" and "heartbeat_timer s \<noteq> None"
  shows "heartbeat_timer s' \<noteq> None"
proof (cases n)
  case (TxSend c)
  with assms show ?thesis
    by (cases c) (auto simp: tx_notification_def set_timeouts_heartbeat Let_def split: if_splits)
next
  case (TxHeartBeatAck data now)
  with assms show ?thesis
    by (auto simp: tx_notification_def process_heartbeat_ack_def outcome set_heartbeat_timeout_def Let_def)
qed (use assms in \<open>auto simp: tx_notification_def set_timeouts_heartbeat handle_sack_shutdown
      split: if_splits option.splits shutdown_state.splits\<close>)

lemma poll_data_heartbeat:
  assumes "poll_data_to_send s limit packed now = Ret (s', r)"
  shows "heartbeat_timer s' = heartbeat_timer s"
proof -
  have "next_new_chunk s room = Some (t, d) \<Longrightarrow> heartbeat_timer t = heartbeat_timer s" for room t d
    by (auto elim: next_new_chunk_cases)
  then have "poll_new_data s room now = Ret (s', r) \<Longrightarrow> heartbeat_timer s' = heartbeat_timer s" for room
    unfolding poll_new_data_def Let_def
    by (auto simp: outcome set_timeouts_heartbeat split: if_splits option.splits)
  moreover have "poll_loss_recovery s room now = Ret (s', r) \<Longrightarrow> heartbeat_timer s' = heartbeat_timer s" for room
    by (auto simp: poll_loss_recovery_def Let_def set_timeouts_heartbeat split: if_splits list.splits)
  ultimately show ?thesis
    using assms unfolding poll_data_to_send_def Let_def
    by (auto split: if_splits congestion_state.splits prod.splits)
qed

lemma poll_signal_heartbeat:
  "poll_signal_to_send I s limit packed now = Ret (s', r) \<Longrightarrow> heartbeat_timer s' = heartbeat_timer s"
  by (auto simp: poll_signal_to_send_def Let_def outcome set_timeouts_heartbeat
      split: list.splits if_splits option.splits shutdown_state.splits)

text \<open>A transmitter always has its heartbeat timer running, so there is always a next timeout.\<close>

lemma tx_apply_heartbeat:
  assumes "heartbeat_timer s \<noteq> None" and "tx_apply I e s = Ret s'"
  shows "heartbeat_timer s' \<noteq> None"
  using assms
  by (cases e)
     (auto simp: outcome try_send_data_def Let_def initiate_shutdown_def poll_data_heartbeat poll_signal_heartbeat
       dest: handle_timeout_heartbeat tx_notification_heartbeat split: if_splits)

interpretation heartbeat_sys: invariant_system "tx_apply I" "\<lambda>_. True" "\<lambda>s. heartbeat_timer s \<noteq> None" for I
  by unfold_locales (rule tx_apply_heartbeat)

lemma reached_next_timeout:
  assumes "tx_reached I i s"
  shows "\<exists>t. next_timeout s = Some t"
proof -
  obtain st now s0 ops where *: "assoc_tx_new i st now = Ret s0" "runR (tx_apply I) ops s0 = Ret s"
    using assms by (auto simp: tx_reached_def)
  have "heartbeat_timer s0 \<noteq> None" using *(1) by (auto simp: assoc_tx_new_def outcome)
  from heartbeat_sys.run_inv [OF this _ *(2)] have "heartbeat_timer s \<noteq> None" by (simp add: list_all_iff)
  then show ?thesis
    by (auto simp: next_timeout_def find_next_timer_def split: option.split)
qed

subsection \<open>An example: a server that is sent a cookie\<close>

definition demo_server_settings :: settings where
  "demo_server_settings = \<lparr>st_cookie_secret = [1], st_incoming_streams = 1, st_outgoing_streams = 1,
     st_in_buffer_limit = 100, st_out_buffer_limit = 100\<rparr>"

lemma demo_cookie_packet:
  obtains data a s where
    "receive_data (\<lambda>_. 0) fake_addr_socket (\<lambda>_. 7) 0 0 (sctp_new demo_server_settings) data (IpV4 1) 0 = Ret s"
    "association_new (AssocId 2) 6 1 100 (cookie_settings (sctp_new demo_server_settings) demo_cookie) 0 = Ret a"
    "sc_new_assoc s = Some a" "sc_tx_notifications s = [(AssocId 2, TxSend CStateCookieAck)]"
    "sc_rx_notifications s = []" "sc_send_immediate s = []"
    "sc_aliases s (alias_of (IpV4 1) demo_packet) = Some (AssocId 2)"
    "assoc_infos s (AssocId 2) = Some \<lparr>pa_local_verification_tag = 22, pa_peer_verification_tag = 11\<rparr>"
proof -
  let ?s = "sctp_new demo_server_settings :: socket_addr sctp"
  have fits: "chunk_fits fake_addr_socket (CStateCookie (Opaque (cookie_serialize fake_addr_socket demo_cookie)))"
    by (rule socket_addr.cookie_fits(2) [OF socket_size]) (simp add: demo_cookie_def)
  have echo: "\<exists>b. association_new (AssocId (assoc_id_gen ?s + 1)) (ck_peer_initial_tsn demo_cookie)
      (ck_incoming_streams demo_cookie) (st_in_buffer_limit (sc_settings ?s)) (cookie_settings ?s demo_cookie) 0 = Ret b
    \<and> deliver (\<lambda>_. 0) fake_addr_socket (\<lambda>_. 7) 0 0 ?s
        (demo_packet, CStateCookie (Opaque (cookie_serialize fake_addr_socket demo_cookie))) (IpV4 1) 0 =
      Ret ((with_assoc ?s (assoc_id_gen ?s + 1)
          \<lparr>pa_local_verification_tag = ck_local_verification_tag demo_cookie,
           pa_peer_verification_tag = ck_peer_verification_tag demo_cookie\<rparr>
          (alias_of (init_address demo_cookie) demo_packet) (ck_aliases demo_cookie) b)
        \<lparr>sc_tx_notifications := sc_tx_notifications ?s @ [(AssocId (assoc_id_gen ?s + 1), TxSend CStateCookieAck)]\<rparr>)"
    by (rule socket_addr.deliver_cookie_echo [OF fits])
       (simp_all add: demo_cookie_def calc_mac_def sctp_new_def)
  have gen: "assoc_id_gen ?s + 1 = 2" by (simp add: sctp_new_def)
  from echo obtain b where b: "association_new (AssocId 2) 6 1 100 (cookie_settings ?s demo_cookie) 0 = Ret b"
    and del: "deliver (\<lambda>_. 0) fake_addr_socket (\<lambda>_. 7) 0 0 ?s
        (demo_packet, CStateCookie (Opaque (cookie_serialize fake_addr_socket demo_cookie))) (IpV4 1) 0 =
      Ret ((with_assoc ?s 2 \<lparr>pa_local_verification_tag = 22, pa_peer_verification_tag = 11\<rparr>
          (alias_of (IpV4 1) demo_packet) [] b)\<lparr>sc_tx_notifications := [(AssocId 2, TxSend CStateCookieAck)]\<rparr>)"
    unfolding gen by (auto simp: demo_cookie_def sctp_new_def demo_server_settings_def)
  from del obtain data where "receive_data (\<lambda>_. 0) fake_addr_socket (\<lambda>_. 7) 0 0 ?s data (IpV4 1) 0 =
      Ret ((with_assoc ?s 2 \<lparr>pa_local_verification_tag = 22, pa_peer_verification_tag = 11\<rparr>
          (alias_of (IpV4 1) demo_packet) [] b)\<lparr>sc_tx_notifications := [(AssocId 2, TxSend CStateCookieAck)]\<rparr>)"
    by (auto simp: deliver_def outcome)
  from that [OF this b] show thesis by (simp add: with_assoc_def sctp_new_def)
qed

end
