(* ===== verification/Async_Inv.thy ===== *)
theory Async_Inv
  imports Async_Steps Reached
begin

text \<open>
  The invariant of the async wrapper: it drives the endpoint, the transmitters and the receivers
  only through their own operations, so that everything shown of those holds here; the table of
  associations is wired correctly; and no reader and no acceptor waits for something that is
  already there.
\<close>

subsection \<open>The invariant\<close>

abbreviation tx_of :: "'f async_assoc \<Rightarrow> 'f assoc_tx" where
  "tx_of a \<equiv> it_tx (aa_tx a)"

abbreviation rx_of :: "'f async_assoc \<Rightarrow> 'f assoc_rx" where
  "rx_of a \<equiv> ir_rx (aa_rx a)"

text \<open>A reader only waits while polling would find nothing.\<close>

definition assoc_ok :: "'f fake_addr_impl \<Rightarrow> assoc_id \<Rightarrow> 'f async_assoc \<Rightarrow> bool" where
  "assoc_ok I i a = (tx_reached I i (tx_of a) \<and> rx_reached i (rx_of a) \<and> tx_notifications (rx_of a) = []
     \<and> (recv_wakers (aa_rx a) \<noteq> [] \<longrightarrow> poll_data (rx_of a) = Ret (rx_of a, NoneAvailable)))"

text \<open>Every table entry leads to the association it names, and one whose shutdown is complete is
  about to be removed.\<close>

definition entry_ok :: "'f fake_addr_impl \<Rightarrow> 'f todo list \<Rightarrow> 'f async_assoc list \<Rightarrow> assoc_id \<Rightarrow> handle \<Rightarrow> bool" where
  "entry_ok I td st i h = (h < length st \<and> assoc_ok I i (st ! h)
     \<and> (shutdown_complete (tx_of (st ! h)) \<longrightarrow> TodoRemove i \<in> set td))"

definition one_entry :: "(assoc_id \<times> handle) list \<Rightarrow> bool" where
  "one_entry al = (distinct (map fst al)
     \<and> (\<forall>i j h. map_of al i = Some h \<longrightarrow> map_of al j = Some h \<longrightarrow> i = j))"

definition table_ok :: "'f fake_addr_impl \<Rightarrow> 'f todo list \<Rightarrow> 'f async_sctp \<Rightarrow> bool" where
  "table_ok I td w =
     ((\<forall>a \<in> set (store w). \<exists>i. assoc_ok I i a)
      \<and> (\<forall>i h. map_of (assocs w) i = Some h \<longrightarrow> entry_ok I td (store w) i h)
      \<and> one_entry (assocs w))"

text \<open>The endpoint between two packets: nothing is left to be passed on.\<close>

definition drained :: "'f sctp \<Rightarrow> bool" where
  "drained s = (sc_new_assoc s = None \<and> sc_tx_notifications s = [] \<and> sc_rx_notifications s = [])"

definition front_ok :: "crc32 \<Rightarrow> 'f fake_addr_impl \<Rightarrow> 'f hasher \<Rightarrow> 'f async_sctp \<Rightarrow> bool" where
  "front_ok crc I hash w =
     (ep_reached crc I hash (is_sctp w) \<and> drained (is_sctp w)
      \<and> fst ` set (assocs w) \<subseteq> {..AssocId (assoc_id_gen (is_sctp w))}
      \<and> (\<forall>h \<in> set (ready_assocs w). h < length (store w))
      \<and> (new_assoc_wakers w \<noteq> [] \<longrightarrow> ready_assocs w = []))"

definition todo_ok :: "'f async_sctp \<Rightarrow> 'f todo \<Rightarrow> bool" where
  "todo_ok w x = (case x of TodoTx i n \<Rightarrow> n = TxSend CStateCookieAck | TodoShutdown h \<Rightarrow> h < length (store w) | _ \<Rightarrow> True)"

definition async_inv :: "crc32 \<Rightarrow> 'f fake_addr_impl \<Rightarrow> 'f hasher \<Rightarrow> 'f async_world \<Rightarrow> bool" where
  "async_inv crc I hash w = (front_ok crc I hash (aw w) \<and> table_ok I (todo w) (aw w)
     \<and> list_all (todo_ok (aw w)) (todo w))"

lemma async_init_inv: "async_inv crc I hash (async_init st)"
proof -
  have "runR (ep_apply crc I hash) [] (sctp_new st) = Ret (sctp_new st)" by simp
  then have "ep_reached crc I hash (sctp_new st)" unfolding ep_reached_def by blast
  then show ?thesis
    by (simp add: async_inv_def async_init_def async_new_def front_ok_def table_ok_def drained_def)
       (simp add: sctp_new_def one_entry_def)
qed

lemma one_entryD: "one_entry al \<Longrightarrow> map_of al i = Some h \<Longrightarrow> map_of al j = Some h \<Longrightarrow> i = j"
  unfolding one_entry_def by blast

lemma one_entry_delete: "one_entry al \<Longrightarrow> one_entry (AList.delete i al)"
  unfolding one_entry_def delete_conv' by (metis distinct_delete fun_upd_apply option.distinct(1))

lemma one_entry_update:
  assumes "one_entry al" and "\<And>j. map_of al j \<noteq> Some h"
  shows "one_entry (AList.update i h al)"
proof -
  have "distinct (map fst (AList.update i h al))"
    using assms(1) by (intro distinct_update) (simp add: one_entry_def)
  with assms show ?thesis
    unfolding one_entry_def update_conv' by (metis fun_upd_apply option.inject)
qed

subsection \<open>Changing one association\<close>

text \<open>What a change of one association has to respect.\<close>

definition assoc_step :: "'f fake_addr_impl \<Rightarrow> 'f async_assoc \<Rightarrow> 'f async_assoc \<Rightarrow> bool" where
  "assoc_step I a b = (\<forall>i. assoc_ok I i a \<longrightarrow> assoc_ok I i b)"

lemma async_updates [simp]:
  "store (wake ws w) = store w" "assocs (wake ws w) = assocs w" "ready_assocs (wake ws w) = ready_assocs w"
  "new_assoc_wakers (wake ws w) = new_assoc_wakers w"
  "store (put_assoc h a w) = (store w)[h := a]" "assocs (put_assoc h a w) = assocs w"
  "ready_assocs (put_assoc h a w) = ready_assocs w" "new_assoc_wakers (put_assoc h a w) = new_assoc_wakers w"
  by (simp_all add: wake_def put_assoc_def)

lemma front_ok_updates [simp]:
  "front_ok crc I hash (wake ws w) = front_ok crc I hash w"
  "front_ok crc I hash (put_assoc h a w) = front_ok crc I hash w"
  by (simp_all add: front_ok_def)

lemma todo_ok_put [simp]:
  "todo_ok (wake ws w) = todo_ok w" "todo_ok (put_assoc h a w) = todo_ok w"
  "todo_ok (w\<lparr>assocs := al\<rparr>) = todo_ok w"
  by (simp_all add: todo_ok_def fun_eq_iff split: todo.split)

lemma table_ok_wake [simp]: "table_ok I td (wake ws w) = table_ok I td w"
  by (simp add: table_ok_def)

lemma table_ok_put:
  assumes "table_ok I td w" and "h < length (store w)" and "assoc_step I (store w ! h) a"
    and "\<And>j. TodoRemove j \<in> set td \<Longrightarrow> TodoRemove j \<in> set td'"
    and "\<And>i. map_of (assocs w) i = Some h \<Longrightarrow> shutdown_complete (tx_of a) \<Longrightarrow>
      shutdown_complete (tx_of (store w ! h)) \<or> TodoRemove i \<in> set td'"
  shows "table_ok I td' (put_assoc h a w)"
proof -
  have "\<exists>i. assoc_ok I i (store w ! h)" using assms(1,2) by (simp add: table_ok_def)
  then have "\<exists>i. assoc_ok I i a" using assms(3) by (auto simp: assoc_step_def)
  then have st: "\<forall>b \<in> set ((store w)[h := a]). \<exists>i. assoc_ok I i b"
    using assms(1) set_update_subset_insert [of "store w" h a] by (auto simp: table_ok_def)
  have "entry_ok I td' ((store w)[h := a]) i k" if "map_of (assocs w) i = Some k" for i k
  proof (cases "k = h")
    case True
    have "entry_ok I td (store w) i h" using assms(1) that True by (simp add: table_ok_def)
    with assms(2-5) True that show ?thesis
      by (auto simp: entry_ok_def assoc_step_def)
  next
    case False
    have "entry_ok I td (store w) i k" using assms(1) that by (simp add: table_ok_def)
    with False assms(4) show ?thesis by (auto simp: entry_ok_def)
  qed
  with st assms(1) show ?thesis by (simp add: table_ok_def)
qed

lemma table_ok_drop:
  assumes "table_ok I (x # xs) w" and "\<And>i. x = TodoRemove i \<Longrightarrow> map_of (assocs w) i = None"
  shows "table_ok I xs w"
proof -
  have "entry_ok I xs (store w) i h" if "map_of (assocs w) i = Some h" for i h
  proof -
    have "x \<noteq> TodoRemove i" using assms(2) that by auto
    moreover have "entry_ok I (x # xs) (store w) i h" using assms(1) that unfolding table_ok_def by blast
    ultimately show ?thesis by (auto simp: entry_ok_def)
  qed
  with assms(1) show ?thesis unfolding table_ok_def by blast
qed

lemma table_ok_delete:
  assumes "table_ok I td w"
  shows "table_ok I td (w\<lparr>assocs := AList.delete i (assocs w)\<rparr>)"
proof -
  have "map_of (AList.delete i (assocs w)) j = Some h \<Longrightarrow> map_of (assocs w) j = Some h" for j h
    by (simp add: delete_conv' split: if_splits)
  then show ?thesis
    using assms one_entry_delete [of "assocs w" i] by (simp add: table_ok_def)
qed

lemma on_assoc_inv:
  assumes "async_inv crc I hash w" and "on_assoc w h f = Ret w'"
    and "\<And>a b ws. f a = Ret (b, ws) \<Longrightarrow> assoc_step I a b"
    and "\<And>a b ws. f a = Ret (b, ws) \<Longrightarrow> shutdown_complete (tx_of b) \<Longrightarrow> shutdown_complete (tx_of a)"
  shows "async_inv crc I hash w'"
proof (cases "h < length (store (aw w))")
  case True
  then obtain b ws where b: "f (store (aw w) ! h) = Ret (b, ws)"
    "w' = w\<lparr>aw := wake ws (put_assoc h b (aw w))\<rparr>"
    using assms(2) by (auto simp: on_assoc_def outcome)
  have "table_ok I (todo w) (put_assoc h b (aw w))"
    using assms(1) True assms(3) [OF b(1)] assms(4) [OF b(1)]
    by (intro table_ok_put [where td = "todo w"]) (auto simp: async_inv_def)
  with assms(1) b(2) show ?thesis by (simp add: async_inv_def)
qed (use assms(1,2) in \<open>simp add: on_assoc_def\<close>)

text \<open>A method of the transmitter that goes through its operations.\<close>

lemma tx_assoc_step:
  assumes "\<And>i. tx_reached I i (it_tx (aa_tx a)) \<Longrightarrow> tx_reached I i (it_tx tx)"
  shows "assoc_step I a (a\<lparr>aa_tx := tx\<rparr>)"
  using assms by (simp add: assoc_step_def assoc_ok_def)

lemma on_tx_inv:
  assumes "async_inv crc I hash w" and "on_tx w h f = Ret w'"
    and "\<And>tx tx' ws. f tx = Ret (tx', ws) \<Longrightarrow>
      \<exists>es. list_all tx_op_ok es \<and> list_all (\<lambda>e. \<forall>n. e \<noteq> OpNotify n) es \<and> runR (tx_apply I) es (it_tx tx) = Ret (it_tx tx')"
  shows "async_inv crc I hash w'"
proof -
  have run: "shutdown_complete s' \<Longrightarrow> shutdown_complete s"
    if "list_all (\<lambda>e. \<forall>n. e \<noteq> OpNotify n) es" "runR (tx_apply I) es s = Ret s'" for es s s'
    using that by (induction es arbitrary: s) (auto simp: outcome dest: completes_by_notification)
  show ?thesis
  proof (rule on_assoc_inv [OF assms(1) assms(2) [unfolded on_tx_def]])
    fix a b :: "'a async_assoc" and ws
    assume "bindR (f (aa_tx a)) (\<lambda>(tx, ws). Ret (a\<lparr>aa_tx := tx\<rparr>, ws)) = Ret (b, ws)"
    then obtain tx where tx: "f (aa_tx a) = Ret (tx, ws)" "b = a\<lparr>aa_tx := tx\<rparr>"
      by (auto simp: outcome)
    from assms(3) [OF tx(1)] obtain es where es: "list_all tx_op_ok es" "list_all (\<lambda>e. \<forall>n. e \<noteq> OpNotify n) es"
      "runR (tx_apply I) es (tx_of a) = Ret (it_tx tx)"
      by blast
    show "assoc_step I a b" unfolding tx(2) by (rule tx_assoc_step) (rule tx_reached_run [OF _ es(1,3)])
    show "shutdown_complete (tx_of b) \<Longrightarrow> shutdown_complete (tx_of a)"
      using run [OF es(2,3)] by (simp add: tx(2))
  qed
qed

subsection \<open>The methods of one association\<close>

lemma send_future_poll_ops:
  assumes "send_future_poll cx f tx = Ret (tx', ws, g, r)" and "sf_data f \<noteq> Some []"
  shows "\<exists>data. tx_op_ok (OpSend data (sf_stream f) (sf_ppid f) (sf_immediate f) (sf_unordered f) :: 'f tx_op)
    \<and> tx_apply I (OpSend data (sf_stream f) (sf_ppid f) (sf_immediate f) (sf_unordered f)) (it_tx tx) = Ret (it_tx tx')"
proof -
  obtain data where data: "sf_data f = Some data" "data \<noteq> []"
    using assms by (auto simp: send_future_poll_def split: option.splits)
  then obtain s q where s: "try_send_data (it_tx tx) data (sf_stream f) (sf_ppid f) (sf_immediate f)
      (sf_unordered f) = Ret (s, q)"
    using assms(1) by (auto simp: send_future_poll_def Let_def outcome)
  then have "it_tx tx' = s"
    using assms(1) data
    by (cases q) (auto simp: send_future_poll_def Let_def split: if_splits)
  with data s show ?thesis by auto
qed

lemma try_poll_any_chunk_ops:
  assumes "try_poll_any_chunk I s limit packed now now' = Ret (s', r)"
  shows "\<exists>es. list_all tx_op_ok es \<and> list_all (\<lambda>e. \<forall>n. e \<noteq> OpNotify n) es \<and> runR (tx_apply I) es s = Ret s'"
proof -
  obtain t q where t: "poll_signal_to_send I s limit packed now = Ret (t, q)"
    and rest: "poll_or_else (t, q) (\<lambda>tx. bindR (poll_data_to_send tx limit packed now')
      (\<lambda>(tx, r). Ret (tx, poll_map CData r))) = Ret (s', r)"
    using assms by (auto simp: try_poll_any_chunk_def outcome)
  show ?thesis
  proof (cases "q = PollNone")
    case True
    with t rest have "runR (tx_apply I) [OpPollSignal limit packed now, OpPollData limit packed now'] s = Ret s'"
      by (auto simp: poll_or_else_def outcome)
    then show ?thesis
      by (intro exI [of _ "[OpPollSignal limit packed now, OpPollData limit packed now']"]) simp
  next
    case False
    with t rest have "runR (tx_apply I) [OpPollSignal limit packed now] s = Ret s'"
      by (auto simp: poll_or_else_def split: poll_send_result.splits)
    then show ?thesis
      by (intro exI [of _ "[OpPollSignal limit packed now]"]) simp
  qed
qed

lemma poll_future_poll_tx:
  assumes "poll_future_poll I limit packed now now' cx tx = Ret (tx', ws, r)"
  obtains q where "try_poll_any_chunk I (it_tx tx) limit packed now now' = Ret (it_tx tx', q)"
proof -
  obtain s q where s: "try_poll_any_chunk I (it_tx tx) limit packed now now' = Ret (s, q)"
    using assms by (auto simp: poll_future_poll_def outcome)
  have "it_tx tx' = s"
  proof (cases q)
    case (PollSome c)
    with assms s show ?thesis
      by (cases c) (auto simp: poll_future_poll_def Let_def poll_map_def)
  qed (use assms s in \<open>auto simp: poll_future_poll_def Let_def poll_map_def\<close>)
  with s show thesis by (intro that) simp
qed

lemma try_poll_chunk_tx:
  assumes "try_poll_chunk_to_send I limit packed now now' tx = Ret (tx', r)"
  obtains q where "try_poll_any_chunk I (it_tx tx) limit packed now now' = Ret (it_tx tx', q)"
  using assms by (auto simp: try_poll_chunk_to_send_def outcome)

lemma recv_future_poll_ok:
  assumes "recv_future_poll cx a = Ret (b, ws, r)"
  shows "assoc_step I a b" and "tx_notifications (rx_of a) = [] \<Longrightarrow> aa_tx b = aa_tx a"
proof -
  obtain s q where s: "poll_data (rx_of a) = Ret (s, q)"
    using assms by (auto simp: recv_future_poll_def Let_def outcome)
  have "assoc_ok I i b" if ok: "assoc_ok I i a" for i
  proof -
    have none: "tx_notifications (rx_of a) = []" using ok by (simp add: assoc_ok_def)
    have inv: "rx_inv (rx_of a)" using ok by (auto simp: assoc_ok_def intro: rx_reached_inv)
    have "rx_apply RxPoll (rx_of a) = Ret s" using s by simp
    with rx_reached_step have reached: "rx_reached i s"
      using ok unfolding assoc_ok_def by blast
    have left: "tx_notifications s = []" using poll_data_notes [OF s] none by simp
    then have same: "s\<lparr>tx_notifications := []\<rparr> = s" by simp
    show ?thesis
    proof (cases q)
      case (PollData e)
      then have b: "b = a\<lparr>aa_rx := (aa_rx a)\<lparr>ir_rx := s\<rparr>\<rparr>"
        using assms s left same by (auto simp: recv_future_poll_def Let_def drain_tx_notifications_def)
      have "recv_wakers (aa_rx a) = []"
        using ok s PollData by (auto simp: assoc_ok_def)
      with ok reached left b show ?thesis by (simp add: assoc_ok_def)
    next
      case NoneAvailable
      then have "s = rx_of a" using poll_data_idle [OF inv] s by simp
      with NoneAvailable assms s ok show ?thesis
        by (auto simp: recv_future_poll_def Let_def assoc_ok_def)
    next
      case (PollError err)
      then have b: "b = a\<lparr>aa_rx := (aa_rx a)\<lparr>ir_rx := s\<rparr>\<rparr>"
        using assms s by (auto simp: recv_future_poll_def Let_def)
      have "recv_wakers (aa_rx a) = []"
        using ok s PollError by (auto simp: assoc_ok_def)
      with ok reached left b show ?thesis by (simp add: assoc_ok_def)
    qed
  qed
  then show "assoc_step I a b" by (simp add: assoc_step_def)
  show "aa_tx b = aa_tx a" if "tx_notifications (rx_of a) = []"
    using that assms s poll_data_notes [OF s]
    by (auto simp: recv_future_poll_def Let_def drain_tx_notifications_def split: poll_data_result.splits)
qed

subsection \<open>Notifications\<close>

lemma forward_notes_reached:
  "forward_notes ns (tx, ws) = Ret (tx', ws') \<Longrightarrow> list_all notification_ok ns \<Longrightarrow> tx_reached I i (it_tx tx) \<Longrightarrow>
   tx_reached I i (it_tx tx')"
proof (induction ns arbitrary: tx ws)
  case (Cons n ns)
  then obtain s where s: "tx_notification (it_tx tx) n = Ret s"
    and rest: "forward_notes ns (tx\<lparr>it_tx := s, poll_wakers := [], send_wakers := []\<rparr>,
        ws @ poll_wakers tx @ send_wakers tx) = Ret (tx', ws')"
    by (auto simp: outcome)
  have "tx_reached I i s"
    using tx_reached_step [of I i "it_tx tx" "OpNotify n" s] Cons.prems(2,3) s by simp
  then show ?case
    using Cons.IH [OF rest] Cons.prems(2) by simp
qed simp

lemma deliver_tx_inv:
  assumes "async_inv crc I hash w" and "todo w = TodoTx i n # xs" and "deliver_tx i n (aw w) = Ret (a, r)"
  shows "async_inv crc I hash (w\<lparr>aw := a, todo := (if r then [TodoRemove i] else []) @ xs\<rparr>)"
proof (cases "map_of (assocs (aw w)) i")
  case None
  then have a: "a = aw w" "r = False" using assms(3) by (simp_all add: deliver_tx_def)
  have "table_ok I (TodoTx i n # xs) (aw w)" using assms(1,2) by (simp add: async_inv_def)
  then have "table_ok I xs (aw w)" by (rule table_ok_drop) (simp add: None)
  with assms(1,2) a show ?thesis by (simp add: async_inv_def)
next
  case (Some h)
  let ?b = "store (aw w) ! h" and ?td = "(if r then [TodoRemove i] else []) @ xs"
  obtain s where s: "tx_notification (tx_of ?b) n = Ret s" "r = shutdown_complete s"
    "a = wake (poll_wakers (aa_tx ?b))
       (put_assoc h (?b\<lparr>aa_tx := (aa_tx ?b)\<lparr>it_tx := s, poll_wakers := []\<rparr>\<rparr>) (aw w))"
    using assms(3) Some by (auto simp: deliver_tx_def Let_def outcome)
  have tab: "table_ok I (todo w) (aw w)" using assms(1) by (simp add: async_inv_def)
  have ok: "notification_ok n" using assms(1,2) by (auto simp: async_inv_def todo_ok_def)
  have h: "h < length (store (aw w))" using tab Some by (simp add: table_ok_def entry_ok_def)
  have "tx_reached I j (tx_of ?b) \<Longrightarrow> tx_reached I j s" for j
    using tx_reached_step [of I j "tx_of ?b" "OpNotify n" s] ok s(1) by simp
  then have step: "assoc_step I ?b (?b\<lparr>aa_tx := (aa_tx ?b)\<lparr>it_tx := s, poll_wakers := []\<rparr>\<rparr>)"
    by (intro tx_assoc_step) simp
  have "table_ok I ?td (put_assoc h (?b\<lparr>aa_tx := (aa_tx ?b)\<lparr>it_tx := s, poll_wakers := []\<rparr>\<rparr>) (aw w))"
    using tab Some s(2) assms(2) by (intro table_ok_put [OF tab h step]) (auto simp: table_ok_def dest: one_entryD)
  then show ?thesis
    using assms(1,2) s(3) by (simp add: async_inv_def todo_ok_def)
qed

lemma deliver_rx_inv:
  assumes "async_inv crc I hash w" and "todo w = TodoRx i n # xs" and "deliver_rx now i n (aw w) = Ret (a, r)"
    and "now \<le> 2 ^ 60"
  shows "async_inv crc I hash (w\<lparr>aw := a, todo := (if r then [TodoRemove i] else []) @ xs\<rparr>)"
proof (cases "map_of (assocs (aw w)) i")
  case None
  then have a: "a = aw w" "r = False" using assms(3) by (simp_all add: deliver_rx_def)
  have "table_ok I (TodoRx i n # xs) (aw w)" using assms(1,2) by (simp add: async_inv_def)
  then have "table_ok I xs (aw w)" by (rule table_ok_drop) (simp add: None)
  with assms(1,2) a show ?thesis by (simp add: async_inv_def)
next
  case (Some h)
  let ?b = "store (aw w) ! h" and ?td = "(if r then [TodoRemove i] else []) @ xs"
  obtain s tx ws where s: "rx_notification (rx_of ?b) n now = Ret s"
    "forward_notes (tx_notifications s) (aa_tx ?b, recv_wakers (aa_rx ?b)) = Ret (tx, ws)"
    "r = shutdown_complete (it_tx tx)"
    "a = wake ws (put_assoc h (?b\<lparr>aa_tx := tx,
        aa_rx := (aa_rx ?b)\<lparr>ir_rx := s\<lparr>tx_notifications := []\<rparr>, recv_wakers := []\<rparr>\<rparr>) (aw w))"
    using assms(3) Some by (auto simp: deliver_rx_def Let_def drain_tx_notifications_def outcome)
  let ?c = "?b\<lparr>aa_tx := tx, aa_rx := (aa_rx ?b)\<lparr>ir_rx := s\<lparr>tx_notifications := []\<rparr>, recv_wakers := []\<rparr>\<rparr>"
  have tab: "table_ok I (todo w) (aw w)" using assms(1) by (simp add: async_inv_def)
  have h: "h < length (store (aw w))" using tab Some by (simp add: table_ok_def entry_ok_def)
  have "assoc_ok I j ?c" if ok: "assoc_ok I j ?b" for j
  proof -
    have rx: "rx_reached j (rx_of ?b)" and tx: "tx_reached I j (tx_of ?b)" and none: "tx_notifications (rx_of ?b) = []"
      using ok by (simp_all add: assoc_ok_def)
    have "rx_reached j s" using rx_reached_step [OF rx, of "RxNotify n now"] s(1) by simp
    then have "rx_reached j (s\<lparr>tx_notifications := []\<rparr>)"
      using rx_reached_step [of j s RxDrain] by (simp add: drain_tx_notifications_def)
    moreover have "list_all notification_ok (tx_notifications s)"
      using rx_notes_ok [OF rx_reached_inv [OF rx] s(1) assms(4)] none by simp
    then have "tx_reached I j (it_tx tx)"
      by (rule forward_notes_reached [OF s(2) _ tx])
    ultimately show ?thesis by (simp add: assoc_ok_def)
  qed
  then have step: "assoc_step I ?b ?c" by (simp add: assoc_step_def)
  have "table_ok I ?td (put_assoc h ?c (aw w))"
    using tab Some s(3) assms(2) by (intro table_ok_put [OF tab h step]) (auto simp: table_ok_def dest: one_entryD)
  then show ?thesis
    using assms(1,2) s(4) by (simp add: async_inv_def todo_ok_def)
qed

lemma remove_assoc_inv:
  assumes "async_inv crc I hash w" and "todo w = TodoRemove i # xs"
  shows "async_inv crc I hash (w\<lparr>aw := async_remove_assoc i (aw w), todo := xs\<rparr>)"
proof (cases "map_of (assocs (aw w)) i")
  case None
  then have same: "async_remove_assoc i (aw w) = aw w" by (simp add: async_remove_assoc_def)
  have "table_ok I (TodoRemove i # xs) (aw w)" using assms(1,2) by (simp add: async_inv_def)
  then have "table_ok I xs (aw w)" by (rule table_ok_drop) (simp add: None)
  with assms same show ?thesis by (simp add: async_inv_def)
next
  case (Some h)
  let ?b = "store (aw w) ! h"
  let ?c = "?b\<lparr>aa_rx := (aa_rx ?b)\<lparr>recv_wakers := []\<rparr>,
     aa_tx := (aa_tx ?b)\<lparr>send_wakers := [], poll_wakers := [], shutdown_wakers := []\<rparr>\<rparr>"
  let ?w = "put_assoc h ?c (aw w)"
  have tab: "table_ok I (todo w) (aw w)" using assms(1) by (simp add: async_inv_def)
  have h: "h < length (store (aw w))" using tab Some by (simp add: table_ok_def entry_ok_def)
  have "table_ok I (todo w) ?w"
    by (rule table_ok_put [OF tab h]) (simp_all add: assoc_step_def assoc_ok_def)
  then have "table_ok I (TodoRemove i # xs) (?w\<lparr>assocs := AList.delete i (assocs (aw w))\<rparr>)"
    using assms(2) table_ok_delete [of I "todo w" ?w i] by simp
  then have "table_ok I xs (?w\<lparr>assocs := AList.delete i (assocs (aw w))\<rparr>)"
    by (rule table_ok_drop) (simp add: delete_conv')
  moreover have "front_ok crc I hash (?w\<lparr>assocs := AList.delete i (assocs (aw w))\<rparr>)"
    using assms(1) by (simp add: async_inv_def front_ok_def subset_trans [OF AList.dom_delete_subset])
  moreover have "list_all (todo_ok (?w\<lparr>assocs := AList.delete i (assocs (aw w))\<rparr>)) xs"
    using assms by (simp add: async_inv_def)
  moreover have "async_remove_assoc i (aw w) =
      wake (recv_wakers (aa_rx ?b) @ send_wakers (aa_tx ?b) @ poll_wakers (aa_tx ?b) @ shutdown_wakers (aa_tx ?b))
        (?w\<lparr>assocs := AList.delete i (assocs (aw w))\<rparr>)"
    by (rule async_sctp.equality) (simp_all add: async_remove_assoc_def put_assoc_def wake_def Let_def Some)
  ultimately show ?thesis by (simp add: async_inv_def)
qed

subsection \<open>Packets\<close>

text \<open>The endpoint after a packet, before its results are taken out.\<close>

definition received :: "crc32 \<Rightarrow> 'f fake_addr_impl \<Rightarrow> 'f hasher \<Rightarrow> 'f async_sctp \<Rightarrow> bool" where
  "received crc I hash w =
     (ep_reached crc I hash (is_sctp w)
      \<and> (\<forall>a. sc_new_assoc (is_sctp w) = Some a \<longrightarrow> as_id a \<notin> fst ` set (assocs w))
      \<and> fst ` set (assocs w) \<subseteq> {..AssocId (assoc_id_gen (is_sctp w))}
      \<and> (\<forall>h \<in> set (ready_assocs w). h < length (store w))
      \<and> (new_assoc_wakers w \<noteq> [] \<longrightarrow> ready_assocs w = []))"

lemma receive_received:
  assumes "front_ok crc I hash w" and "receive_data crc I hash t v (is_sctp w) data from now = Ret s"
  shows "received crc I hash (w\<lparr>is_sctp := s\<rparr>)"
proof -
  have inv: "ep_inv (is_sctp w)" using assms(1) by (auto simp: front_ok_def intro: ep_reached_inv)
  have below: "ep_below (is_sctp w) s" using receive_data_inv [OF inv assms(2)] by simp
  have "ep_reached crc I hash s"
    using assms ep_reached_step [of crc I hash "is_sctp w" "EpReceive data from now t v"] by (simp add: front_ok_def)
  moreover have le: "{..AssocId (assoc_id_gen (is_sctp w))} \<subseteq> {..AssocId (assoc_id_gen s)}"
    using below by (simp add: ep_below_def)
  moreover have "as_id a \<notin> fst ` set (assocs w)" if "sc_new_assoc s = Some a" for a
  proof -
    have "\<not> as_id a \<le> AssocId (assoc_id_gen (is_sctp w))"
      using below assms(1) that unfolding ep_below_def front_ok_def drained_def by (metis not_le option.distinct(1))
    with assms(1) show ?thesis by (auto simp: front_ok_def)
  qed
  moreover have "fst ` set (assocs w) \<subseteq> {..AssocId (assoc_id_gen s)}"
    using assms(1) by (intro subset_trans [OF _ le]) (simp add: front_ok_def)
  ultimately show ?thesis
    using assms(1) by (simp add: received_def front_ok_def)
qed

lemma new_assoc_ok:
  assumes "brand_new a"
  shows "assoc_ok I (as_id a) \<lparr>aa_tx = \<lparr>it_tx = as_tx a, send_wakers = [], poll_wakers = [], shutdown_wakers = []\<rparr>,
    aa_rx = \<lparr>ir_rx = as_rx a, recv_wakers = []\<rparr>\<rparr>"
  using brand_new_reached [OF assms] by (simp add: assoc_ok_def)

lemma take_new_assoc_inv:
  assumes "received crc I hash w" and "table_ok I [] w"
  shows "received crc I hash (take_new_assoc w)" and "table_ok I [] (take_new_assoc w)"
    and "sc_new_assoc (is_sctp (take_new_assoc w)) = None"
proof -
  let ?s = "(is_sctp w)\<lparr>sc_new_assoc := None\<rparr>"
  have reached: "ep_reached crc I hash ?s"
    using assms(1) ep_reached_step [of crc I hash "is_sctp w" EpNewAssoc] by (simp add: received_def new_assoc_def)
  have "received crc I hash (take_new_assoc w) \<and> table_ok I [] (take_new_assoc w)
    \<and> sc_new_assoc (is_sctp (take_new_assoc w)) = None"
  proof (cases "sc_new_assoc (is_sctp w)")
    case None
    then have "take_new_assoc w = w\<lparr>is_sctp := ?s\<rparr>" by (simp add: take_new_assoc_def new_assoc_def)
    with assms reached show ?thesis by (simp add: received_def table_ok_def)
  next
    case (Some a)
    let ?h = "length (store w)"
    let ?b = "\<lparr>aa_tx = \<lparr>it_tx = as_tx a, send_wakers = [], poll_wakers = [], shutdown_wakers = []\<rparr>,
        aa_rx = \<lparr>ir_rx = as_rx a, recv_wakers = []\<rparr>\<rparr>"
    let ?w = "wake (new_assoc_wakers w) (w\<lparr>is_sctp := ?s, store := store w @ [?b],
        assocs := AList.update (as_id a) ?h (assocs w), ready_assocs := ready_assocs w @ [?h], new_assoc_wakers := []\<rparr>)"
    have w: "take_new_assoc w = ?w"
      using Some by (simp add: take_new_assoc_def new_assoc_def association_split_def Let_def)
    have inv: "ep_inv (is_sctp w)" using assms(1) by (auto simp: received_def intro: ep_reached_inv)
    then have a: "brand_new a" "as_id a \<le> AssocId (assoc_id_gen (is_sctp w))"
      using Some unfolding ep_inv_def by simp_all
    have old: "map_of (assocs w) i = Some h \<Longrightarrow> entry_ok I [] (store w) i h" for i h
      using assms(2) by (simp add: table_ok_def)
    have entries: "entry_ok I [] (store w @ [?b]) i h"
      if "map_of (AList.update (as_id a) ?h (assocs w)) i = Some h" for i h
    proof (cases "i = as_id a")
      case True
      with that have "h = ?h" by (simp add: update_conv')
      with True show ?thesis
        using new_assoc_ok [OF a(1)] brand_new_reached(4) [OF a(1)] by (simp add: entry_ok_def)
    next
      case False
      with that have "entry_ok I [] (store w) i h" by (intro old) (simp add: update_conv')
      then show ?thesis by (simp add: entry_ok_def nth_append)
    qed
    have "map_of (assocs w) j \<noteq> Some ?h" for j
      using old [of j ?h] by (auto simp: entry_ok_def)
    then have "one_entry (AList.update (as_id a) ?h (assocs w))"
      using assms(2) by (intro one_entry_update) (simp_all add: table_ok_def)
    moreover have "\<forall>b \<in> set (store w @ [?b]). \<exists>i. assoc_ok I i b"
      using assms(2) new_assoc_ok [OF a(1)] by (auto simp: table_ok_def)
    ultimately have "table_ok I [] ?w"
      using entries by (simp add: table_ok_def)
    moreover have "received crc I hash ?w"
      using assms(1) reached a(2) by (simp add: received_def dom_update less_Suc_eq)
    ultimately show ?thesis unfolding w by simp
  qed
  then show "received crc I hash (take_new_assoc w)" "table_ok I [] (take_new_assoc w)"
    "sc_new_assoc (is_sctp (take_new_assoc w)) = None" by simp_all
qed

lemma receive_inv:
  assumes "async_inv crc I hash w" and "todo w = []" and "async_apply crc I hash (AReceive data from now t v) w = Ret w'"
  shows "async_inv crc I hash w'"
proof -
  obtain s where s: "receive_data crc I hash t v (is_sctp (aw w)) data from now = Ret s"
    using assms(2,3) by (auto simp: begin_receive_def outcome)
  define a where "a = (let a = (aw w)\<lparr>is_sctp := s\<rparr>
    in if has_next_send_immediate s then wake (send_immediate_wakers a) (a\<lparr>send_immediate_wakers := []\<rparr>) else a)"
  let ?a = "take_new_assoc a"
  let ?s = "(is_sctp ?a)\<lparr>sc_tx_notifications := [], sc_rx_notifications := []\<rparr>"
  let ?td = "map (\<lambda>(i, n). TodoTx i n) (sc_tx_notifications (is_sctp ?a))
    @ map (\<lambda>(i, n). TodoRx i n) (sc_rx_notifications (is_sctp ?a))"
  have w': "w' = w\<lparr>aw := ?a\<lparr>is_sctp := ?s\<rparr>, todo := ?td\<rparr>"
    using assms(2,3) s
    by (simp add: begin_receive_def a_def take_notes_def Let_def sctp_tx_notifications_def rx_notifications_def)
  have rec: "received crc I hash a" and tab: "table_ok I [] a"
    using receive_received [OF _ s] assms(1,2)
    by (simp_all add: a_def Let_def async_inv_def received_def table_ok_def)
  note new = take_new_assoc_inv [OF rec tab]
  have reached: "ep_reached crc I hash (is_sctp ?a)" using new(1) by (simp add: received_def)
  then have "ep_reached crc I hash ((is_sctp ?a)\<lparr>sc_tx_notifications := []\<rparr>)"
    using ep_reached_step [of crc I hash "is_sctp ?a" EpTxNotes] by (simp add: sctp_tx_notifications_def)
  then have "ep_reached crc I hash ?s"
    using ep_reached_step [of crc I hash "(is_sctp ?a)\<lparr>sc_tx_notifications := []\<rparr>" EpRxNotes]
    by (simp add: rx_notifications_def)
  then have "front_ok crc I hash (?a\<lparr>is_sctp := ?s\<rparr>)"
    using new(1,3) by (simp add: front_ok_def received_def drained_def)
  moreover have "table_ok I ?td (?a\<lparr>is_sctp := ?s\<rparr>)"
    using new(2) by (auto simp: table_ok_def entry_ok_def)
  moreover have "list_all cookie_ack_note (sc_tx_notifications (is_sctp ?a))"
    using ep_reached_inv [OF reached] by (simp add: ep_inv_def)
  then have "list_all (todo_ok (?a\<lparr>is_sctp := ?s\<rparr>)) ?td"
    by (auto simp: list_all_iff todo_ok_def cookie_ack_note_def)
  ultimately show ?thesis by (simp add: w' async_inv_def)
qed

subsection \<open>All steps\<close>

lemma locked_inv:
  assumes "async_inv crc I hash w" and "locked w f = Ret w'"
    and "\<And>b. f (aw w) = Ret b \<Longrightarrow> front_ok crc I hash b \<and> store b = store (aw w) \<and> assocs b = assocs (aw w)"
  shows "async_inv crc I hash w'"
  using assms
  by (auto simp: locked_def outcome async_inv_def table_ok_def split: if_splits)

lemma todo_inv:
  assumes "async_inv crc I hash w" and "todo w = x # xs" and "do_todo now x (aw w) = Ret (a, ys)" and "now \<le> 2 ^ 60"
  shows "async_inv crc I hash (w\<lparr>aw := a, todo := ys @ xs\<rparr>)"
proof (cases x)
  case (TodoTx i n)
  with assms(3) obtain r where "deliver_tx i n (aw w) = Ret (a, r)" "ys = (if r then [TodoRemove i] else [])"
    by (auto simp: do_todo_def outcome)
  then show ?thesis using deliver_tx_inv [OF assms(1)] assms(2) TodoTx by blast
next
  case (TodoRx i n)
  with assms(3) obtain r where "deliver_rx now i n (aw w) = Ret (a, r)" "ys = (if r then [TodoRemove i] else [])"
    by (auto simp: do_todo_def outcome)
  then show ?thesis using deliver_rx_inv [OF assms(1)] assms(2,4) TodoRx by blast
next
  case (TodoRemove i)
  then show ?thesis
    using remove_assoc_inv [OF assms(1), of i xs] assms(2,3) by simp
next
  case (TodoShutdown h)
  let ?b = "store (aw w) ! h"
  let ?c = "?b\<lparr>aa_tx := async_initiate_shutdown (aa_tx ?b)\<rparr>"
  have h: "h < length (store (aw w))" using assms(1,2) TodoShutdown by (simp add: async_inv_def todo_ok_def)
  have "tx_reached I i (tx_of ?b) \<Longrightarrow> tx_reached I i (initiate_shutdown (tx_of ?b))" for i
    using tx_reached_step [of I i "tx_of ?b" OpShutdown] by simp
  then have step: "assoc_step I ?b ?c"
    by (intro tx_assoc_step) (simp add: async_initiate_shutdown_def)
  have "table_ok I (todo w) (put_assoc h ?c (aw w))"
    using assms(1) h step by (intro table_ok_put [of I "todo w"])
      (auto simp: async_inv_def async_initiate_shutdown_def initiate_shutdown_def shutdown_complete_def is_completely_shutdown_def)
  then have "table_ok I (TodoShutdown h # xs) (put_assoc h ?c (aw w))" using assms(2) TodoShutdown by simp
  then have "table_ok I xs (put_assoc h ?c (aw w))" by (rule table_ok_drop) simp
  with assms(1,2,3) TodoShutdown show ?thesis
    by (auto simp: async_inv_def do_todo_def shut_down_at_def)
qed

lemma front_polls:
  assumes "front_ok crc I hash w"
  shows "front_ok crc I hash (async_connect v t addr pport lport w)"
    and "front_ok crc I hash (fst (connect_future_poll cx w))"
    and "front_ok crc I hash (fst (accept_future_poll cx w))"
    and "front_ok crc I hash (fst (next_send_future_poll cx w))"
proof -
  let ?s = "init_association v t (is_sctp w) addr pport lport"
  have "ep_reached crc I hash ?s"
    using assms ep_reached_step [of crc I hash "is_sctp w" "EpInit addr pport lport v t"] by (simp add: front_ok_def)
  moreover have "drained ?s" "assoc_id_gen ?s = assoc_id_gen (is_sctp w)"
    using assms by (simp_all add: front_ok_def drained_def init_association_def push_immediate_def Let_def)
  ultimately show "front_ok crc I hash (async_connect v t addr pport lport w)"
    using assms by (simp add: front_ok_def async_connect_def)
  show "front_ok crc I hash (fst (connect_future_poll cx w))" "front_ok crc I hash (fst (accept_future_poll cx w))"
    using assms by (auto simp: front_ok_def connect_future_poll_def accept_future_poll_def split: list.split)
  have "ep_reached crc I hash (fst (next_send_immediate (is_sctp w)))"
    using assms ep_reached_step [of crc I hash "is_sctp w" EpSendNext] by (simp add: front_ok_def)
  then show "front_ok crc I hash (fst (next_send_future_poll cx w))"
    using assms
    by (auto simp: front_ok_def next_send_future_poll_def next_send_immediate_def drained_def split: list.splits)
qed

lemma store_polls [simp]:
  "store (async_connect v t addr pport lport w) = store w" "assocs (async_connect v t addr pport lport w) = assocs w"
  "store (fst (connect_future_poll cx w)) = store w" "assocs (fst (connect_future_poll cx w)) = assocs w"
  "store (fst (accept_future_poll cx w)) = store w" "assocs (fst (accept_future_poll cx w)) = assocs w"
  "store (fst (next_send_future_poll cx w)) = store w" "assocs (fst (next_send_future_poll cx w)) = assocs w"
  by (simp_all add: async_connect_def connect_future_poll_def accept_future_poll_def next_send_future_poll_def
      split: list.split prod.split option.split)

lemma async_front: "async_inv crc I hash w \<Longrightarrow> front_ok crc I hash (aw w)"
  by (simp add: async_inv_def)

lemma async_apply_inv:
  assumes "async_inv crc I hash w" and "async_op_ok e" and "async_apply crc I hash e w = Ret w'"
  shows "async_inv crc I hash w'"
proof (cases e)
  case (AReceive data "from" now t v)
  show ?thesis
  proof (cases "todo w = []")
    case True
    then show ?thesis using receive_inv [OF assms(1)] assms(3) AReceive by blast
  qed (use assms AReceive in simp)
next
  case (ADeliver now)
  show ?thesis
  proof (cases "todo w")
    case (Cons x xs)
    then obtain a ys where "do_todo now x (aw w) = Ret (a, ys)" "w' = w\<lparr>aw := a, todo := ys @ xs\<rparr>"
      using assms(3) ADeliver by (auto simp: outcome)
    then show ?thesis using todo_inv [OF assms(1) Cons] assms(2) ADeliver by simp
  qed (use assms ADeliver in simp)
next
  case (AConnect addr pport lport v t)
  show ?thesis
    by (rule locked_inv [OF assms(1) assms(3) [unfolded AConnect async_apply.simps]])
       (auto simp: front_polls [OF async_front [OF assms(1)]])
next
  case (AConnectPoll cx)
  show ?thesis
    by (rule locked_inv [OF assms(1) assms(3) [unfolded AConnectPoll async_apply.simps]])
       (auto simp: front_polls [OF async_front [OF assms(1)]])
next
  case (AAcceptPoll cx)
  show ?thesis
    by (rule locked_inv [OF assms(1) assms(3) [unfolded AAcceptPoll async_apply.simps]])
       (auto simp: front_polls [OF async_front [OF assms(1)]])
next
  case (ANextSend cx)
  show ?thesis
    by (rule locked_inv [OF assms(1) assms(3) [unfolded ANextSend async_apply.simps]])
       (auto simp: front_polls [OF async_front [OF assms(1)]])
next
  case AShutdownAll
  have "h < length (store (aw w))" if "(i, h) \<in> set (assocs (aw w))" for i h
  proof -
    have "map_of (assocs (aw w)) i = Some h"
      using assms(1) that by (simp add: async_inv_def table_ok_def one_entry_def)
    then show ?thesis using assms(1) by (auto simp: async_inv_def table_ok_def entry_ok_def)
  qed
  then show ?thesis
    using assms AShutdownAll
    by (auto simp: async_inv_def table_ok_def entry_ok_def todo_ok_def list_all_iff split: if_splits)
next
  case (ASend h cx f)
  show ?thesis
    by (rule on_tx_inv [OF assms(1) assms(3) [unfolded ASend async_apply.simps]])
       (use assms(2) ASend in \<open>auto simp: outcome dest!: send_future_poll_ops [where I = I] intro: single_op\<close>)
next
  case (ATimeout h t)
  show ?thesis
    by (rule on_tx_inv [OF assms(1) assms(3) [unfolded ATimeout async_apply.simps]])
       (auto simp: async_handle_timeout_def outcome intro: single_op [of "OpTimeout t"])
next
  case (AAwaitRegister h cx)
  show ?thesis
  proof (cases "(h, cx) \<in> set (registering w)")
    case True
    have "async_inv crc I hash (w\<lparr>registering := remove1 (h, cx) (registering w)\<rparr>)"
      using assms(1) by (simp add: async_inv_def)
    moreover have "on_tx (w\<lparr>registering := remove1 (h, cx) (registering w)\<rparr>) h
        (\<lambda>tx. Ret (await_shutdown_register cx tx, [])) = Ret w'"
      using assms(3) AAwaitRegister True by simp
    ultimately show ?thesis
      by (rule on_tx_inv) (auto simp: await_shutdown_register_def intro: same_tx)
  qed (use assms AAwaitRegister in simp)
next
  case (AInitShutdown h)
  show ?thesis
    by (rule on_tx_inv [OF assms(1) assms(3) [unfolded AInitShutdown async_apply.simps]])
       (auto simp: async_initiate_shutdown_def intro: single_op [of OpShutdown])
next
  case (ATryPoll h limit packed now now')
  show ?thesis
    by (rule on_tx_inv [OF assms(1) assms(3) [unfolded ATryPoll async_apply.simps]])
       (auto simp: outcome elim!: try_poll_chunk_tx dest: try_poll_any_chunk_ops)
next
  case (APoll h limit packed now now' cx)
  show ?thesis
    by (rule on_tx_inv [OF assms(1) assms(3) [unfolded APoll async_apply.simps]])
       (auto simp: outcome elim!: poll_future_poll_tx dest: try_poll_any_chunk_ops)
next
  case (ARecv h cx)
  show ?thesis
  proof (cases "h < length (store (aw w))")
    case True
    let ?a = "store (aw w) ! h"
    obtain b ws r where b: "recv_future_poll cx ?a = Ret (b, ws, r)" "w' = w\<lparr>aw := wake ws (put_assoc h b (aw w))\<rparr>"
      using assms(3) ARecv True by (auto simp: on_assoc_def outcome)
    have tab: "table_ok I (todo w) (aw w)" using assms(1) by (simp add: async_inv_def)
    obtain i where "assoc_ok I i ?a" using tab nth_mem [OF True] unfolding table_ok_def by blast
    then have "aa_tx b = aa_tx ?a" using recv_future_poll_ok(2) [OF b(1)] by (simp add: assoc_ok_def)
    then have "table_ok I (todo w) (put_assoc h b (aw w))"
      by (intro table_ok_put [OF tab True recv_future_poll_ok(1) [OF b(1)]]) auto
    with assms(1) b(2) show ?thesis by (simp add: async_inv_def)
  qed (use assms ARecv in \<open>simp add: on_assoc_def\<close>)
qed (use assms in \<open>auto simp: async_inv_def\<close>)

interpretation async_sys: invariant_system "async_apply crc I hash" async_op_ok "async_inv crc I hash" for crc I hash
  by unfold_locales (rule async_apply_inv)

end
