(* ===== verification/Async_Props.thy ===== *)
theory Async_Props
  imports Async_Inv
begin

text \<open>
  Properties of the async wrapper: it is a faithful driver of the core, it does not forget tasks
  that wait to read, to accept or to send, and the three places where it does forget to wake.
\<close>

subsection \<open>Senders that wait for room\<close>

text \<open>What becomes of one association in a step: it gets no room, or its senders have been woken.\<close>

definition no_room_lost :: "'f async_assoc \<Rightarrow> 'f async_assoc \<Rightarrow> bool" where
  "no_room_lost a b = (current_out_buffered (tx_of a) \<le> current_out_buffered (tx_of b) \<or> send_wakers (aa_tx b) = [])"

lemma forward_notes_senders: "forward_notes ns (tx, ws) = Ret (tx', ws') \<Longrightarrow> tx' = tx \<or> send_wakers tx' = []"
proof (induction ns arbitrary: tx ws)
  case (Cons n ns)
  then obtain s where "forward_notes ns (tx\<lparr>it_tx := s, poll_wakers := [], send_wakers := []\<rparr>,
      ws @ poll_wakers tx @ send_wakers tx) = Ret (tx', ws')"
    by (auto simp: outcome)
  from Cons.IH [OF this] show ?case by auto
qed simp

text \<open>A relation between an association before and after a step.\<close>

lemma on_assoc_rel:
  assumes "on_assoc w h f = Ret w'" and "k < length (store (aw w))" and "\<And>a. R a a"
    and "\<And>b ws. h = k \<Longrightarrow> f (store (aw w) ! k) = Ret (b, ws) \<Longrightarrow> R (store (aw w) ! k) b"
  shows "R (store (aw w) ! k) (store (aw w') ! k)"
proof (cases "h = k")
  case True
  with assms show ?thesis by (auto simp: on_assoc_def outcome)
next
  case False
  with assms(1) have "store (aw w') ! k = store (aw w) ! k"
    by (auto simp: on_assoc_def outcome split: if_splits)
  with assms(3) show ?thesis by simp
qed

lemma on_tx_rel:
  assumes "on_tx w h f = Ret w'" and "k < length (store (aw w))" and "\<And>a. R a a"
    and "\<And>a tx ws. f (aa_tx a) = Ret (tx, ws) \<Longrightarrow> R a (a\<lparr>aa_tx := tx\<rparr>)"
  shows "R (store (aw w) ! k) (store (aw w') ! k)"
  using assms(1-3) unfolding on_tx_def
  by (rule on_assoc_rel) (auto simp: outcome dest: assms(4))

lemma no_room_lost_refl [simp]: "no_room_lost a a"
  by (simp add: no_room_lost_def)

lemma on_tx_room:
  assumes "on_tx w h f = Ret w'" and "k < length (store (aw w))"
    and "\<And>tx tx' ws. f tx = Ret (tx', ws) \<Longrightarrow> current_out_buffered (it_tx tx) \<le> current_out_buffered (it_tx tx')"
  shows "no_room_lost (store (aw w) ! k) (store (aw w') ! k)"
  using assms(1,2)
  by (rule on_tx_rel) (auto simp: no_room_lost_def [of a "b\<lparr>aa_tx := tx\<rparr>" for a b tx] dest: assms(3))

lemma room_put: "k < length st \<Longrightarrow> no_room_lost (st ! h) b \<Longrightarrow> no_room_lost (st ! k) (st[h := b] ! k)"
  by (cases "h = k") (simp_all add: no_room_lost_def)

lemma do_todo_room:
  assumes "todo_ok w x" and "do_todo now x w = Ret (w', ys)" and "k < length (store w)"
  shows "no_room_lost (store w ! k) (store w' ! k)"
proof -
  consider (same) "store w' = store w"
    | (put) h b where "store w' = (store w)[h := b]" "no_room_lost (store w ! h) b"
  proof (cases x)
    case (TodoTx i n)
    with assms(1) have "n = TxSend CStateCookieAck" by (simp add: todo_ok_def)
    with TodoTx assms(2) that show thesis
      by (auto simp: do_todo_def deliver_tx_def Let_def outcome tx_notification_def push_send_next_def
          no_room_lost_def split: option.splits)
  next
    case (TodoRx i n)
    with assms(2) that show thesis
      by (fastforce simp: do_todo_def deliver_rx_def Let_def outcome drain_tx_notifications_def
          no_room_lost_def split: option.splits dest: forward_notes_senders)
  next
    case (TodoRemove i)
    with assms(2) that show thesis
      by (auto simp: async_remove_assoc_def Let_def no_room_lost_def put_assoc_def wake_def split: option.splits)
  next
    case (TodoShutdown h)
    with assms(2) that show thesis
      by (auto simp: do_todo_def shut_down_at_def async_initiate_shutdown_def initiate_shutdown_def no_room_lost_def)
  qed
  then show ?thesis
    by cases (use assms(3) in \<open>simp_all add: room_put\<close>)
qed

lemma take_new_assoc_store: "\<exists>bs. store (take_new_assoc w) = store w @ bs"
  by (auto simp: take_new_assoc_def Let_def wake_def split: prod.split option.split)

lemma receive_store:
  assumes "async_apply crc I hash (AReceive data from now t v) w = Ret w'"
  shows "\<exists>bs. store (aw w') = store (aw w) @ bs"
proof (cases "todo w = []")
  case True
  then obtain a where a: "begin_receive crc I hash t v now data from (aw w) = Ret a" "store (aw w') = store a"
    using assms by (auto simp: outcome take_notes_def Let_def split: prod.splits)
  then obtain b where "a = take_new_assoc b" "store b = store (aw w)"
    by (auto simp: begin_receive_def outcome Let_def)
  with a(2) show ?thesis using take_new_assoc_store [of b] by simp
qed (use assms in simp)

lemma locked_store:
  assumes "locked w f = Ret w'" and "\<And>b. f (aw w) = Ret b \<Longrightarrow> store b = store (aw w)"
  shows "store (aw w') = store (aw w)"
  using assms by (auto simp: locked_def outcome split: if_splits)

lemma async_room:
  assumes "async_inv crc I hash w" and "async_op_ok e" and "async_apply crc I hash e w = Ret w'"
    and k: "k < length (store (aw w))"
  shows "no_room_lost (store (aw w) ! k) (store (aw w') ! k)"
proof -
  have same: "no_room_lost a a" for a :: "'a async_assoc" by simp
  have locked: "no_room_lost (store (aw w) ! k) (store (aw w') ! k)"
    if "locked w f = Ret w'" "\<And>b. f (aw w) = Ret b \<Longrightarrow> store b = store (aw w)" for f
    using locked_store [OF that] same by simp
  show ?thesis
  proof (cases e)
    case (AReceive data "from" now t v)
    then obtain bs where "store (aw w') = store (aw w) @ bs"
      using receive_store assms(3) by blast
    with k same show ?thesis by (simp add: nth_append)
  next
    case (ADeliver now)
    show ?thesis
    proof (cases "todo w")
      case (Cons x xs)
      then obtain a ys where a: "do_todo now x (aw w) = Ret (a, ys)" "aw w' = a"
        using assms(3) ADeliver by (auto simp: outcome)
      have "todo_ok (aw w) x" using assms(1) Cons by (simp add: async_inv_def)
      from do_todo_room [OF this a(1) k] a(2) show ?thesis by simp
    qed (use assms ADeliver same in simp)
  next
    case (ASend h cx f)
    show ?thesis
      by (rule on_tx_room [OF assms(3) [unfolded ASend async_apply.simps] k])
         (use assms(2) ASend in \<open>auto simp: outcome dest!: send_future_poll_ops [where I = I] intro: room_by_notification\<close>)
  next
    case (ATimeout h t)
    show ?thesis
      by (rule on_tx_room [OF assms(3) [unfolded ATimeout async_apply.simps] k])
         (auto simp: async_handle_timeout_def outcome dest: handle_timeout_buffered)
  next
    case (AAwaitRegister h cx)
    show ?thesis
    proof (cases "(h, cx) \<in> set (registering w)")
      case True
      have "on_tx (w\<lparr>registering := remove1 (h, cx) (registering w)\<rparr>) h
          (\<lambda>tx. Ret (await_shutdown_register cx tx, [])) = Ret w'"
        using assms(3) AAwaitRegister True by simp
      from on_tx_room [OF this, of k] k show ?thesis by (auto simp: await_shutdown_register_def)
    qed (use assms AAwaitRegister same in simp)
  next
    case (AInitShutdown h)
    show ?thesis
      by (rule on_tx_room [OF assms(3) [unfolded AInitShutdown async_apply.simps] k])
         (auto simp: async_initiate_shutdown_def initiate_shutdown_def)
  next
    case (ATryPoll h limit packed now now')
    show ?thesis
      by (rule on_tx_room [OF assms(3) [unfolded ATryPoll async_apply.simps] k])
         (auto simp: outcome elim!: try_poll_chunk_tx dest!: try_poll_any_chunk_ops intro: room_by_run)
  next
    case (APoll h limit packed now now' cx)
    show ?thesis
      by (rule on_tx_room [OF assms(3) [unfolded APoll async_apply.simps] k])
         (auto simp: outcome elim!: poll_future_poll_tx dest!: try_poll_any_chunk_ops intro: room_by_run)
  next
    case (ARecv h cx)
    have "\<exists>i. assoc_ok I i (store (aw w) ! k)"
      using assms(1) nth_mem [OF k] unfolding async_inv_def table_ok_def by blast
    then have none: "tx_notifications (rx_of (store (aw w) ! k)) = []" by (auto simp: assoc_ok_def)
    show ?thesis
      by (rule on_assoc_rel [OF assms(3) [unfolded ARecv async_apply.simps] k same])
         (auto simp: outcome no_room_lost_def dest: recv_future_poll_ok(2) [OF _ none])
  qed (use assms(3) same in \<open>auto intro: locked split: if_splits\<close>)
qed

subsection \<open>Waiting for the end of an association that is gone\<close>

definition gone :: "handle \<Rightarrow> waker \<Rightarrow> 'f async_world \<Rightarrow> bool" where
  "gone h cx w = (h < length (store (aw w)) \<and> (\<forall>i. map_of (assocs (aw w)) i \<noteq> Some h)
     \<and> cx \<in> set (shutdown_wakers (aa_tx (store (aw w) ! h))))"

definition keeps_waiter :: "waker \<Rightarrow> 'f async_assoc \<Rightarrow> 'f async_assoc \<Rightarrow> bool" where
  "keeps_waiter cx a b = (cx \<in> set (shutdown_wakers (aa_tx a)) \<longrightarrow> cx \<in> set (shutdown_wakers (aa_tx b)))"

lemma keeps_waiter_refl [simp]: "keeps_waiter cx a a"
  by (simp add: keeps_waiter_def)

lemma gone_keeps:
  assumes "gone h cx w" and "assocs (aw w') = assocs (aw w)" and "length (store (aw w')) = length (store (aw w))"
    and "keeps_waiter cx (store (aw w) ! h) (store (aw w') ! h)"
  shows "gone h cx w'"
  using assms by (simp add: gone_def keeps_waiter_def)

lemma on_assoc_frame:
  "on_assoc w h f = Ret w' \<Longrightarrow> assocs (aw w') = assocs (aw w) \<and> length (store (aw w')) = length (store (aw w))
     \<and> is_sctp (aw w') = is_sctp (aw w) \<and> send_immediate_wakers (aw w') = send_immediate_wakers (aw w)"
  by (auto simp: on_assoc_def outcome wake_def put_assoc_def split: if_splits)

lemma on_tx_frame:
  "on_tx w h f = Ret w' \<Longrightarrow> assocs (aw w') = assocs (aw w) \<and> length (store (aw w')) = length (store (aw w))
     \<and> is_sctp (aw w') = is_sctp (aw w) \<and> send_immediate_wakers (aw w') = send_immediate_wakers (aw w)"
  unfolding on_tx_def by (rule on_assoc_frame)

lemma gone_on_tx:
  assumes "gone h cx w" and "on_tx w k f = Ret w'"
    and "\<And>tx tx' ws. f tx = Ret (tx', ws) \<Longrightarrow> set (shutdown_wakers tx) \<subseteq> set (shutdown_wakers tx')"
  shows "gone h cx w'"
proof (rule gone_keeps [OF assms(1)])
  have h: "h < length (store (aw w))" using assms(1) by (simp add: gone_def)
  show "keeps_waiter cx (store (aw w) ! h) (store (aw w') ! h)"
    using assms(2) h keeps_waiter_refl
    by (rule on_tx_rel) (auto simp: keeps_waiter_def dest: assms(3))
qed (simp_all add: on_tx_frame [OF assms(2)])

lemma send_future_keeps_waiters:
  assumes "send_future_poll cx f tx = Ret (tx', ws, g, r)"
  shows "shutdown_wakers tx' = shutdown_wakers tx"
proof -
  obtain data where data: "sf_data f = Some data"
    using assms by (auto simp: send_future_poll_def split: option.splits)
  then obtain s q where "try_send_data (it_tx tx) data (sf_stream f) (sf_ppid f) (sf_immediate f)
      (sf_unordered f) = Ret (s, q)"
    using assms by (auto simp: send_future_poll_def Let_def outcome)
  with assms data show ?thesis
    by (cases q) (auto simp: send_future_poll_def Let_def split: if_splits)
qed

lemma poll_future_keeps_waiters:
  assumes "poll_future_poll I limit packed now now' cx tx = Ret (tx', ws, r)"
  shows "shutdown_wakers tx' = shutdown_wakers tx"
proof -
  obtain s q where s: "try_poll_any_chunk I (it_tx tx) limit packed now now' = Ret (s, q)"
    using assms by (auto simp: poll_future_poll_def outcome)
  show ?thesis
  proof (cases q)
    case (PollSome c)
    with assms s show ?thesis
      by (cases c) (auto simp: poll_future_poll_def Let_def poll_map_def)
  qed (use assms s in \<open>auto simp: poll_future_poll_def Let_def poll_map_def\<close>)
qed

lemma recv_forward_waiters: "recv_forward_notes ns (tx, ws) = Ret (tx', ws') \<Longrightarrow> shutdown_wakers tx' = shutdown_wakers tx"
  by (induction ns arbitrary: tx ws) (auto simp: outcome)

lemma forward_waiters: "forward_notes ns (tx, ws) = Ret (tx', ws') \<Longrightarrow> shutdown_wakers tx' = shutdown_wakers tx"
  by (induction ns arbitrary: tx ws) (auto simp: outcome)

lemma recv_future_waiters: "recv_future_poll cx a = Ret (b, ws, r) \<Longrightarrow> shutdown_wakers (aa_tx b) = shutdown_wakers (aa_tx a)"
proof -
  assume *: "recv_future_poll cx a = Ret (b, ws, r)"
  then obtain s q where s: "poll_data (rx_of a) = Ret (s, q)"
    by (auto simp: recv_future_poll_def Let_def outcome)
  with * show ?thesis
    by (cases q) (auto simp: recv_future_poll_def Let_def outcome drain_tx_notifications_def dest: recv_forward_waiters)
qed

lemma do_todo_gone:
  assumes "gone h cx w" and "do_todo now x (aw w) = Ret (a, ys)"
  shows "gone h cx (w\<lparr>aw := a, todo := td\<rparr>)"
proof -
  have old: "h < length (store (aw w))" "\<And>i. map_of (assocs (aw w)) i \<noteq> Some h"
    "cx \<in> set (shutdown_wakers (aa_tx (store (aw w) ! h)))"
    using assms(1) by (simp_all add: gone_def)
  have "h < length (store a) \<and> (\<forall>i. map_of (assocs a) i \<noteq> Some h) \<and> cx \<in> set (shutdown_wakers (aa_tx (store a ! h)))"
    if "store a = (store (aw w))[k := b]" "map_of (assocs (aw w)) i = Some k"
      "\<And>j. map_of (assocs a) j = Some h \<Longrightarrow> map_of (assocs (aw w)) j = Some h" for k b i
  proof -
    have "k \<noteq> h" using that(2) old(2) by auto
    with that old show ?thesis by auto
  qed
  note put = this
  have "h < length (store a) \<and> (\<forall>i. map_of (assocs a) i \<noteq> Some h) \<and> cx \<in> set (shutdown_wakers (aa_tx (store a ! h)))"
  proof (cases x)
    case (TodoTx i n)
    show ?thesis
    proof (cases "map_of (assocs (aw w)) i")
      case (Some k)
      then obtain b where "store a = (store (aw w))[k := b]" "assocs a = assocs (aw w)"
        using assms(2) TodoTx by (auto simp: do_todo_def deliver_tx_def Let_def outcome)
      then show ?thesis by (intro put [OF _ Some]) auto
    qed (use assms(2) TodoTx old in \<open>auto simp: do_todo_def deliver_tx_def\<close>)
  next
    case (TodoRx i n)
    show ?thesis
    proof (cases "map_of (assocs (aw w)) i")
      case (Some k)
      then obtain b where "store a = (store (aw w))[k := b]" "assocs a = assocs (aw w)"
        using assms(2) TodoRx by (auto simp: do_todo_def deliver_rx_def Let_def outcome drain_tx_notifications_def)
      then show ?thesis by (intro put [OF _ Some]) auto
    qed (use assms(2) TodoRx old in \<open>auto simp: do_todo_def deliver_rx_def\<close>)
  next
    case (TodoRemove i)
    show ?thesis
    proof (cases "map_of (assocs (aw w)) i")
      case (Some k)
      then obtain b where "store a = (store (aw w))[k := b]" "assocs a = AList.delete i (assocs (aw w))"
        using assms(2) TodoRemove by (auto simp: async_remove_assoc_def Let_def put_assoc_def wake_def)
      then show ?thesis by (intro put [OF _ Some]) (auto simp: delete_conv' split: if_splits)
    qed (use assms(2) TodoRemove old in \<open>auto simp: async_remove_assoc_def\<close>)
  next
    case (TodoShutdown k)
    with assms(2) old show ?thesis
      by (cases "k = h") (auto simp: do_todo_def shut_down_at_def async_initiate_shutdown_def)
  qed
  then show ?thesis by (simp add: gone_def)
qed

lemma take_new_assoc_table:
  "store (take_new_assoc w) = store w \<and> assocs (take_new_assoc w) = assocs w \<or>
   (\<exists>b i. store (take_new_assoc w) = store w @ [b]
      \<and> assocs (take_new_assoc w) = AList.update i (length (store w)) (assocs w))"
  by (auto simp: take_new_assoc_def Let_def wake_def split: prod.split option.split)

lemma receive_gone:
  assumes "gone h cx w" and "async_apply crc I hash (AReceive data from now t v) w = Ret w'"
  shows "gone h cx w'"
proof (cases "todo w = []")
  case True
  then obtain a where a: "begin_receive crc I hash t v now data from (aw w) = Ret a"
    "store (aw w') = store a" "assocs (aw w') = assocs a"
    using assms(2) by (auto simp: outcome take_notes_def Let_def split: prod.splits)
  then obtain b where "a = take_new_assoc b" "store b = store (aw w)" "assocs b = assocs (aw w)"
    by (auto simp: begin_receive_def outcome Let_def)
  with a(2,3) assms(1) show ?thesis
    using take_new_assoc_table [of b] by (auto simp: gone_def nth_append update_conv' split: if_splits)
qed (use assms in simp)

lemma locked_gone:
  assumes "gone h cx w" and "locked w f = Ret w'"
    and "\<And>b. f (aw w) = Ret b \<Longrightarrow> store b = store (aw w) \<and> assocs b = assocs (aw w)"
  shows "gone h cx w'"
  using assms by (auto simp: locked_def outcome gone_def split: if_splits)

lemma async_gone:
  assumes "gone h cx w" and "async_apply crc I hash e w = Ret w'"
  shows "gone h cx w'"
proof (cases e)
  case (AReceive data "from" now t v)
  then show ?thesis using receive_gone assms by blast
next
  case (ADeliver now)
  show ?thesis
  proof (cases "todo w")
    case (Cons x xs)
    then obtain a ys where "do_todo now x (aw w) = Ret (a, ys)" "w' = w\<lparr>aw := a, todo := ys @ xs\<rparr>"
      using assms(2) ADeliver by (auto simp: outcome)
    then show ?thesis using do_todo_gone [OF assms(1)] by blast
  qed (use assms ADeliver in simp)
next
  case (ASend k c f)
  show ?thesis
    by (rule gone_on_tx [OF assms(1) assms(2) [unfolded ASend async_apply.simps]])
       (auto simp: outcome dest: send_future_keeps_waiters)
next
  case (ATimeout k t)
  show ?thesis
    by (rule gone_on_tx [OF assms(1) assms(2) [unfolded ATimeout async_apply.simps]])
       (auto simp: async_handle_timeout_def outcome)
next
  case (AAwaitRegister k c)
  show ?thesis
  proof (cases "(k, c) \<in> set (registering w)")
    case True
    have "gone h cx (w\<lparr>registering := remove1 (k, c) (registering w)\<rparr>)"
      using assms(1) by (simp add: gone_def)
    moreover have "on_tx (w\<lparr>registering := remove1 (k, c) (registering w)\<rparr>) k
        (\<lambda>tx. Ret (await_shutdown_register c tx, [])) = Ret w'"
      using assms(2) AAwaitRegister True by simp
    ultimately show ?thesis
      by (rule gone_on_tx) (auto simp: await_shutdown_register_def)
  qed (use assms AAwaitRegister in simp)
next
  case (AInitShutdown k)
  show ?thesis
    by (rule gone_on_tx [OF assms(1) assms(2) [unfolded AInitShutdown async_apply.simps]])
       (auto simp: async_initiate_shutdown_def)
next
  case (ATryPoll k limit packed now now')
  show ?thesis
    by (rule gone_on_tx [OF assms(1) assms(2) [unfolded ATryPoll async_apply.simps]])
       (auto simp: try_poll_chunk_to_send_def outcome)
next
  case (APoll k limit packed now now' c)
  show ?thesis
    by (rule gone_on_tx [OF assms(1) assms(2) [unfolded APoll async_apply.simps]])
       (auto simp: outcome dest: poll_future_keeps_waiters)
next
  case (ARecv k c)
  note step = assms(2) [unfolded ARecv async_apply.simps]
  have "h < length (store (aw w))" using assms(1) by (simp add: gone_def)
  then have "keeps_waiter cx (store (aw w) ! h) (store (aw w') ! h)"
    by (rule on_assoc_rel [where R = "keeps_waiter cx", OF step _ keeps_waiter_refl])
       (auto simp: outcome keeps_waiter_def dest: recv_future_waiters)
  then show ?thesis
    using on_assoc_frame [OF step] by (intro gone_keeps [OF assms(1)]) simp_all
next
  case AShutdownAll
  with assms show ?thesis by (auto simp: gone_def split: if_splits)
next
  case (AAwaitCheck k c)
  with assms show ?thesis by (auto simp: gone_def split: if_splits)
qed (use assms in \<open>auto elim!: locked_gone\<close>)

interpretation async_gone: invariant_system "async_apply crc I hash" "\<lambda>_. True" "gone h cx" for crc I hash h cx
  by unfold_locales (rule async_gone)

subsection \<open>A packet that nobody sends\<close>

definition unsent :: "'f outgoing \<Rightarrow> waker \<Rightarrow> 'f async_world \<Rightarrow> bool" where
  "unsent m cx w = (m \<in> set (sc_send_immediate (is_sctp (aw w))) \<and> cx \<in> set (send_immediate_wakers (aw w)))"

fun quiet :: "'f async_op \<Rightarrow> bool" where
  "quiet (AReceive _ _ _ _ _) = False"
| "quiet (ANextSend _) = False"
| "quiet _ = True"

lemma do_todo_frame:
  "do_todo now x w = Ret (a, ys) \<Longrightarrow> is_sctp a = is_sctp w \<and> send_immediate_wakers a = send_immediate_wakers w"
  by (cases x)
     (auto simp: do_todo_def deliver_tx_def deliver_rx_def async_remove_assoc_def shut_down_at_def wake_def
       put_assoc_def Let_def outcome drain_tx_notifications_def split: option.splits)

lemma unsent_on_tx: "unsent m cx w \<Longrightarrow> on_tx w h f = Ret w' \<Longrightarrow> unsent m cx w'"
  by (auto simp: unsent_def dest!: on_tx_frame)

lemma async_unsent:
  assumes "unsent m cx w" and "quiet e" and "async_apply crc I hash e w = Ret w'"
  shows "unsent m cx w'"
proof (cases e)
  case (ADeliver now)
  then show ?thesis
    using assms by (auto simp: unsent_def outcome dest: do_todo_frame split: list.splits)
next
  case (AAwaitRegister h c)
  have "unsent m cx (w\<lparr>registering := r\<rparr>)" for r using assms(1) by (simp add: unsent_def)
  then show ?thesis
    using assms AAwaitRegister by (auto split: if_splits intro: unsent_on_tx)
next
  case (ARecv h c)
  then show ?thesis
    using assms by (auto simp: unsent_def dest!: on_assoc_frame)
qed (use assms in \<open>auto simp: unsent_def locked_def async_connect_def init_association_def push_immediate_def
      connect_future_poll_def accept_future_poll_def Let_def split: if_splits list.splits
      dest!: on_tx_frame\<close>)

interpretation async_unsent: invariant_system "async_apply crc I hash" quiet "unsent m cx" for crc I hash m cx
  by unfold_locales (rule async_unsent)

subsection \<open>An example\<close>

text \<open>A server that has accepted a cookie and delivered its acknowledgement to the transmitter.\<close>

abbreviation demo_step :: "socket_addr async_op \<Rightarrow> socket_addr async_world \<Rightarrow> socket_addr async_world rust" where
  "demo_step \<equiv> async_apply (\<lambda>_. 0) fake_addr_socket (\<lambda>_. 7)"

definition demo_half :: "socket_addr association \<Rightarrow> socket_addr async_assoc" where
  "demo_half a = \<lparr>aa_tx = \<lparr>it_tx = as_tx a, send_wakers = [], poll_wakers = [], shutdown_wakers = []\<rparr>,
     aa_rx = \<lparr>ir_rx = as_rx a, recv_wakers = []\<rparr>\<rparr>"

definition demo_world :: "socket_addr sctp \<Rightarrow> socket_addr association \<Rightarrow> socket_addr async_world" where
  "demo_world s a =
     \<lparr>aw = \<lparr>is_sctp = s, assocs = [(AssocId 2, 0)], ready_assocs = [0], new_assoc_wakers = [],
        send_immediate_wakers = [], store = [demo_half (a\<lparr>as_tx := push_send_next (as_tx a) CStateCookieAck\<rparr>)], woken = []\<rparr>,
      todo = [], registering = []\<rparr>"

lemma demo_established:
  obtains data s a where
    "runR demo_step [AReceive data (IpV4 1) 0 0 0, ADeliver 0] (async_init demo_server_settings) = Ret (demo_world s a)"
    "association_new (AssocId 2) 6 1 100 (cookie_settings (sctp_new demo_server_settings) demo_cookie) 0 = Ret a"
    "sc_aliases s (alias_of (IpV4 1) demo_packet) = Some (AssocId 2)"
    "assoc_infos s (AssocId 2) = Some \<lparr>pa_local_verification_tag = 22, pa_peer_verification_tag = 11\<rparr>" "drained s"
    "sc_send_immediate s = []"
proof -
  obtain data a s where d:
    "receive_data (\<lambda>_. 0) fake_addr_socket (\<lambda>_. 7) 0 0 (sctp_new demo_server_settings) data (IpV4 1) 0 = Ret s"
    "association_new (AssocId 2) 6 1 100 (cookie_settings (sctp_new demo_server_settings) demo_cookie) 0 = Ret a"
    "sc_new_assoc s = Some a" "sc_tx_notifications s = [(AssocId 2, TxSend CStateCookieAck)]"
    "sc_rx_notifications s = []" "sc_send_immediate s = []"
    "sc_aliases s (alias_of (IpV4 1) demo_packet) = Some (AssocId 2)"
    "assoc_infos s (AssocId 2) = Some \<lparr>pa_local_verification_tag = 22, pa_peer_verification_tag = 11\<rparr>"
    by (rule demo_cookie_packet)
  have a: "as_id a = AssocId 2" "\<not> shutdown_complete (as_tx a)"
    using association_new_ids [OF d(2)] brand_new_reached(4) [OF association_new_brand_new [OF d(2)]] by simp_all
  let ?s = "s\<lparr>sc_new_assoc := None, sc_tx_notifications := [], sc_rx_notifications := []\<rparr>"
  have first: "async_apply (\<lambda>_. 0) fake_addr_socket (\<lambda>_. 7) (AReceive data (IpV4 1) 0 0 0) (async_init demo_server_settings) =
      Ret \<lparr>aw = \<lparr>is_sctp = ?s, assocs = [(AssocId 2, 0)], ready_assocs = [0], new_assoc_wakers = [],
            send_immediate_wakers = [], store = [demo_half a], woken = []\<rparr>,
          todo = [TodoTx (AssocId 2) (TxSend CStateCookieAck)], registering = []\<rparr>"
    using d a(1)
    by (simp add: async_init_def async_new_def begin_receive_def has_next_send_immediate_def take_new_assoc_def
        new_assoc_def association_split_def wake_def take_notes_def sctp_tx_notifications_def rx_notifications_def
        demo_half_def Let_def)
  have "runR demo_step [AReceive data (IpV4 1) 0 0 0, ADeliver 0] (async_init demo_server_settings) = Ret (demo_world ?s a)"
    unfolding runR.simps first bindR.simps
    using a(2)
    by (simp add: do_todo_def deliver_tx_def tx_notification_def demo_world_def demo_half_def Let_def wake_def put_assoc_def
        shutdown_complete_def push_send_next_def)
  from that [OF this d(2)] d show thesis by (simp add: drained_def)
qed

subsection \<open>Properties\<close>

lemma async_reachable:
  "list_all async_op_ok ops \<Longrightarrow> runR (async_apply crc I hash) ops (async_init st) = Ret w \<Longrightarrow> async_inv crc I hash w"
  using async_sys.run_inv async_init_inv by blast

text \<open>
  C5. The wrapper refines the core. In every state that any interleaving of tasks reaches, the endpoint
  is in a state that the operations of the endpoint reach, and every association the wrapper ever
  made consists of a transmitter and a receiver in states that their operations reach from new, for
  the same identifier; the table leads from an identifier to its own association. So what is
  shown of the core holds: the counters of each transmitter are exact, the buffer of each receiver is
  within its limit, and polling either of them does not panic.
\<close>

theorem async_refines_core:
  assumes "list_all async_op_ok ops" and "runR (async_apply crc I hash) ops (async_init st) = Ret w"
  shows "ep_reached crc I hash (is_sctp (aw w))
    \<and> (\<forall>a \<in> set (store (aw w)). (\<exists>i. tx_reached I i (tx_of a) \<and> rx_reached i (rx_of a))
        \<and> tx_assert_invariants (tx_of a) \<and> current_in_buffer (rx_of a) \<le> in_buffer_limit (rx_of a)
        \<and> (\<forall>limit packed now. returns (poll_data_to_send (tx_of a) limit packed now)) \<and> returns (poll_data (rx_of a)))
    \<and> (\<forall>i h. map_of (assocs (aw w)) i = Some h \<longrightarrow>
        tx_reached I i (tx_of (store (aw w) ! h)) \<and> rx_reached i (rx_of (store (aw w) ! h)))"
proof -
  note inv = async_reachable [OF assms]
  have core: "tx_assert_invariants (tx_of a) \<and> current_in_buffer (rx_of a) \<le> in_buffer_limit (rx_of a)
      \<and> (\<forall>limit packed now. returns (poll_data_to_send (tx_of a) limit packed now)) \<and> returns (poll_data (rx_of a))"
    if "assoc_ok I i a" for i a
    using that reached_core [of I i "tx_of a" i "rx_of a"] by (simp add: assoc_ok_def)
  have "ep_reached crc I hash (is_sctp (aw w))"
    using inv by (simp add: async_inv_def front_ok_def)
  moreover have "\<exists>i. assoc_ok I i a" if "a \<in> set (store (aw w))" for a
    using inv that unfolding async_inv_def table_ok_def by blast
  moreover have "assoc_ok I i (store (aw w) ! h)" if "map_of (assocs (aw w)) i = Some h" for i h
    using inv that unfolding async_inv_def table_ok_def entry_ok_def by blast
  ultimately show ?thesis using core unfolding assoc_ok_def by blast
qed

theorem async_refines_core_witness:
  "\<exists>ops w. runR demo_step ops (async_init demo_server_settings) = Ret w \<and> map_of (assocs (aw w)) (AssocId 2) = Some 0
     \<and> tx_reached fake_addr_socket (AssocId 2) (tx_of (store (aw w) ! 0))
     \<and> send_next (tx_of (store (aw w) ! 0)) \<noteq> []"
proof -
  obtain data s a where run: "runR demo_step [AReceive data (IpV4 1) 0 0 0, ADeliver 0] (async_init demo_server_settings) =
      Ret (demo_world s a)"
    by (rule demo_established)
  have entry: "map_of (assocs (aw (demo_world s a))) (AssocId 2) = Some 0" by (simp add: demo_world_def)
  then have "tx_reached fake_addr_socket (AssocId 2) (tx_of (store (aw (demo_world s a)) ! 0))"
    using async_refines_core [OF _ run] by simp
  moreover have "send_next (tx_of (store (aw (demo_world s a)) ! 0)) \<noteq> []"
    by (simp add: demo_world_def demo_half_def push_send_next_def)
  ultimately show ?thesis using run entry by blast
qed





text \<open>
  C29. A task that waits for packets to send is not told of an INIT. \<open>connect\<close> queues the INIT but wakes
  nobody: a task that already waits in \<open>next_send_immediate\<close> stays asleep and the INIT stays in the queue, whatever
  happens, until a packet is received or another task asks for packets to send.
\<close>

theorem connect_not_announced:
  assumes "todo w = []" and "cx \<in> set (send_immediate_wakers (aw w))" and "list_all quiet later"
    and "runR (async_apply crc I hash) (AConnect addr pport lport v t # later) w = Ret w'"
  shows "cx \<in> set (send_immediate_wakers (aw w'))
    \<and> (addr, packet_new lport pport 0, CInit (create_init_chunk (is_sctp (aw w)) v t))
        \<in> set (sc_send_immediate (is_sctp (aw w')))"
proof -
  let ?m = "(addr, packet_new lport pport 0, CInit (create_init_chunk (is_sctp (aw w)) v t))"
  obtain u where u: "async_apply crc I hash (AConnect addr pport lport v t) w = Ret u"
    "runR (async_apply crc I hash) later u = Ret w'"
    using assms(4) by (auto simp: outcome)
  have "unsent ?m cx u"
    using u(1) assms(1,2)
    by (auto simp: unsent_def locked_def async_connect_def init_association_def push_immediate_def
        create_init_chunk_def Let_def)
  from async_unsent.run_inv [OF this assms(3) u(2)] show ?thesis by (simp add: unsent_def)
qed

theorem connect_not_announced_witness:
  "\<exists>w w'. runR demo_step [ANextSend 5] (async_init demo_server_settings) = Ret w
     \<and> runR demo_step [AConnect (IpV4 1) 100 200 22 5, AConnectPoll 6] w = Ret w'
     \<and> 5 \<in> set (send_immediate_wakers (aw w')) \<and> sc_send_immediate (is_sctp (aw w')) \<noteq> [] \<and> woken (aw w') = []"
proof -
  let ?w = "(async_init demo_server_settings)\<lparr>aw := (async_new demo_server_settings)\<lparr>send_immediate_wakers := [5]\<rparr>\<rparr>
    :: socket_addr async_world"
  have w: "runR demo_step [ANextSend 5] (async_init demo_server_settings) = Ret ?w"
    by (simp add: locked_def async_init_def async_new_def sctp_new_def next_send_future_poll_def next_send_immediate_def)
  obtain w' where w': "runR demo_step [AConnect (IpV4 1) 100 200 22 5, AConnectPoll 6] ?w = Ret w'" "woken (aw w') = []"
    by (simp add: locked_def async_init_def async_new_def async_connect_def connect_future_poll_def)
  from connect_not_announced [OF _ _ _ w'(1), of 5] have
    "5 \<in> set (send_immediate_wakers (aw w'))" "sc_send_immediate (is_sctp (aw w')) \<noteq> []"
    by (auto simp: async_init_def async_new_def)
  with w w' show ?thesis by blast
qed

text \<open>
  C28. \<open>await_shutdown\<close> can wait for ever. It looks whether the shutdown is complete and registers its waker
  under two separate locks. When the association is removed in between, the waker is registered
  with an association that is in no table, and no later step of any task removes it from there: the task is
  never woken.
\<close>

theorem await_shutdown_race:
  assumes "list_all async_op_ok ops" and "runR (async_apply crc I hash) ops (async_init st) = Ret w"
    and "todo w = TodoRemove i # xs" and "map_of (assocs (aw w)) i = Some h" and "(h, cx) \<in> set (registering w)"
    and "runR (async_apply crc I hash) (ADeliver now # AAwaitRegister h cx # later) w = Ret w'"
  shows "cx \<in> set (shutdown_wakers (aa_tx (store (aw w') ! h))) \<and> (\<forall>j. map_of (assocs (aw w')) j \<noteq> Some h)"
proof -
  note inv = async_reachable [OF assms(1,2)]
  have tab: "one_entry (assocs (aw w))" "h < length (store (aw w))"
    using inv assms(4) by (auto simp: async_inv_def table_ok_def entry_ok_def)
  let ?u = "w\<lparr>aw := async_remove_assoc i (aw w), todo := xs\<rparr>"
  obtain v where v: "async_apply crc I hash (AAwaitRegister h cx) ?u = Ret v"
    "runR (async_apply crc I hash) later v = Ret w'"
    using assms(3,6) by (auto simp: outcome)
  have len: "length (store (async_remove_assoc i (aw w))) = length (store (aw w))"
    and al: "assocs (async_remove_assoc i (aw w)) = AList.delete i (assocs (aw w))"
    using assms(4) by (simp_all add: async_remove_assoc_def Let_def put_assoc_def wake_def)
  have "map_of (AList.delete i (assocs (aw w))) j \<noteq> Some h" for j
    using one_entryD [OF tab(1) assms(4), of j] by (auto simp: delete_conv')
  then have "gone h cx v"
    using v(1) assms(5) tab(2) len al
    by (auto simp: on_tx_def on_assoc_def await_shutdown_register_def gone_def)
  from async_gone.run_inv [OF this _ v(2)] show ?thesis by (simp add: gone_def list_all_iff)
qed

lemma demo_abort_received:
  assumes "sc_aliases s (alias_of (IpV4 1) demo_packet) = Some (AssocId 2)"
    and "assoc_infos s (AssocId 2) = Some \<lparr>pa_local_verification_tag = 22, pa_peer_verification_tag = 11\<rparr>"
  shows "receive_data (\<lambda>_. 0) fake_addr_socket (\<lambda>_. 7) 0 0 s (demo_header @ [6, 0, 0, 4]) (IpV4 1) 0 =
    Ret (abort_assoc s (AssocId 2) (IpV4 1) demo_packet (CAbort False []))"
proof -
  have "\<not> handshake_chunk (CAbort False [] :: socket_addr chunk)" by (simp add: handshake_chunk_def)
  then have plain: "plain (drop 12 (demo_header @ [6, 0, 0, 4]))"
    unfolding demo_drop by (rule parsed_plain [OF demo_abort])
  have parsed: "chunk_parse (drop 12 (demo_header @ [6, 0, 0, 4])) = Ret (4, Inr (CAbort False [] :: socket_addr chunk))"
    unfolding demo_drop by (rule demo_abort)
  show ?thesis
    by (rule receive_single [OF demo_packet plain assms(1,2) _ _ parsed, where again = False])
       (simp_all del: drop_append add: process_chunk_def)
qed

theorem await_shutdown_race_witness:
  "\<exists>ops w w'. runR demo_step ops (async_init demo_server_settings) = Ret w
     \<and> runR demo_step [ADeliver 0, AAwaitRegister 0 5, AAwaitCheck 0 5] w = Ret w'
     \<and> 5 \<in> set (shutdown_wakers (aa_tx (store (aw w') ! 0))) \<and> shutdown_complete (tx_of (store (aw w') ! 0))"
proof -
  obtain data s a where run: "runR demo_step [AReceive data (IpV4 1) 0 0 0, ADeliver 0] (async_init demo_server_settings) =
      Ret (demo_world s a)"
    and a: "association_new (AssocId 2) 6 1 100 (cookie_settings (sctp_new demo_server_settings) demo_cookie) 0 = Ret a"
    and s: "sc_aliases s (alias_of (IpV4 1) demo_packet) = Some (AssocId 2)"
      "assoc_infos s (AssocId 2) = Some \<lparr>pa_local_verification_tag = 22, pa_peer_verification_tag = 11\<rparr>"
      "drained s" "sc_send_immediate s = []"
    by (rule demo_established)
  have rx: "as_rx a = assoc_rx_new (AssocId 2) 6 1 100" using a by (cases a) (auto simp: association_new_def outcome)
  have tx: "tx_shutdown_state (as_tx a) = None"
    using a assoc_tx_new_open by (cases a) (auto simp: association_new_def outcome)
  let ?abort = "RxChunk (CAbort False []) :: socket_addr rx_note"
  have check: "demo_step (AAwaitCheck 0 5) (demo_world s a) = Ret ((demo_world s a)\<lparr>registering := [(0, 5)]\<rparr>)"
    using tx by (simp add: demo_world_def demo_half_def async_shutdown_complete_def shutdown_complete_def
        is_completely_shutdown_def push_send_next_def)
  obtain s' where abort: "demo_step (AReceive (demo_header @ [6, 0, 0, 4]) (IpV4 1) 0 0 0)
      ((demo_world s a)\<lparr>registering := [(0, 5)]\<rparr>) =
    Ret ((demo_world s' a)\<lparr>registering := [(0, 5)], todo := [TodoRx (AssocId 2) ?abort]\<rparr>)"
    using demo_abort_received [OF s(1,2)] s(3,4)
    by (simp add: demo_world_def begin_receive_def abort_assoc_def push_rx_def has_next_send_immediate_def
        take_new_assoc_def new_assoc_def take_notes_def sctp_tx_notifications_def rx_notifications_def drained_def Let_def)
  let ?r = "(as_rx a)\<lparr>rx_shutdown_state := Some AbortReceived\<rparr>"
  have "rx_notification (as_rx a) ?abort 0 = Ret (?r\<lparr>tx_notifications := [TxAbort]\<rparr>)"
    by (simp add: rx handle_chunk_def push_tx_def assoc_rx_new_def rx_assert_invariants_def reorder_bytes_def
        chunk_bytes_def stream_bytes_def event_bytes_def)
  then obtain w where w: "demo_step (ADeliver 0)
      ((demo_world s' a)\<lparr>registering := [(0, 5)], todo := [TodoRx (AssocId 2) ?abort]\<rparr>) = Ret w"
    "todo w = [TodoRemove (AssocId 2)]" "assocs (aw w) = [(AssocId 2, 0)]" "registering w = [(0, 5)]"
    "length (store (aw w)) = 1" "shutdown_complete (tx_of (store (aw w) ! 0))"
    by (simp add: demo_world_def demo_half_def do_todo_def deliver_rx_def drain_tx_notifications_def tx_notification_def
        wake_def put_assoc_def shutdown_complete_def is_completely_shutdown_def Let_def)
  have "runR demo_step [AAwaitCheck 0 5, AReceive (demo_header @ [6, 0, 0, 4]) (IpV4 1) 0 0 0, ADeliver 0] (demo_world s a) = Ret w"
    by (simp only: runR.simps check abort w(1) bindR.simps)
  then have run': "runR demo_step ([AReceive data (IpV4 1) 0 0 0, ADeliver 0] @ [AAwaitCheck 0 5,
      AReceive (demo_header @ [6, 0, 0, 4]) (IpV4 1) 0 0 0, ADeliver 0]) (async_init demo_server_settings) = Ret w"
    by (simp only: runR_append run bindR.simps)
  obtain w' where w': "runR demo_step [ADeliver 0, AAwaitRegister 0 5, AAwaitCheck 0 5] w = Ret w'"
    "shutdown_complete (tx_of (store (aw w') ! 0))"
    using w(2-6)
    by (simp add: async_remove_assoc_def on_tx_def on_assoc_def await_shutdown_register_def async_shutdown_complete_def
        put_assoc_def wake_def Let_def)
  have "5 \<in> set (shutdown_wakers (aa_tx (store (aw w') ! 0)))"
    using await_shutdown_race [OF _ run' w(2) _ _ w'(1)] w(3,4) by simp
  with run' w' show ?thesis by blast
qed

end
