(* ===== verification/Blocking.thy ===== *)
theory Blocking
  imports Endpoint_Props "HOL-Library.AList"
begin

text \<open>
  The blocking wrapper (\<open>src/assoc_sync/assoc.rs\<close>): the endpoint and its associations behind locks and
  condition variables, and a main loop in a thread of its own. A condition variable is the list of the
  threads that wait on it; \<open>notify_all\<close> empties it. A method that waits is written as one round of
  its loop, from taking the lock (or returning from \<open>wait\<close>) to its result or to the next \<open>wait\<close>; its
  local variables are arguments. An \<open>Arc\<close> to an association is a handle into a store. The callbacks
  that send packets are functions that say whether sending worked, and their calls are logged.
\<close>

subsection \<open>Data\<close>

type_synonym thread = nat
type_synonym bhandle = nat
type_synonym 'f send_cb = "packet \<Rightarrow> 'f chunk \<Rightarrow> bool"

text \<open>On the endpoint's condition variable wait the main loop and those who accept or connect.\<close>

datatype sleeper = MainLoop thread | Acceptor thread

record 'f blocking_tx =
  btx_wrapped :: "'f assoc_tx"
  btx_signal :: "thread list"

record 'f blocking_rx =
  brx_wrapped :: "'f assoc_rx"
  brx_signal :: "thread list"

record 'f blocking_assoc =
  ba_tx :: "'f blocking_tx"
  ba_rx :: "'f blocking_rx"

record 'f blocking_sctp =
  bs_sctp :: "'f sctp"
  bs_assocs :: "(assoc_id \<times> bhandle) list"
  bs_send_cb :: "'f transport_address \<rightharpoonup> 'f send_cb"
  bs_done :: bool
  bs_ready_assocs :: "bhandle list"
  bs_signal :: "sleeper list"
  bs_store :: "'f blocking_assoc list"  \<comment> \<open>what the handles point to\<close>
  bs_sent :: "'f outgoing list"         \<comment> \<open>the calls of the callbacks so far\<close>

text \<open>How a round of a loop ends: with the method's result, or waiting, at most for a time and then for a timer.\<close>

datatype 'a round = Return 'a | Wait | WaitTimeout duration timer

text \<open>\<open>new\<close> also starts the thread of the main loop, whose rounds are \<open>main_loop_round\<close> below.\<close>

definition blocking_new :: "settings \<Rightarrow> 'f blocking_sctp" where
  "blocking_new st =
     \<lparr> bs_sctp = sctp_new st, bs_assocs = [], bs_send_cb = Map.empty, bs_done = False,
       bs_ready_assocs = [], bs_signal = [], bs_store = [], bs_sent = [] \<rparr>"

definition register_address :: "'f transport_address \<Rightarrow> 'f send_cb \<Rightarrow> 'f blocking_sctp \<Rightarrow> 'f blocking_sctp" where
  "register_address addr cb w = w\<lparr>bs_send_cb := (bs_send_cb w)(addr \<mapsto> cb)\<rparr>"

definition bput :: "bhandle \<Rightarrow> 'f blocking_assoc \<Rightarrow> 'f blocking_sctp \<Rightarrow> 'f blocking_sctp" where
  "bput h a w = w\<lparr>bs_store := (bs_store w)[h := a]\<rparr>"

definition notify_all :: "'f blocking_sctp \<Rightarrow> 'f blocking_sctp" where
  "notify_all w = w\<lparr>bs_signal := []\<rparr>"

subsection \<open>Notifications\<close>

definition blocking_take_new_assoc :: "'f blocking_sctp \<Rightarrow> 'f blocking_sctp" where
  "blocking_take_new_assoc w =
     (case new_assoc (bs_sctp w) of
        (s, None) \<Rightarrow> w\<lparr>bs_sctp := s\<rparr>
      | (s, Some assoc) \<Rightarrow>
          let (rx, tx) = association_split assoc;
              h = length (bs_store w);
              a = \<lparr>ba_tx = \<lparr>btx_wrapped = tx, btx_signal = []\<rparr>, ba_rx = \<lparr>brx_wrapped = rx, brx_signal = []\<rparr>\<rparr>
          in w\<lparr>bs_sctp := s, bs_store := bs_store w @ [a],
               bs_assocs := AList.update (as_id assoc) h (bs_assocs w),
               bs_ready_assocs := bs_ready_assocs w @ [h]\<rparr>)"

text \<open>The loop over the packets to send; a callback that fails panics.\<close>

fun send_each :: "'f outgoing list \<Rightarrow> 'f blocking_sctp \<Rightarrow> 'f blocking_sctp rust" where
  "send_each [] w = Ret w"
| "send_each ((addr, p, c) # ms) w =
     (case bs_send_cb w addr of
        None \<Rightarrow> send_each ms w
      | Some cb \<Rightarrow>
          if cb p c then send_each ms (w\<lparr>bs_sent := bs_sent w @ [(addr, p, c)]\<rparr>) else Panic UnwrapFailed)"

definition send_all_immediate :: "'f blocking_sctp \<Rightarrow> 'f blocking_sctp rust" where
  "send_all_immediate w =
     (case send_immediate (bs_sctp w) of (s, ms) \<Rightarrow> send_each ms (w\<lparr>bs_sctp := s\<rparr>))"

definition blocking_deliver_tx :: "assoc_id \<Rightarrow> 'f tx_note \<Rightarrow> 'f blocking_sctp \<Rightarrow> 'f blocking_sctp rust" where
  "blocking_deliver_tx i n w =
     (case map_of (bs_assocs w) i of
        None \<Rightarrow> Ret w
      | Some h \<Rightarrow>
          let a = bs_store w ! h
          in bindR (tx_notification (btx_wrapped (ba_tx a)) n) (\<lambda>s.
               Ret (bput h (a\<lparr>ba_tx := \<lparr>btx_wrapped = s, btx_signal = []\<rparr>\<rparr>) w)))"

fun blocking_forward_notes :: "'f tx_note list \<Rightarrow> 'f blocking_tx \<Rightarrow> 'f blocking_tx rust" where
  "blocking_forward_notes [] tx = Ret tx"
| "blocking_forward_notes (n # ns) tx =
     bindR (tx_notification (btx_wrapped tx) n) (\<lambda>s.
       blocking_forward_notes ns \<lparr>btx_wrapped = s, btx_signal = []\<rparr>)"

definition blocking_deliver_rx :: "instant \<Rightarrow> assoc_id \<Rightarrow> 'f rx_note \<Rightarrow> 'f blocking_sctp \<Rightarrow> 'f blocking_sctp rust" where
  "blocking_deliver_rx now i n w =
     (case map_of (bs_assocs w) i of
        None \<Rightarrow> Ret w
      | Some h \<Rightarrow>
          let a = bs_store w ! h
          in bindR (rx_notification (brx_wrapped (ba_rx a)) n now) (\<lambda>r.
               let (r, ns) = drain_tx_notifications r
               in bindR (blocking_forward_notes ns (ba_tx a)) (\<lambda>tx.
                    Ret (bput h \<lparr>ba_tx = tx, ba_rx = \<lparr>brx_wrapped = r, brx_signal = []\<rparr>\<rparr> w))))"

definition blocking_handle_notifications :: "(nat \<Rightarrow> instant) \<Rightarrow> 'f blocking_sctp \<Rightarrow> 'f blocking_sctp rust" where
  "blocking_handle_notifications clock w =
     bindR (send_all_immediate (blocking_take_new_assoc w)) (\<lambda>w.
       let (s, tx_notes) = sctp_tx_notifications (bs_sctp w);
           w = w\<lparr>bs_sctp := s\<rparr>
       in bindR (runR (\<lambda>(i, n). blocking_deliver_tx i n) tx_notes w) (\<lambda>w.
            let (s, rx_notes) = rx_notifications (bs_sctp w);
                w = w\<lparr>bs_sctp := s\<rparr>
            in runR (\<lambda>(k, i, n). blocking_deliver_rx (clock k) i n) (enumerate 0 rx_notes) w))"

subsection \<open>Methods of the endpoint\<close>

text \<open>\<open>receive_data\<close> notifies after it has given the lock back.\<close>

definition blocking_receive_data ::
  "crc32 \<Rightarrow> 'f fake_addr_impl \<Rightarrow> 'f hasher \<Rightarrow> u32 \<Rightarrow> u32 \<Rightarrow> instant \<Rightarrow> (nat \<Rightarrow> instant) \<Rightarrow> bytes
   \<Rightarrow> 'f transport_address \<Rightarrow> 'f blocking_sctp \<Rightarrow> 'f blocking_sctp rust" where
  "blocking_receive_data crc I hash fresh_tsn fresh_tag now clock data from w =
     bindR (receive_data crc I hash fresh_tsn fresh_tag (bs_sctp w) data from now) (\<lambda>s.
     bindR (blocking_handle_notifications clock (w\<lparr>bs_sctp := s\<rparr>)) (\<lambda>w. Ret (notify_all w)))"

text \<open>The loop of \<open>accept\<close>, in which \<open>connect\<close> ends too.\<close>

definition accept_round :: "thread \<Rightarrow> 'f blocking_sctp \<Rightarrow> 'f blocking_sctp \<times> bhandle round" where
  "accept_round th w =
     (case bs_ready_assocs w of
        h # hs \<Rightarrow> (w\<lparr>bs_ready_assocs := hs\<rparr>, Return h)
      | [] \<Rightarrow> (w\<lparr>bs_signal := Acceptor th # bs_signal w\<rparr>, Wait))"

definition blocking_connect ::
  "u32 \<Rightarrow> u32 \<Rightarrow> 'f transport_address \<Rightarrow> u16 \<Rightarrow> u16 \<Rightarrow> thread \<Rightarrow> 'f blocking_sctp \<Rightarrow> 'f blocking_sctp \<times> bhandle round" where
  "blocking_connect local_verification_tag initial_tsn addr pport lport th w =
     accept_round th (notify_all
       (w\<lparr>bs_sctp := init_association local_verification_tag initial_tsn (bs_sctp w) addr pport lport\<rparr>))"

definition kill :: "'f blocking_sctp \<Rightarrow> 'f blocking_sctp" where
  "kill w = notify_all (w\<lparr>bs_done := True\<rparr>)"

definition main_loop_round :: "(nat \<Rightarrow> instant) \<Rightarrow> thread \<Rightarrow> 'f blocking_sctp \<Rightarrow> ('f blocking_sctp \<times> unit round) rust" where
  "main_loop_round clock th w =
     (if bs_done w then Ret (w, Return ())
      else bindR (blocking_handle_notifications clock w) (\<lambda>w.
             Ret (w\<lparr>bs_signal := MainLoop th # bs_signal w\<rparr>, Wait)))"

subsection \<open>Methods of an association\<close>

definition send_data_round ::
  "thread \<Rightarrow> bytes \<Rightarrow> u16 \<Rightarrow> u32 \<Rightarrow> bool \<Rightarrow> bool \<Rightarrow> 'f blocking_tx
   \<Rightarrow> ('f blocking_tx \<times> (send_error + unit) round) rust" where
  "send_data_round th data stream ppid immediate unordered tx =
     bindR (try_send_data (btx_wrapped tx) data stream ppid immediate unordered) (\<lambda>(s, r).
       let tx = tx\<lparr>btx_wrapped := s\<rparr>
       in case r of
            Inr _ \<Rightarrow> Ret (tx\<lparr>btx_signal := []\<rparr>, Return r)
          | Inl err \<Rightarrow>
              if se_kind err = BufferFull
              then Ret (tx\<lparr>btx_signal := th # btx_signal tx\<rparr>, Wait)
              else Ret (tx, Return r))"

text \<open>
  The difference of two instants is zero when the second is later. The clock is read for the signal, for
  the data and for the time to wait.
\<close>

definition poll_chunk_round ::
  "'f fake_addr_impl \<Rightarrow> thread \<Rightarrow> instant \<Rightarrow> instant \<Rightarrow> instant \<Rightarrow> 'f blocking_tx
   \<Rightarrow> ('f blocking_tx \<times> (packet \<times> 'f chunk) round) rust" where
  "poll_chunk_round I th now now' now'' tx =
     bindR (poll_signal_to_send I (btx_wrapped tx) 1024 0 now) (\<lambda>x.
     bindR (poll_or_else x (\<lambda>s.
              bindR (poll_data_to_send s 1024 0 now') (\<lambda>(s, r). Ret (s, poll_map CData r)))) (\<lambda>(s, r).
       let tx = tx\<lparr>btx_wrapped := s\<rparr>
       in case r of
            PollSome chunk \<Rightarrow> Ret (tx, Return (packet_header s, chunk))
          | PollClosed \<Rightarrow> Panic PanicMessage
          | PollNone \<Rightarrow>
              (case next_timeout s of
                 Some timeout \<Rightarrow>
                   Ret (tx\<lparr>btx_signal := th # btx_signal tx\<rparr>, WaitTimeout (now'' - tm_at timeout) timeout)
               | None \<Rightarrow> Ret (tx\<lparr>btx_signal := th # btx_signal tx\<rparr>, Wait))))"

text \<open>What a thread does whose wait has timed out, before its next round.\<close>

definition poll_timed_out :: "timer \<Rightarrow> 'f blocking_tx \<Rightarrow> 'f blocking_tx rust" where
  "poll_timed_out timeout tx =
     bindR (handle_timeout (btx_wrapped tx) timeout) (\<lambda>s. Ret (tx\<lparr>btx_wrapped := s\<rparr>))"

definition recv_data_round ::
  "thread \<Rightarrow> 'f blocking_rx \<Rightarrow> ('f blocking_rx \<times> (poll_data_error + stream_receive_event) round) rust" where
  "recv_data_round th rx =
     bindR (poll_data (brx_wrapped rx)) (\<lambda>(s, r).
       let rx = rx\<lparr>brx_wrapped := s\<rparr>
       in case r of
            NoneAvailable \<Rightarrow> Ret (rx\<lparr>brx_signal := th # brx_signal rx\<rparr>, Wait)
          | PollData data \<Rightarrow> Ret (rx, Return (Inr data))
          | PollError err \<Rightarrow> Ret (rx, Return (Inl err)))"

end
