(* ===== verification/Blocking_Steps.thy ===== *)
theory Blocking_Steps
  imports Blocking
begin

text \<open>
  The runs of the blocking wrapper, in any interleaving of threads. The steps are the
  pieces of the methods between two lock operations. While \<open>btodo\<close> is not empty, a thread in
  \<open>handle_notifications\<close> holds the lock of the endpoint; \<open>notifies\<close> counts the threads that
  have given it back and are about to call \<open>notify_all\<close>. A thread that wakes up for no reason stays
  listed as waiting, so the lists contain at least the threads that wait. Without interleaving, the
  steps of \<open>receive_data\<close> and of a round of the main loop are these methods.
\<close>

subsection \<open>Steps\<close>

datatype 'f btodo =
    BTodoTx assoc_id "'f tx_note"
  | BTodoRx assoc_id "'f rx_note"
  | BTodoWait thread   \<comment> \<open>the main loop goes to sleep\<close>
  | BTodoRelease       \<comment> \<open>\<open>receive_data\<close> gives the lock back\<close>

record 'f blocking_world =
  bw :: "'f blocking_sctp"
  btodo :: "'f btodo list"
  notifies :: nat

definition blocking_init :: "settings \<Rightarrow> 'f blocking_world" where
  "blocking_init st = \<lparr>bw = blocking_new st, btodo = [], notifies = 0\<rparr>"

datatype 'f blocking_op =
    BReceive bytes "'f transport_address" instant u32 u32
  | BDeliver instant
  | BNotify
  | BRegister "'f transport_address" "'f send_cb"
  | BConnect "'f transport_address" u16 u16 u32 u32 thread
  | BAccept thread
  | BKill
  | BMain thread
  | BSend bhandle thread bytes u16 u32 bool bool
  | BPoll bhandle thread instant instant instant
  | BTimedOut bhandle timer
  | BRecv bhandle thread

text \<open>\<open>handle_notifications\<close> up to its loops over notifications.\<close>

definition begin_handle :: "'f blocking_sctp \<Rightarrow> ('f blocking_sctp \<times> 'f btodo list) rust" where
  "begin_handle w =
     bindR (send_all_immediate (blocking_take_new_assoc w)) (\<lambda>w.
       let (s, tx_notes) = sctp_tx_notifications (bs_sctp w);
           (s, rx_notes) = rx_notifications s
       in Ret (w\<lparr>bs_sctp := s\<rparr>, map (\<lambda>(i, n). BTodoTx i n) tx_notes @ map (\<lambda>(i, n). BTodoRx i n) rx_notes))"

definition blocking_locked :: "'f blocking_world \<Rightarrow> ('f blocking_sctp \<Rightarrow> 'f blocking_sctp) \<Rightarrow> 'f blocking_world rust" where
  "blocking_locked w f = Ret (if btodo w = [] then w\<lparr>bw := f (bw w)\<rparr> else w)"

definition on_blocking_assoc ::
  "'f blocking_world \<Rightarrow> bhandle \<Rightarrow> ('f blocking_assoc \<Rightarrow> 'f blocking_assoc rust) \<Rightarrow> 'f blocking_world rust" where
  "on_blocking_assoc w h f =
     (if h < length (bs_store (bw w))
      then bindR (f (bs_store (bw w) ! h)) (\<lambda>a. Ret (w\<lparr>bw := bput h a (bw w)\<rparr>)) else Ret w)"

definition on_blocking_tx ::
  "'f blocking_world \<Rightarrow> bhandle \<Rightarrow> ('f blocking_tx \<Rightarrow> ('f blocking_tx \<times> 'r) rust) \<Rightarrow> 'f blocking_world rust" where
  "on_blocking_tx w h f = on_blocking_assoc w h (\<lambda>a. bindR (f (ba_tx a)) (\<lambda>(tx, _). Ret (a\<lparr>ba_tx := tx\<rparr>)))"

definition do_btodo :: "instant \<Rightarrow> 'f btodo \<Rightarrow> 'f blocking_world \<Rightarrow> 'f blocking_world rust" where
  "do_btodo now x w =
     (case x of
        BTodoTx i n \<Rightarrow> bindR (blocking_deliver_tx i n (bw w)) (\<lambda>a. Ret (w\<lparr>bw := a\<rparr>))
      | BTodoRx i n \<Rightarrow> bindR (blocking_deliver_rx now i n (bw w)) (\<lambda>a. Ret (w\<lparr>bw := a\<rparr>))
      | BTodoWait th \<Rightarrow> Ret (w\<lparr>bw := (bw w)\<lparr>bs_signal := MainLoop th # bs_signal (bw w)\<rparr>\<rparr>)
      | BTodoRelease \<Rightarrow> Ret (w\<lparr>notifies := notifies w + 1\<rparr>))"

fun blocking_apply ::
  "crc32 \<Rightarrow> 'f fake_addr_impl \<Rightarrow> 'f hasher \<Rightarrow> 'f blocking_op \<Rightarrow> 'f blocking_world \<Rightarrow> 'f blocking_world rust" where
  "blocking_apply crc I hash (BReceive data from now t v) w =
     (if btodo w = [] then
        bindR (receive_data crc I hash t v (bs_sctp (bw w)) data from now) (\<lambda>s.
        bindR (begin_handle ((bw w)\<lparr>bs_sctp := s\<rparr>)) (\<lambda>(a, td). Ret (w\<lparr>bw := a, btodo := td @ [BTodoRelease]\<rparr>)))
      else Ret w)"
| "blocking_apply crc I hash (BDeliver now) w =
     (case btodo w of [] \<Rightarrow> Ret w | x # xs \<Rightarrow> do_btodo now x (w\<lparr>btodo := xs\<rparr>))"
| "blocking_apply crc I hash BNotify w =
     Ret (if notifies w = 0 then w else w\<lparr>bw := notify_all (bw w), notifies := notifies w - 1\<rparr>)"
| "blocking_apply crc I hash (BRegister addr cb) w = blocking_locked w (register_address addr cb)"
| "blocking_apply crc I hash (BConnect addr pport lport v t th) w =
     blocking_locked w (\<lambda>a. fst (blocking_connect v t addr pport lport th a))"
| "blocking_apply crc I hash (BAccept th) w = blocking_locked w (\<lambda>a. fst (accept_round th a))"
| "blocking_apply crc I hash BKill w =
     Ret (if btodo w = [] then w\<lparr>bw := (bw w)\<lparr>bs_done := True\<rparr>, notifies := notifies w + 1\<rparr> else w)"
| "blocking_apply crc I hash (BMain th) w =
     (if btodo w = [] \<and> \<not> bs_done (bw w) then
        bindR (begin_handle (bw w)) (\<lambda>(a, td). Ret (w\<lparr>bw := a, btodo := td @ [BTodoWait th]\<rparr>))
      else Ret w)"
| "blocking_apply crc I hash (BSend h th data stream ppid im un) w =
     on_blocking_tx w h (send_data_round th data stream ppid im un)"
| "blocking_apply crc I hash (BPoll h th now now' now'') w = on_blocking_tx w h (poll_chunk_round I th now now' now'')"
| "blocking_apply crc I hash (BTimedOut h t) w =
     on_blocking_tx w h (\<lambda>tx. bindR (poll_timed_out t tx) (\<lambda>tx. Ret (tx, ())))"
| "blocking_apply crc I hash (BRecv h th) w =
     on_blocking_assoc w h (\<lambda>a. bindR (recv_data_round th (ba_rx a)) (\<lambda>(rx, _). Ret (a\<lparr>ba_rx := rx\<rparr>)))"

fun blocking_op_ok :: "'f blocking_op \<Rightarrow> bool" where
  "blocking_op_ok (BDeliver now) = (now \<le> 2 ^ 60)"
| "blocking_op_ok (BSend h th data stream ppid im un) = (data \<noteq> [])"
| "blocking_op_ok _ = True"

subsection \<open>The steps of a method are the method\<close>

lemma bput_sctp: "bput h a (w\<lparr>bs_sctp := s\<rparr>) = (bput h a w)\<lparr>bs_sctp := s\<rparr>" "bs_sctp (bput h a w) = bs_sctp w"
  by (simp_all add: bput_def)

lemma blocking_deliver_tx_sctp:
  "blocking_deliver_tx i n (w\<lparr>bs_sctp := s\<rparr>) = bindR (blocking_deliver_tx i n w) (\<lambda>w. Ret (w\<lparr>bs_sctp := s\<rparr>))"
  "blocking_deliver_tx i n w = Ret w' \<Longrightarrow> bs_sctp w' = bs_sctp w"
  by (auto simp: blocking_deliver_tx_def Let_def bindR_assoc outcome bput_sctp split: option.splits)

abbreviation tx_notes_loop :: "(assoc_id \<times> 'f tx_note) list \<Rightarrow> 'f blocking_sctp \<Rightarrow> 'f blocking_sctp rust" where
  "tx_notes_loop \<equiv> runR (\<lambda>(i, n). blocking_deliver_tx i n)"

abbreviation rx_notes_loop ::
  "(nat \<Rightarrow> instant) \<Rightarrow> (nat \<times> assoc_id \<times> 'f rx_note) list \<Rightarrow> 'f blocking_sctp \<Rightarrow> 'f blocking_sctp rust" where
  "rx_notes_loop clock \<equiv> runR (\<lambda>(k, i, n). blocking_deliver_rx (clock k) i n)"

lemma tx_notes_loop_sctp:
  "tx_notes_loop xs (w\<lparr>bs_sctp := s\<rparr>) = bindR (tx_notes_loop xs w) (\<lambda>w. Ret (w\<lparr>bs_sctp := s\<rparr>))"
  "tx_notes_loop xs w = Ret w' \<Longrightarrow> bs_sctp w' = bs_sctp w"
proof (induction xs arbitrary: w)
  case (Cons x xs)
  obtain i n where x: "x = (i, n)" by (cases x)
  {
    case 1
    show ?case by (cases "blocking_deliver_tx i n w") (simp_all add: x blocking_deliver_tx_sctp(1) Cons.IH(1))
  next
    case 2
    then obtain u where "blocking_deliver_tx i n w = Ret u" "tx_notes_loop xs u = Ret w'"
      by (auto simp: x outcome)
    then show ?case using Cons.IH(2) blocking_deliver_tx_sctp(2) by metis
  }
qed simp_all

lemma bw_first: "w\<lparr>btodo := td, bw := a\<rparr> = w\<lparr>bw := a, btodo := td\<rparr>"
  by simp

lemma tx_notes_in_steps:
  "runR (blocking_apply crc I hash) (map (\<lambda>_. BDeliver 0) xs) (w\<lparr>bw := a, btodo := map (\<lambda>(i, n). BTodoTx i n) xs @ ys\<rparr>) =
   bindR (tx_notes_loop xs a) (\<lambda>a. Ret (w\<lparr>bw := a, btodo := ys\<rparr>))"
proof (induction xs arbitrary: a)
  case (Cons x xs)
  obtain i n where x: "x = (i, n)" by (cases x)
  show ?case
    by (cases "blocking_deliver_tx i n a") (simp_all add: x do_btodo_def bw_first Cons.IH)
qed simp

lemma rx_notes_in_steps:
  "runR (blocking_apply crc I hash) (map (\<lambda>(k, _). BDeliver (clock k)) xs)
     (w\<lparr>bw := a, btodo := map (\<lambda>(k, i, n). BTodoRx i n) xs @ ys\<rparr>) =
   bindR (rx_notes_loop clock xs a) (\<lambda>a. Ret (w\<lparr>bw := a, btodo := ys\<rparr>))"
proof (induction xs arbitrary: a)
  case (Cons x xs)
  obtain k i n where x: "x = (k, i, n)" by (cases x)
  show ?case
    by (cases "blocking_deliver_rx (clock k) i n a") (simp_all add: x do_btodo_def bw_first Cons.IH)
qed simp

text \<open>\<open>handle_notifications\<close>, step by step: what it takes out of the endpoint first, then its two loops.\<close>

lemma handle_in_steps:
  "\<exists>ds. list_all (\<lambda>d. \<exists>now. d = BDeliver now) ds \<and>
     bindR (begin_handle a) (\<lambda>(b, td). runR (blocking_apply crc I hash) ds (w\<lparr>bw := b, btodo := td @ ys\<rparr>)) =
     bindR (blocking_handle_notifications clock a) (\<lambda>b. Ret (w\<lparr>bw := b, btodo := ys\<rparr>))"
proof (cases "send_all_immediate (blocking_take_new_assoc a)")
  case (Panic p)
  then show ?thesis
    by (intro exI [of _ "[]"]) (simp add: begin_handle_def blocking_handle_notifications_def)
next
  case (Ret u)
  let ?s = "bs_sctp u"
  let ?tx = "sc_tx_notifications ?s" and ?rx = "sc_rx_notifications ?s"
  let ?v = "u\<lparr>bs_sctp := ?s\<lparr>sc_tx_notifications := [], sc_rx_notifications := []\<rparr>\<rparr>"
  let ?ds = "map (\<lambda>_. BDeliver 0) ?tx @ map (\<lambda>(k, _). BDeliver (clock k)) (enumerate 0 ?rx)"
  have todo: "map (\<lambda>(i, n). BTodoRx i n) ?rx = map (\<lambda>(k, i, n). BTodoRx i n) (enumerate 0 ?rx)"
    by (rule nth_equalityI) (simp_all add: nth_enumerate_eq case_prod_beta)
  have "runR (blocking_apply crc I hash) ?ds
      (w\<lparr>bw := ?v, btodo := map (\<lambda>(i, n). BTodoTx i n) ?tx @ map (\<lambda>(k, i, n). BTodoRx i n) (enumerate 0 ?rx) @ ys\<rparr>) =
    bindR (bindR (tx_notes_loop ?tx ?v) (rx_notes_loop clock (enumerate 0 ?rx))) (\<lambda>b. Ret (w\<lparr>bw := b, btodo := ys\<rparr>))"
    unfolding runR_append tx_notes_in_steps bindR_assoc bindR.simps rx_notes_in_steps ..
  moreover have "begin_handle a = Ret (?v, map (\<lambda>(i, n). BTodoTx i n) ?tx @ map (\<lambda>(i, n). BTodoRx i n) ?rx)"
    using Ret by (simp add: begin_handle_def sctp_tx_notifications_def rx_notifications_def)
  moreover have "blocking_handle_notifications clock a = bindR (tx_notes_loop ?tx ?v) (rx_notes_loop clock (enumerate 0 ?rx))"
    using Ret tx_notes_loop_sctp(2) [of ?tx u]
    by (cases "tx_notes_loop ?tx u")
       (simp_all add: blocking_handle_notifications_def sctp_tx_notifications_def rx_notifications_def tx_notes_loop_sctp(1) Let_def)
  ultimately show ?thesis
    unfolding todo by (intro exI [of _ ?ds]) (auto simp: list_all_iff)
qed

lemma blocking_receive_in_steps:
  assumes "btodo w = []" and "notifies w = 0"
  shows "\<exists>ds. list_all (\<lambda>d. \<exists>now. d = BDeliver now) ds \<and>
    runR (blocking_apply crc I hash) (BReceive data from now t v # ds @ [BDeliver 0, BNotify]) w =
    bindR (blocking_receive_data crc I hash t v now clock data from (bw w)) (\<lambda>a. Ret (w\<lparr>bw := a\<rparr>))"
proof (cases "receive_data crc I hash t v (bs_sctp (bw w)) data from now")
  case (Panic p)
  with assms show ?thesis by (intro exI [of _ "[]"]) (simp add: blocking_receive_data_def)
next
  case (Ret s)
  let ?a = "(bw w)\<lparr>bs_sctp := s\<rparr>"
  obtain ds where ds: "list_all (\<lambda>d. \<exists>now. d = BDeliver now) ds"
    and steps: "bindR (begin_handle ?a) (\<lambda>(b, td). runR (blocking_apply crc I hash) ds (w\<lparr>bw := b, btodo := td @ [BTodoRelease]\<rparr>)) =
      bindR (blocking_handle_notifications clock ?a) (\<lambda>b. Ret (w\<lparr>bw := b, btodo := [BTodoRelease]\<rparr>))"
    using handle_in_steps by blast
  have "runR (blocking_apply crc I hash) (BReceive data from now t v # ds @ [BDeliver 0, BNotify]) w =
      bindR (bindR (begin_handle ?a) (\<lambda>(b, td). runR (blocking_apply crc I hash) ds (w\<lparr>bw := b, btodo := td @ [BTodoRelease]\<rparr>)))
        (runR (blocking_apply crc I hash) [BDeliver 0, BNotify])"
    using assms Ret by (simp del: runR.simps(2) add: runR.simps(2) [of _ "BReceive data from now t v"] runR_append bindR_assoc case_prod_beta)
  also have "\<dots> = bindR (blocking_receive_data crc I hash t v now clock data from (bw w)) (\<lambda>a. Ret (w\<lparr>bw := a\<rparr>))"
    unfolding steps using assms Ret
    by (cases "blocking_handle_notifications clock ?a") (simp_all add: blocking_receive_data_def do_btodo_def)
  finally show ?thesis using ds by blast
qed

lemma main_loop_in_steps:
  assumes "btodo w = []" and "\<not> bs_done (bw w)"
  shows "\<exists>ds. list_all (\<lambda>d. \<exists>now. d = BDeliver now) ds \<and>
    runR (blocking_apply crc I hash) (BMain th # ds @ [BDeliver 0]) w =
    bindR (main_loop_round clock th (bw w)) (\<lambda>(a, r). Ret (w\<lparr>bw := a\<rparr>))"
proof -
  obtain ds where ds: "list_all (\<lambda>d. \<exists>now. d = BDeliver now) ds"
    and steps: "bindR (begin_handle (bw w)) (\<lambda>(b, td). runR (blocking_apply crc I hash) ds (w\<lparr>bw := b, btodo := td @ [BTodoWait th]\<rparr>)) =
      bindR (blocking_handle_notifications clock (bw w)) (\<lambda>b. Ret (w\<lparr>bw := b, btodo := [BTodoWait th]\<rparr>))"
    using handle_in_steps by blast
  have "runR (blocking_apply crc I hash) (BMain th # ds @ [BDeliver 0]) w =
      bindR (bindR (begin_handle (bw w)) (\<lambda>(b, td). runR (blocking_apply crc I hash) ds (w\<lparr>bw := b, btodo := td @ [BTodoWait th]\<rparr>)))
        (runR (blocking_apply crc I hash) [BDeliver 0])"
    using assms by (simp del: runR.simps(2) add: runR.simps(2) [of _ "BMain th"] runR_append bindR_assoc case_prod_beta)
  also have "\<dots> = bindR (main_loop_round clock th (bw w)) (\<lambda>(a, r). Ret (w\<lparr>bw := a\<rparr>))"
    unfolding steps using assms
    by (cases "blocking_handle_notifications clock (bw w)") (simp_all add: main_loop_round_def do_btodo_def)
  finally show ?thesis using ds by blast
qed

lemma kill_in_steps:
  "btodo w = [] \<Longrightarrow> notifies w = 0 \<Longrightarrow>
   runR (blocking_apply crc I hash) [BKill, BNotify] w = Ret (w\<lparr>bw := kill (bw w)\<rparr>)"
  by (simp add: kill_def)

end
