(* ===== verification/Blocking_Inv.thy ===== *)
theory Blocking_Inv
  imports Blocking_Steps Reached
begin

text \<open>
  The invariant of the blocking wrapper: it drives the endpoint, the transmitters and the receivers
  only through their own operations, the table leads to the right associations, and the threads that
  sleep on the condition variables have nothing to do, or somebody is about to wake them.
\<close>

subsection \<open>The invariant\<close>

abbreviation btx_of :: "'f blocking_assoc \<Rightarrow> 'f assoc_tx" where
  "btx_of a \<equiv> btx_wrapped (ba_tx a)"

abbreviation brx_of :: "'f blocking_assoc \<Rightarrow> 'f assoc_rx" where
  "brx_of a \<equiv> brx_wrapped (ba_rx a)"

definition bassoc_ok :: "'f fake_addr_impl \<Rightarrow> assoc_id \<Rightarrow> 'f blocking_assoc \<Rightarrow> bool" where
  "bassoc_ok I i a = (tx_reached I i (btx_of a) \<and> rx_reached i (brx_of a) \<and> tx_notifications (brx_of a) = []
     \<and> (brx_signal (ba_rx a) \<noteq> [] \<longrightarrow> poll_data (brx_of a) = Ret (brx_of a, NoneAvailable)))"

definition wired :: "'f fake_addr_impl \<Rightarrow> (assoc_id \<times> bhandle) list \<Rightarrow> 'f blocking_assoc list \<Rightarrow> bool" where
  "wired I al st = ((\<forall>a \<in> set st. \<exists>i. bassoc_ok I i a)
     \<and> (\<forall>i h. map_of al i = Some h \<longrightarrow> h < length st \<and> bassoc_ok I i (st ! h)))"

text \<open>The endpoint is in a state that it reaches, and between two packets nothing is left to pass on.\<close>

definition bfront_ok :: "crc32 \<Rightarrow> 'f fake_addr_impl \<Rightarrow> 'f hasher \<Rightarrow> 'f blocking_sctp \<Rightarrow> bool" where
  "bfront_ok crc I hash w = (ep_reached crc I hash (bs_sctp w)
     \<and> sc_new_assoc (bs_sctp w) = None \<and> sc_tx_notifications (bs_sctp w) = [] \<and> sc_rx_notifications (bs_sctp w) = []
     \<and> (\<forall>h \<in> set (bs_ready_assocs w). h < length (bs_store w)))"

text \<open>
  Who sleeps on the endpoint's condition variable: those who accept, only while no association is
  ready; the main loop, only while nothing is to be sent and nobody has killed it; unless a thread is about
  to notify.
\<close>

definition accepted_ok :: "'f blocking_world \<Rightarrow> bool" where
  "accepted_ok w = ((\<exists>th. Acceptor th \<in> set (bs_signal (bw w))) \<and> bs_ready_assocs (bw w) \<noteq> [] \<longrightarrow>
     0 < notifies w \<or> BTodoRelease \<in> set (btodo w))"

definition main_ok :: "'f blocking_world \<Rightarrow> bool" where
  "main_ok w =
     ((sc_send_immediate (bs_sctp (bw w)) \<noteq> [] \<longrightarrow>
         (\<forall>th. MainLoop th \<notin> set (bs_signal (bw w)) \<and> BTodoWait th \<notin> set (btodo w)))
      \<and> (bs_done (bw w) \<longrightarrow> (\<forall>th. BTodoWait th \<notin> set (btodo w)
           \<and> (MainLoop th \<in> set (bs_signal (bw w)) \<longrightarrow> 0 < notifies w))))"

definition btodo_ok :: "'f btodo \<Rightarrow> bool" where
  "btodo_ok x = (case x of BTodoTx i n \<Rightarrow> n = TxSend CStateCookieAck | _ \<Rightarrow> True)"

definition blocking_inv :: "crc32 \<Rightarrow> 'f fake_addr_impl \<Rightarrow> 'f hasher \<Rightarrow> 'f blocking_world \<Rightarrow> bool" where
  "blocking_inv crc I hash w = (bfront_ok crc I hash (bw w) \<and> wired I (bs_assocs (bw w)) (bs_store (bw w))
     \<and> accepted_ok w \<and> main_ok w \<and> list_all btodo_ok (btodo w))"

lemma blocking_init_inv: "blocking_inv crc I hash (blocking_init st)"
proof -
  have "runR (ep_apply crc I hash) [] (sctp_new st) = Ret (sctp_new st)" by simp
  then have "ep_reached crc I hash (sctp_new st)" unfolding ep_reached_def by blast
  then show ?thesis
    by (simp add: blocking_inv_def blocking_init_def blocking_new_def bfront_ok_def wired_def accepted_ok_def main_ok_def)
       (simp add: sctp_new_def)
qed

subsection \<open>One association\<close>

lemma wired_put:
  assumes "wired I al st" and "h < length st" and "\<And>i. bassoc_ok I i (st ! h) \<Longrightarrow> bassoc_ok I i a"
  shows "wired I al (st[h := a])"
proof -
  have "\<exists>i. bassoc_ok I i a" using assms nth_mem [OF assms(2)] unfolding wired_def by blast
  then have "\<forall>b \<in> set (st[h := a]). \<exists>i. bassoc_ok I i b"
    using assms(1) set_update_subset_insert [of st h a] by (auto simp: wired_def)
  moreover have "k < length (st[h := a]) \<and> bassoc_ok I i (st[h := a] ! k)" if "map_of al i = Some k" for i k
    using assms that by (cases "k = h") (auto simp: wired_def)
  ultimately show ?thesis unfolding wired_def by blast
qed

lemma wired_new:
  assumes "wired I al st" and "bassoc_ok I i a"
  shows "wired I (AList.update i (length st) al) (st @ [a])"
proof -
  have "h < length (st @ [a]) \<and> bassoc_ok I j ((st @ [a]) ! h)"
    if "map_of (AList.update i (length st) al) j = Some h" for j h
  proof (cases "j = i")
    case True
    with that assms(2) show ?thesis by (auto simp: update_conv')
  next
    case False
    with that assms(1) have "h < length st \<and> bassoc_ok I j (st ! h)" by (simp add: update_conv' wired_def)
    then show ?thesis by (simp add: nth_append)
  qed
  with assms show ?thesis by (auto simp: wired_def)
qed

lemma bput_simps [simp]:
  "bs_store (bput h a w) = (bs_store w)[h := a]" "bs_assocs (bput h a w) = bs_assocs w" "bs_sctp (bput h a w) = bs_sctp w"
  "bs_signal (bput h a w) = bs_signal w" "bs_done (bput h a w) = bs_done w" "bs_ready_assocs (bput h a w) = bs_ready_assocs w"
  "bfront_ok crc I hash (bput h a w) = bfront_ok crc I hash w"
  by (simp_all add: bput_def bfront_ok_def)

lemma put_inv:
  assumes "blocking_inv crc I hash w" and "h < length (bs_store (bw w))"
    and "\<And>i. bassoc_ok I i (bs_store (bw w) ! h) \<Longrightarrow> bassoc_ok I i a"
  shows "blocking_inv crc I hash (w\<lparr>bw := bput h a (bw w)\<rparr>)"
proof -
  have "wired I (bs_assocs (bw w)) ((bs_store (bw w))[h := a])"
    using assms by (intro wired_put) (auto simp: blocking_inv_def)
  with assms(1) show ?thesis by (simp add: blocking_inv_def accepted_ok_def main_ok_def)
qed

lemma on_blocking_assoc_inv:
  assumes "blocking_inv crc I hash w" and "on_blocking_assoc w h f = Ret w'"
    and "\<And>a b i. f a = Ret b \<Longrightarrow> bassoc_ok I i a \<Longrightarrow> bassoc_ok I i b"
  shows "blocking_inv crc I hash w'"
proof (cases "h < length (bs_store (bw w))")
  case True
  then obtain b where b: "f (bs_store (bw w) ! h) = Ret b" "w' = w\<lparr>bw := bput h b (bw w)\<rparr>"
    using assms(2) by (auto simp: on_blocking_assoc_def outcome)
  show ?thesis unfolding b(2) by (rule put_inv [OF assms(1) True]) (rule assms(3) [OF b(1)])
qed (use assms(1,2) in \<open>simp add: on_blocking_assoc_def\<close>)

text \<open>A method of the transmitter that goes through its operations.\<close>

lemma on_blocking_tx_inv:
  assumes "blocking_inv crc I hash w" and "on_blocking_tx w h f = Ret w'"
    and "\<And>tx tx' r. f tx = Ret (tx', r) \<Longrightarrow>
      \<exists>es. list_all tx_op_ok es \<and> list_all (\<lambda>e. \<forall>n. e \<noteq> OpNotify n) es \<and> runR (tx_apply I) es (btx_wrapped tx) = Ret (btx_wrapped tx')"
  shows "blocking_inv crc I hash w'"
proof (rule on_blocking_assoc_inv [OF assms(1) assms(2) [unfolded on_blocking_tx_def]])
  fix a b :: "'a blocking_assoc" and i
  assume "bindR (f (ba_tx a)) (\<lambda>(tx, _). Ret (a\<lparr>ba_tx := tx\<rparr>)) = Ret b" and ok: "bassoc_ok I i a"
  then obtain tx r where tx: "f (ba_tx a) = Ret (tx, r)" "b = a\<lparr>ba_tx := tx\<rparr>"
    by (auto simp: outcome)
  obtain es where es: "list_all tx_op_ok es" "runR (tx_apply I) es (btx_of a) = Ret (btx_wrapped tx)"
    using assms(3) [OF tx(1)] by blast
  have "tx_reached I i (btx_wrapped tx)"
    using tx_reached_run [OF _ es] ok by (simp add: bassoc_ok_def)
  with ok tx(2) show "bassoc_ok I i b" by (simp add: bassoc_ok_def)
qed

lemma send_data_round_ops:
  assumes "send_data_round th data stream ppid im un tx = Ret (tx', r)" and "data \<noteq> []"
  shows "\<exists>es. list_all tx_op_ok es \<and> list_all (\<lambda>e. \<forall>n. e \<noteq> OpNotify n) es \<and> runR (tx_apply I) es (btx_wrapped tx) = Ret (btx_wrapped tx')"
proof -
  obtain s q where s: "try_send_data (btx_wrapped tx) data stream ppid im un = Ret (s, q)"
    using assms(1) by (auto simp: send_data_round_def outcome)
  then have "btx_wrapped tx' = s"
    using assms(1) by (cases q) (auto simp: send_data_round_def Let_def split: if_splits)
  with s assms(2) show ?thesis by (intro single_op [of "OpSend data stream ppid im un"]) simp_all
qed

lemma poll_chunk_round_ops:
  assumes "poll_chunk_round I th now now' now'' tx = Ret (tx', r)"
  shows "\<exists>es. list_all tx_op_ok es \<and> list_all (\<lambda>e. \<forall>n. e \<noteq> OpNotify n) es \<and> runR (tx_apply I) es (btx_wrapped tx) = Ret (btx_wrapped tx')"
proof -
  obtain t q where t: "poll_signal_to_send I (btx_wrapped tx) 1024 0 now = Ret (t, q)"
    using assms by (auto simp: poll_chunk_round_def outcome)
  obtain s p where s: "poll_or_else (t, q) (\<lambda>s. bindR (poll_data_to_send s 1024 0 now')
      (\<lambda>(s, r). Ret (s, poll_map CData r))) = Ret (s, p)"
    using assms t by (auto simp: poll_chunk_round_def outcome)
  have tx': "btx_wrapped tx' = s"
    using assms t s
    by (cases p; cases "next_timeout s") (auto simp: poll_chunk_round_def Let_def)
  show ?thesis
  proof (cases "q = PollNone")
    case True
    with t s tx' have "runR (tx_apply I) [OpPollSignal 1024 0 now, OpPollData 1024 0 now'] (btx_wrapped tx) = Ret (btx_wrapped tx')"
      by (auto simp: poll_or_else_def outcome)
    then show ?thesis
      by (intro exI [of _ "[OpPollSignal 1024 0 now, OpPollData 1024 0 now']"]) simp
  next
    case False
    with t s tx' have "runR (tx_apply I) [OpPollSignal 1024 0 now] (btx_wrapped tx) = Ret (btx_wrapped tx')"
      by (auto simp: poll_or_else_def split: poll_send_result.splits)
    then show ?thesis
      by (intro exI [of _ "[OpPollSignal 1024 0 now]"]) simp
  qed
qed

lemma recv_data_round_ok:
  assumes "recv_data_round th (ba_rx a) = Ret (rx, r)" and ok: "bassoc_ok I i a"
  shows "bassoc_ok I i (a\<lparr>ba_rx := rx\<rparr>)"
proof -
  obtain s q where s: "poll_data (brx_of a) = Ret (s, q)"
    using assms(1) by (auto simp: recv_data_round_def outcome)
  have inv: "rx_inv (brx_of a)" using ok by (auto simp: bassoc_ok_def intro: rx_reached_inv)
  have "rx_apply RxPoll (brx_of a) = Ret s" using s by simp
  with rx_reached_step have reached: "rx_reached i s"
    using ok unfolding bassoc_ok_def by blast
  have none: "tx_notifications s = []" using poll_data_notes [OF s] ok by (simp add: bassoc_ok_def)
  show ?thesis
  proof (cases q)
    case NoneAvailable
    then have "s = brx_of a" using poll_data_idle [OF inv] s by simp
    with NoneAvailable assms(1) s ok show ?thesis
      by (auto simp: recv_data_round_def Let_def bassoc_ok_def)
  qed (use assms(1) s ok reached none in \<open>auto simp: recv_data_round_def Let_def bassoc_ok_def\<close>)
qed

subsection \<open>Notifications\<close>

lemma blocking_forward_notes_reached:
  "blocking_forward_notes ns tx = Ret tx' \<Longrightarrow> list_all notification_ok ns \<Longrightarrow> tx_reached I i (btx_wrapped tx) \<Longrightarrow>
   tx_reached I i (btx_wrapped tx')"
proof (induction ns arbitrary: tx)
  case (Cons n ns)
  then obtain s where s: "tx_notification (btx_wrapped tx) n = Ret s"
    and rest: "blocking_forward_notes ns \<lparr>btx_wrapped = s, btx_signal = []\<rparr> = Ret tx'"
    by (auto simp: outcome)
  have "tx_reached I i s"
    using tx_reached_step [of I i "btx_wrapped tx" "OpNotify n" s] Cons.prems(2,3) s by simp
  then show ?case
    using Cons.IH [OF rest] Cons.prems(2) by simp
qed simp

lemma blocking_deliver_tx_inv:
  assumes "blocking_inv crc I hash w" and "notification_ok n" and "blocking_deliver_tx i n (bw w) = Ret a"
  shows "blocking_inv crc I hash (w\<lparr>bw := a\<rparr>)"
proof (cases "map_of (bs_assocs (bw w)) i")
  case None
  with assms show ?thesis by (auto simp: blocking_deliver_tx_def)
next
  case (Some h)
  let ?b = "bs_store (bw w) ! h"
  obtain s where s: "tx_notification (btx_of ?b) n = Ret s"
    "a = bput h (?b\<lparr>ba_tx := \<lparr>btx_wrapped = s, btx_signal = []\<rparr>\<rparr>) (bw w)"
    using assms(3) Some by (auto simp: blocking_deliver_tx_def Let_def outcome)
  have "h < length (bs_store (bw w))" using assms(1) Some by (auto simp: blocking_inv_def wired_def)
  moreover have "tx_reached I j (btx_of ?b) \<Longrightarrow> tx_reached I j s" for j
    using tx_reached_step [of I j "btx_of ?b" "OpNotify n" s] assms(2) s(1) by simp
  ultimately show ?thesis
    unfolding s(2) by (intro put_inv [OF assms(1)]) (simp_all add: bassoc_ok_def)
qed

lemma blocking_deliver_rx_inv:
  assumes "blocking_inv crc I hash w" and "blocking_deliver_rx now i n (bw w) = Ret a" and "now \<le> 2 ^ 60"
  shows "blocking_inv crc I hash (w\<lparr>bw := a\<rparr>)"
proof (cases "map_of (bs_assocs (bw w)) i")
  case None
  with assms show ?thesis by (auto simp: blocking_deliver_rx_def)
next
  case (Some h)
  let ?b = "bs_store (bw w) ! h"
  obtain s tx where s: "rx_notification (brx_of ?b) n now = Ret s"
    "blocking_forward_notes (tx_notifications s) (ba_tx ?b) = Ret tx"
    "a = bput h \<lparr>ba_tx = tx, ba_rx = \<lparr>brx_wrapped = s\<lparr>tx_notifications := []\<rparr>, brx_signal = []\<rparr>\<rparr> (bw w)"
    using assms(2) Some by (auto simp: blocking_deliver_rx_def Let_def drain_tx_notifications_def outcome)
  have h: "h < length (bs_store (bw w))" using assms(1) Some by (auto simp: blocking_inv_def wired_def)
  have "bassoc_ok I j \<lparr>ba_tx = tx, ba_rx = \<lparr>brx_wrapped = s\<lparr>tx_notifications := []\<rparr>, brx_signal = []\<rparr>\<rparr>"
    if ok: "bassoc_ok I j ?b" for j
  proof -
    have rx: "rx_reached j (brx_of ?b)" and tx: "tx_reached I j (btx_of ?b)" and none: "tx_notifications (brx_of ?b) = []"
      using ok by (simp_all add: bassoc_ok_def)
    have "rx_reached j s" using rx_reached_step [OF rx, of "RxNotify n now"] s(1) by simp
    then have "rx_reached j (s\<lparr>tx_notifications := []\<rparr>)"
      using rx_reached_step [of j s RxDrain] by (simp add: drain_tx_notifications_def)
    moreover have "list_all notification_ok (tx_notifications s)"
      using rx_notes_ok [OF rx_reached_inv [OF rx] s(1) assms(3)] none by simp
    then have "tx_reached I j (btx_wrapped tx)"
      by (rule blocking_forward_notes_reached [OF s(2) _ tx])
    ultimately show ?thesis by (simp add: bassoc_ok_def)
  qed
  then show ?thesis unfolding s(3) by (intro put_inv [OF assms(1) h])
qed

subsection \<open>Packets and the main loop\<close>

lemma send_each_sent:
  "send_each ms w = Ret w' \<Longrightarrow> \<exists>sent. w' = w\<lparr>bs_sent := bs_sent w @ sent\<rparr>"
proof (induction ms w rule: send_each.induct)
  case (1 w)
  then show ?case by (intro exI [of _ "[]"]) simp
next
  case (2 addr p c ms w)
  show ?case
  proof (cases "bs_send_cb w addr")
    case None
    with 2 show ?thesis by simp
  next
    case (Some cb)
    with "2.prems" have "cb p c" by (auto split: if_splits)
    with 2 Some show ?thesis by fastforce
  qed
qed

text \<open>What \<open>blocking_take_new_assoc\<close> keeps, and what it does to the queue of \<open>accept\<close>.\<close>

lemma blocking_take_new_assoc_inv:
  assumes "ep_reached crc I hash (bs_sctp w)" and "wired I (bs_assocs w) (bs_store w)"
    and "\<forall>h \<in> set (bs_ready_assocs w). h < length (bs_store w)"
  defines "u \<equiv> blocking_take_new_assoc w"
  shows "ep_reached crc I hash (bs_sctp u)" and "wired I (bs_assocs u) (bs_store u)"
    and "\<forall>h \<in> set (bs_ready_assocs u). h < length (bs_store u)" and "sc_new_assoc (bs_sctp u) = None"
    and "bs_signal u = bs_signal w" and "bs_done u = bs_done w"
    and "sc_new_assoc (bs_sctp w) = None \<Longrightarrow> bs_ready_assocs u = bs_ready_assocs w"
proof -
  let ?s = "(bs_sctp w)\<lparr>sc_new_assoc := None\<rparr>"
  have reached: "ep_reached crc I hash ?s"
    using assms(1) ep_reached_step [of crc I hash "bs_sctp w" EpNewAssoc] by (simp add: new_assoc_def)
  have "ep_reached crc I hash (bs_sctp u) \<and> wired I (bs_assocs u) (bs_store u)
    \<and> (\<forall>h \<in> set (bs_ready_assocs u). h < length (bs_store u)) \<and> sc_new_assoc (bs_sctp u) = None
    \<and> bs_signal u = bs_signal w \<and> bs_done u = bs_done w
    \<and> (sc_new_assoc (bs_sctp w) = None \<longrightarrow> bs_ready_assocs u = bs_ready_assocs w)"
  proof (cases "sc_new_assoc (bs_sctp w)")
    case None
    with assms reached show ?thesis by (simp add: blocking_take_new_assoc_def new_assoc_def)
  next
    case (Some a)
    let ?b = "\<lparr>ba_tx = \<lparr>btx_wrapped = as_tx a, btx_signal = []\<rparr>, ba_rx = \<lparr>brx_wrapped = as_rx a, brx_signal = []\<rparr>\<rparr>"
    have "brand_new a" using ep_reached_inv [OF assms(1)] Some by (simp add: ep_inv_def)
    then have "bassoc_ok I (as_id a) ?b" using brand_new_reached [of a] by (simp add: bassoc_ok_def)
    from wired_new [OF assms(2) this] Some reached assms(3) show ?thesis
      by (auto simp: u_def blocking_take_new_assoc_def new_assoc_def association_split_def Let_def less_SucI)
  qed
  then show "ep_reached crc I hash (bs_sctp u)" "wired I (bs_assocs u) (bs_store u)"
    "\<forall>h \<in> set (bs_ready_assocs u). h < length (bs_store u)" "sc_new_assoc (bs_sctp u) = None"
    "bs_signal u = bs_signal w" "bs_done u = bs_done w"
    "sc_new_assoc (bs_sctp w) = None \<Longrightarrow> bs_ready_assocs u = bs_ready_assocs w" by simp_all
qed

text \<open>Notes to pass on, not yet the end of the method.\<close>

definition is_note :: "'f btodo \<Rightarrow> bool" where
  "is_note x = (case x of BTodoTx i n \<Rightarrow> n = TxSend CStateCookieAck | BTodoRx i n \<Rightarrow> True | _ \<Rightarrow> False)"

lemma begin_handle_inv:
  assumes "ep_reached crc I hash (bs_sctp w)" and "wired I (bs_assocs w) (bs_store w)"
    and "\<forall>h \<in> set (bs_ready_assocs w). h < length (bs_store w)" and "begin_handle w = Ret (w', td)"
  shows "bfront_ok crc I hash w'" and "wired I (bs_assocs w') (bs_store w')" and "list_all is_note td"
    and "sc_send_immediate (bs_sctp w') = []" and "bs_signal w' = bs_signal w" and "bs_done w' = bs_done w"
    and "sc_new_assoc (bs_sctp w) = None \<Longrightarrow> bs_ready_assocs w' = bs_ready_assocs w"
proof -
  let ?u = "blocking_take_new_assoc w"
  let ?s = "(bs_sctp ?u)\<lparr>sc_send_immediate := []\<rparr>"
  let ?t = "?s\<lparr>sc_tx_notifications := []\<rparr>"
  note new = blocking_take_new_assoc_inv [OF assms(1-3)]
  obtain v where v: "send_each (sc_send_immediate (bs_sctp ?u)) (?u\<lparr>bs_sctp := ?s\<rparr>) = Ret v"
    and w': "w' = v\<lparr>bs_sctp := (bs_sctp v)\<lparr>sc_tx_notifications := [], sc_rx_notifications := []\<rparr>\<rparr>"
    and td: "td = map (\<lambda>(i, n). BTodoTx i n) (sc_tx_notifications (bs_sctp v))
      @ map (\<lambda>(i, n). BTodoRx i n) (sc_rx_notifications (bs_sctp v))"
    using assms(4)
    by (auto simp: begin_handle_def send_all_immediate_def send_immediate_def sctp_tx_notifications_def
        rx_notifications_def outcome Let_def)
  obtain sent where sent: "v = ?u\<lparr>bs_sctp := ?s, bs_sent := sent\<rparr>"
    using send_each_sent [OF v] by auto
  have s: "ep_reached crc I hash ?s"
    using ep_reached_step [of crc I hash "bs_sctp ?u" EpSendAll] new(1) by (simp add: send_immediate_def)
  then have "ep_reached crc I hash ?t"
    using ep_reached_step [of crc I hash ?s EpTxNotes] by (simp add: sctp_tx_notifications_def)
  then have "ep_reached crc I hash (?t\<lparr>sc_rx_notifications := []\<rparr>)"
    using ep_reached_step [of crc I hash ?t EpRxNotes] by (simp add: rx_notifications_def)
  then show "bfront_ok crc I hash w'" using new(3,4) by (simp add: bfront_ok_def w' sent)
  have "list_all cookie_ack_note (sc_tx_notifications ?s)"
    using ep_reached_inv [OF s] unfolding ep_inv_def by blast
  then show "list_all is_note td"
    by (auto simp: td sent list_all_iff is_note_def cookie_ack_note_def)
  show "wired I (bs_assocs w') (bs_store w')" "sc_send_immediate (bs_sctp w') = []" "bs_signal w' = bs_signal w"
    "bs_done w' = bs_done w" "sc_new_assoc (bs_sctp w) = None \<Longrightarrow> bs_ready_assocs w' = bs_ready_assocs w"
    using new(2,5,6,7) by (simp_all add: w' sent)
qed

lemma is_note_todo: "list_all is_note td \<Longrightarrow> list_all btodo_ok td \<and> (\<forall>th. BTodoWait th \<notin> set td)"
  by (auto simp: list_all_iff is_note_def btodo_ok_def split: btodo.splits)

text \<open>A thread takes the lock and goes through \<open>handle_notifications\<close> up to its loops.\<close>

lemma handle_inv:
  assumes "blocking_inv crc I hash w" and "btodo w = []" and "begin_handle a = Ret (b, td)"
    and "ep_reached crc I hash (bs_sctp a)" and "wired I (bs_assocs a) (bs_store a)"
    and "bs_ready_assocs a = bs_ready_assocs (bw w)" and "bs_store a = bs_store (bw w)"
    and "bs_signal a = bs_signal (bw w)" and "bs_done a = bs_done (bw w)"
    and "x = BTodoRelease \<or> (\<exists>th. x = BTodoWait th) \<and> sc_new_assoc (bs_sctp a) = None \<and> \<not> bs_done a"
  shows "blocking_inv crc I hash (w\<lparr>bw := b, btodo := td @ [x]\<rparr>)"
proof -
  have "\<forall>h \<in> set (bs_ready_assocs a). h < length (bs_store a)"
    using assms(1,6,7) by (simp add: blocking_inv_def bfront_ok_def)
  note b = begin_handle_inv [OF assms(4,5) this assms(3)]
  note td = is_note_todo [OF b(3)]
  have "accepted_ok (w\<lparr>bw := b, btodo := td @ [x]\<rparr>)"
    using assms(1,2,6,8,10) b(5,7) by (auto simp: blocking_inv_def accepted_ok_def)
  moreover have "main_ok (w\<lparr>bw := b, btodo := td @ [x]\<rparr>)"
    using assms(1,2,8,9,10) b(4,5,6) td by (auto simp: blocking_inv_def main_ok_def)
  moreover have "list_all btodo_ok (td @ [x])"
    using td assms(10) by (auto simp: btodo_ok_def)
  ultimately show ?thesis using b(1,2) by (simp add: blocking_inv_def)
qed

subsection \<open>All steps\<close>

lemma blocking_locked_inv:
  assumes "blocking_inv crc I hash w" and "blocking_locked w f = Ret w'"
    and "btodo w = [] \<Longrightarrow> blocking_inv crc I hash (w\<lparr>bw := f (bw w)\<rparr>)"
  shows "blocking_inv crc I hash w'"
  using assms by (auto simp: blocking_locked_def split: if_splits)

lemma accept_round_inv:
  assumes "blocking_inv crc I hash w"
  shows "blocking_inv crc I hash (w\<lparr>bw := fst (accept_round th (bw w))\<rparr>)"
  using assms
  by (cases "bs_ready_assocs (bw w)")
     (auto simp: accept_round_def blocking_inv_def bfront_ok_def accepted_ok_def main_ok_def)

lemma connect_inv:
  assumes "blocking_inv crc I hash w" and "btodo w = []"
  shows "blocking_inv crc I hash (w\<lparr>bw := fst (blocking_connect v t addr pport lport th (bw w))\<rparr>)"
proof -
  let ?s = "init_association v t (bs_sctp (bw w)) addr pport lport"
  let ?b = "notify_all ((bw w)\<lparr>bs_sctp := ?s\<rparr>)"
  have "ep_reached crc I hash ?s"
    using assms(1) ep_reached_step [of crc I hash "bs_sctp (bw w)" "EpInit addr pport lport v t"]
    by (simp add: blocking_inv_def bfront_ok_def)
  then have "blocking_inv crc I hash (w\<lparr>bw := ?b\<rparr>)"
    using assms
    by (simp add: blocking_inv_def bfront_ok_def accepted_ok_def main_ok_def notify_all_def init_association_def
        push_immediate_def Let_def)
  from accept_round_inv [OF this, of th] show ?thesis by (simp add: blocking_connect_def)
qed

lemma do_btodo_inv:
  assumes "blocking_inv crc I hash w" and "btodo w = x # xs" and "do_btodo now x (w\<lparr>btodo := xs\<rparr>) = Ret w'"
    and "now \<le> 2 ^ 60"
  shows "blocking_inv crc I hash w'"
proof -
  have ok: "blocking_inv crc I hash (w\<lparr>btodo := xs\<rparr>)" if "x \<noteq> BTodoRelease"
    using assms(1,2) that by (auto simp: blocking_inv_def accepted_ok_def main_ok_def)
  show ?thesis
  proof (cases x)
    case (BTodoTx i n)
    then obtain a where "blocking_deliver_tx i n (bw w) = Ret a" "w' = w\<lparr>btodo := xs, bw := a\<rparr>"
      using assms(3) by (auto simp: do_btodo_def outcome)
    moreover have "notification_ok n"
      using assms(1,2) BTodoTx by (auto simp: blocking_inv_def btodo_ok_def)
    ultimately show ?thesis using blocking_deliver_tx_inv [OF ok] BTodoTx by simp
  next
    case (BTodoRx i n)
    then obtain a where "blocking_deliver_rx now i n (bw w) = Ret a" "w' = w\<lparr>btodo := xs, bw := a\<rparr>"
      using assms(3) by (auto simp: do_btodo_def outcome)
    then show ?thesis using blocking_deliver_rx_inv [OF ok] BTodoRx assms(4) by simp
  next
    case (BTodoWait th)
    have "sc_send_immediate (bs_sctp (bw w)) = []" "\<not> bs_done (bw w)"
      using assms(1,2) BTodoWait by (auto simp: blocking_inv_def main_ok_def)
    with ok assms(3) BTodoWait show ?thesis
      by (auto simp: do_btodo_def blocking_inv_def bfront_ok_def accepted_ok_def main_ok_def)
  next
    case BTodoRelease
    with assms(1,2,3) show ?thesis
      by (auto simp: do_btodo_def blocking_inv_def accepted_ok_def main_ok_def)
  qed
qed

lemma blocking_apply_inv:
  assumes "blocking_inv crc I hash w" and "blocking_op_ok e" and "blocking_apply crc I hash e w = Ret w'"
  shows "blocking_inv crc I hash w'"
proof (cases e)
  case (BReceive data "from" now t v)
  show ?thesis
  proof (cases "btodo w = []")
    case True
    then obtain s b td where s: "receive_data crc I hash t v (bs_sctp (bw w)) data from now = Ret s"
      and b: "begin_handle ((bw w)\<lparr>bs_sctp := s\<rparr>) = Ret (b, td)" "w' = w\<lparr>bw := b, btodo := td @ [BTodoRelease]\<rparr>"
      using assms(3) BReceive by (auto simp: outcome)
    have "ep_reached crc I hash s"
      using assms(1) s ep_reached_step [of crc I hash "bs_sctp (bw w)" "EpReceive data from now t v"]
      by (simp add: blocking_inv_def bfront_ok_def)
    then show ?thesis
      unfolding b(2) using assms(1) by (intro handle_inv [OF _ True b(1)]) (auto simp: blocking_inv_def)
  qed (use assms BReceive in simp)
next
  case (BDeliver now)
  show ?thesis
  proof (cases "btodo w")
    case (Cons x xs)
    then show ?thesis using do_btodo_inv [OF assms(1) Cons] assms(2,3) BDeliver by simp
  qed (use assms BDeliver in simp)
next
  case BNotify
  with assms show ?thesis
    by (auto simp: blocking_inv_def bfront_ok_def accepted_ok_def main_ok_def notify_all_def split: if_splits)
next
  case (BRegister addr cb)
  show ?thesis
    by (rule blocking_locked_inv [OF assms(1) assms(3) [unfolded BRegister blocking_apply.simps]])
       (use assms(1) in \<open>simp add: register_address_def blocking_inv_def bfront_ok_def accepted_ok_def main_ok_def\<close>)
next
  case (BConnect addr pport lport v t th)
  show ?thesis
    by (rule blocking_locked_inv [OF assms(1) assms(3) [unfolded BConnect blocking_apply.simps]]) (rule connect_inv [OF assms(1)])
next
  case (BAccept th)
  show ?thesis
    by (rule blocking_locked_inv [OF assms(1) assms(3) [unfolded BAccept blocking_apply.simps]]) (rule accept_round_inv [OF assms(1)])
next
  case BKill
  with assms show ?thesis
    by (auto simp: blocking_inv_def bfront_ok_def accepted_ok_def main_ok_def split: if_splits)
next
  case (BMain th)
  show ?thesis
  proof (cases "btodo w = [] \<and> \<not> bs_done (bw w)")
    case True
    then obtain b td where b: "begin_handle (bw w) = Ret (b, td)" "w' = w\<lparr>bw := b, btodo := td @ [BTodoWait th]\<rparr>"
      using assms(3) BMain by (auto simp: outcome)
    show ?thesis
      unfolding b(2) using assms(1) True by (intro handle_inv [OF _ _ b(1)]) (auto simp: blocking_inv_def bfront_ok_def)
  qed (use assms BMain in auto)
next
  case (BSend h th data stream ppid im un)
  show ?thesis
    by (rule on_blocking_tx_inv [OF assms(1) assms(3) [unfolded BSend blocking_apply.simps]])
       (use assms(2) BSend in \<open>auto intro: send_data_round_ops\<close>)
next
  case (BPoll h th now now' now'')
  show ?thesis
    by (rule on_blocking_tx_inv [OF assms(1) assms(3) [unfolded BPoll blocking_apply.simps]]) (rule poll_chunk_round_ops)
next
  case (BTimedOut h t)
  show ?thesis
    by (rule on_blocking_tx_inv [OF assms(1) assms(3) [unfolded BTimedOut blocking_apply.simps]])
       (auto simp: poll_timed_out_def outcome intro: single_op [of "OpTimeout t"])
next
  case (BRecv h th)
  show ?thesis
    by (rule on_blocking_assoc_inv [OF assms(1) assms(3) [unfolded BRecv blocking_apply.simps]])
       (auto simp: outcome dest: recv_data_round_ok)
qed

interpretation blocking_sys:
  invariant_system "blocking_apply crc I hash" blocking_op_ok "blocking_inv crc I hash" for crc I hash
  by unfold_locales (rule blocking_apply_inv)

end
