(* ===== verification/Blocking_Props.thy ===== *)
theory Blocking_Props
  imports Blocking_Inv
begin

text \<open>
  Properties of the blocking wrapper: it is a faithful driver of the core, it does not forget threads
  that sleep, and what \<open>poll_chunk_to_send\<close> does when there is nothing to send.
\<close>

subsection \<open>Senders that wait for room\<close>

text \<open>What becomes of one association in a step: it gets no room, or its threads have been woken.\<close>

definition senders_woken :: "'f blocking_assoc \<Rightarrow> 'f blocking_assoc \<Rightarrow> bool" where
  "senders_woken a b = (current_out_buffered (btx_of a) \<le> current_out_buffered (btx_of b) \<or> btx_signal (ba_tx b) = [])"

lemma senders_woken_refl [simp]: "senders_woken a a"
  by (simp add: senders_woken_def)

lemma woken_put: "k < length st \<Longrightarrow> senders_woken (st ! h) b \<Longrightarrow> senders_woken (st ! k) (st[h := b] ! k)"
  by (cases "h = k") simp_all

lemma on_blocking_assoc_woken:
  assumes "on_blocking_assoc w h f = Ret w'" and "k < length (bs_store (bw w))"
    and "\<And>a b. f a = Ret b \<Longrightarrow> senders_woken a b"
  shows "senders_woken (bs_store (bw w) ! k) (bs_store (bw w') ! k)"
  using assms(1,2) by (cases "h = k") (auto simp: on_blocking_assoc_def outcome dest: assms(3) split: if_splits)

lemma on_blocking_tx_woken:
  assumes "on_blocking_tx w h f = Ret w'" and "k < length (bs_store (bw w))"
    and "\<And>tx tx' r. f tx = Ret (tx', r) \<Longrightarrow>
      \<exists>es. list_all tx_op_ok es \<and> list_all (\<lambda>e. \<forall>n. e \<noteq> OpNotify n) es \<and> runR (tx_apply I) es (btx_wrapped tx) = Ret (btx_wrapped tx')"
  shows "senders_woken (bs_store (bw w) ! k) (bs_store (bw w') ! k)"
proof (rule on_blocking_assoc_woken [OF assms(1) [unfolded on_blocking_tx_def] assms(2)])
  fix a b :: "'a blocking_assoc"
  assume "bindR (f (ba_tx a)) (\<lambda>(tx, _). Ret (a\<lparr>ba_tx := tx\<rparr>)) = Ret b"
  then obtain tx r where tx: "f (ba_tx a) = Ret (tx, r)" "b = a\<lparr>ba_tx := tx\<rparr>"
    by (auto simp: outcome)
  from assms(3) [OF tx(1)] show "senders_woken a b"
    by (auto simp: tx(2) senders_woken_def dest: room_by_run)
qed

lemma blocking_forward_signal: "blocking_forward_notes ns tx = Ret tx' \<Longrightarrow> tx' = tx \<or> btx_signal tx' = []"
proof (induction ns arbitrary: tx)
  case (Cons n ns)
  then obtain s where "blocking_forward_notes ns \<lparr>btx_wrapped = s, btx_signal = []\<rparr> = Ret tx'"
    by (auto simp: outcome)
  from Cons.IH [OF this] show ?case by auto
qed simp

lemma do_btodo_woken:
  assumes "do_btodo now x w = Ret w'" and "k < length (bs_store (bw w))"
  shows "senders_woken (bs_store (bw w) ! k) (bs_store (bw w') ! k)"
proof -
  consider (same) "bs_store (bw w') = bs_store (bw w)"
    | (put) h b where "bs_store (bw w') = (bs_store (bw w))[h := b]" "senders_woken (bs_store (bw w) ! h) b"
  proof (cases x)
    case (BTodoTx i n)
    with assms(1) that show thesis
      by (fastforce simp: do_btodo_def blocking_deliver_tx_def Let_def outcome senders_woken_def split: option.splits)
  next
    case (BTodoRx i n)
    with assms(1) that show thesis
      by (fastforce simp: do_btodo_def blocking_deliver_rx_def Let_def outcome drain_tx_notifications_def
          senders_woken_def split: option.splits dest: blocking_forward_signal)
  qed (use assms(1) that in \<open>auto simp: do_btodo_def\<close>)
  then show ?thesis
    by cases (use assms(2) in \<open>simp_all add: woken_put\<close>)
qed

lemma begin_handle_store: "begin_handle w = Ret (w', td) \<Longrightarrow> \<exists>bs. bs_store w' = bs_store w @ bs"
proof -
  have take: "\<exists>bs. bs_store (blocking_take_new_assoc w) = bs_store w @ bs"
    by (auto simp: blocking_take_new_assoc_def Let_def split: prod.split option.split)
  assume "begin_handle w = Ret (w', td)"
  then obtain v where "send_all_immediate (blocking_take_new_assoc w) = Ret v" "bs_store w' = bs_store v"
    by (auto simp: begin_handle_def outcome sctp_tx_notifications_def rx_notifications_def Let_def)
  with take show ?thesis
    by (auto simp: send_all_immediate_def dest!: send_each_sent split: prod.splits)
qed

lemma blocking_locked_store:
  assumes "blocking_locked w f = Ret w'" and "bs_store (f (bw w)) = bs_store (bw w)"
  shows "bs_store (bw w') = bs_store (bw w)"
  using assms by (auto simp: blocking_locked_def split: if_splits)

lemma blocking_store_frame [simp]:
  "bs_store (register_address addr cb w) = bs_store w" "bs_store (fst (accept_round th w)) = bs_store w"
  "bs_store (fst (blocking_connect v t addr pport lport th w)) = bs_store w" "bs_store (notify_all w) = bs_store w"
  by (simp_all add: register_address_def accept_round_def blocking_connect_def notify_all_def split: list.split)

lemma blocking_room:
  assumes "blocking_op_ok e" and "blocking_apply crc I hash e w = Ret w'" and k: "k < length (bs_store (bw w))"
  shows "senders_woken (bs_store (bw w) ! k) (bs_store (bw w') ! k)"
proof (cases e)
  case (BReceive data "from" now t v)
  have "\<exists>bs. bs_store (bw w') = bs_store (bw w) @ bs"
    using assms(2) BReceive by (auto simp: outcome dest!: begin_handle_store split: if_splits)
  with k show ?thesis by (auto simp: nth_append)
next
  case (BMain th)
  have "\<exists>bs. bs_store (bw w') = bs_store (bw w) @ bs"
    using assms(2) BMain by (auto simp: outcome dest!: begin_handle_store split: if_splits)
  with k show ?thesis by (auto simp: nth_append)
next
  case (BDeliver now)
  show ?thesis
  proof (cases "btodo w")
    case (Cons x xs)
    then show ?thesis using do_btodo_woken [of now x "w\<lparr>btodo := xs\<rparr>"] assms(2) BDeliver k by simp
  qed (use assms BDeliver in simp)
next
  case (BSend h th data stream ppid im un)
  show ?thesis
    by (rule on_blocking_tx_woken [where I = I, OF assms(2) [unfolded BSend blocking_apply.simps] k])
       (use assms(1) BSend in \<open>auto intro: send_data_round_ops\<close>)
next
  case (BPoll h th now now' now'')
  show ?thesis
    by (rule on_blocking_tx_woken [OF assms(2) [unfolded BPoll blocking_apply.simps] k]) (rule poll_chunk_round_ops)
next
  case (BTimedOut h t)
  show ?thesis
    by (rule on_blocking_tx_woken [where I = I, OF assms(2) [unfolded BTimedOut blocking_apply.simps] k])
       (auto simp: poll_timed_out_def outcome intro: single_op [of "OpTimeout t"])
next
  case (BRecv h th)
  show ?thesis
    by (rule on_blocking_assoc_woken [OF assms(2) [unfolded BRecv blocking_apply.simps] k])
       (auto simp: outcome senders_woken_def)
qed (use assms(2) in \<open>auto dest!: blocking_locked_store split: if_splits\<close>)

subsection \<open>An example\<close>

text \<open>A server that has accepted a cookie: the acknowledgement is queued, the lock given back and everybody notified.\<close>

abbreviation bdemo_step :: "socket_addr blocking_op \<Rightarrow> socket_addr blocking_world \<Rightarrow> socket_addr blocking_world rust" where
  "bdemo_step \<equiv> blocking_apply (\<lambda>_. 0) fake_addr_socket (\<lambda>_. 7)"

definition bdemo_world :: "socket_addr sctp \<Rightarrow> socket_addr association \<Rightarrow> socket_addr blocking_world" where
  "bdemo_world s a =
     \<lparr>bw = \<lparr>bs_sctp = s, bs_assocs = [(AssocId 2, 0)], bs_send_cb = Map.empty, bs_done = False, bs_ready_assocs = [0],
        bs_signal = [],
        bs_store = [\<lparr>ba_tx = \<lparr>btx_wrapped = push_send_next (as_tx a) CStateCookieAck, btx_signal = []\<rparr>,
          ba_rx = \<lparr>brx_wrapped = as_rx a, brx_signal = []\<rparr>\<rparr>], bs_sent = []\<rparr>,
      btodo = [], notifies = 0\<rparr>"

lemma bdemo_established:
  obtains data s a where
    "runR bdemo_step [BReceive data (IpV4 1) 0 0 0, BDeliver 0, BDeliver 0, BNotify] (blocking_init demo_server_settings) =
      Ret (bdemo_world s a)"
    "as_rx a = assoc_rx_new (AssocId 2) 6 1 100"
proof -
  obtain data a s where d:
    "receive_data (\<lambda>_. 0) fake_addr_socket (\<lambda>_. 7) 0 0 (sctp_new demo_server_settings) data (IpV4 1) 0 = Ret s"
    "association_new (AssocId 2) 6 1 100 (cookie_settings (sctp_new demo_server_settings) demo_cookie) 0 = Ret a"
    "sc_new_assoc s = Some a" "sc_tx_notifications s = [(AssocId 2, TxSend CStateCookieAck)]"
    "sc_rx_notifications s = []" "sc_send_immediate s = []"
    by (rule demo_cookie_packet)
  have a: "as_id a = AssocId 2" using association_new_ids [OF d(2)] by simp
  let ?s = "s\<lparr>sc_new_assoc := None, sc_send_immediate := [], sc_tx_notifications := [], sc_rx_notifications := []\<rparr>"
  let ?half = "\<lparr>ba_tx = \<lparr>btx_wrapped = as_tx a, btx_signal = []\<rparr>, ba_rx = \<lparr>brx_wrapped = as_rx a, brx_signal = []\<rparr>\<rparr>"
  have first: "bdemo_step (BReceive data (IpV4 1) 0 0 0) (blocking_init demo_server_settings) =
      Ret \<lparr>bw = \<lparr>bs_sctp = ?s, bs_assocs = [(AssocId 2, 0)], bs_send_cb = Map.empty, bs_done = False,
          bs_ready_assocs = [0], bs_signal = [], bs_store = [?half], bs_sent = []\<rparr>,
        btodo = [BTodoTx (AssocId 2) (TxSend CStateCookieAck), BTodoRelease], notifies = 0\<rparr>"
    using d a
    by (simp add: blocking_init_def blocking_new_def begin_handle_def blocking_take_new_assoc_def new_assoc_def
        association_split_def send_all_immediate_def send_immediate_def sctp_tx_notifications_def rx_notifications_def Let_def)
  have "runR bdemo_step [BReceive data (IpV4 1) 0 0 0, BDeliver 0, BDeliver 0, BNotify] (blocking_init demo_server_settings) =
      Ret (bdemo_world ?s a)"
    unfolding runR.simps first bindR.simps
    by (simp add: do_btodo_def blocking_deliver_tx_def tx_notification_def bdemo_world_def Let_def bput_def notify_all_def)
  moreover have "as_rx a = assoc_rx_new (AssocId 2) 6 1 100"
    using d(2) by (cases a) (auto simp: association_new_def outcome)
  ultimately show thesis by (rule that)
qed

subsection \<open>Polling when there is nothing to send\<close>

lemma poll_chunk_round_waits:
  assumes "poll_chunk_round I th now now' now'' tx = Ret (tx', r)" and "\<forall>c. r \<noteq> Return c"
  shows "btx_signal tx' = th # btx_signal tx"
    and "r = (case next_timeout (btx_wrapped tx') of None \<Rightarrow> Wait | Some t \<Rightarrow> WaitTimeout (now'' - tm_at t) t)"
proof -
  obtain t q where t: "poll_signal_to_send I (btx_wrapped tx) 1024 0 now = Ret (t, q)"
    using assms(1) by (auto simp: poll_chunk_round_def outcome)
  obtain s p where "poll_or_else (t, q) (\<lambda>s. bindR (poll_data_to_send s 1024 0 now')
      (\<lambda>(s, r). Ret (s, poll_map CData r))) = Ret (s, p)"
    using assms(1) t by (auto simp: poll_chunk_round_def outcome)
  with t assms show "btx_signal tx' = th # btx_signal tx"
    "r = (case next_timeout (btx_wrapped tx') of None \<Rightarrow> Wait | Some t \<Rightarrow> WaitTimeout (now'' - tm_at t) t)"
    by (cases p; cases "next_timeout s"; auto simp: poll_chunk_round_def Let_def)+
qed

lemma rto_fires:
  assumes "rto_timer s = Some t" and "resend_queue s \<noteq> []"
    and "\<not> timer_matches (shutdown_rto_timer s) t" and "\<not> timer_matches (heartbeat_timer s) t"
  shows "handle_timeout s t = Ret (handle_rto_timeout s t)"
    and "cg_state (primary_congestion (handle_rto_timeout s t)) = LossRecovery"
    and "cwnd (primary_congestion (handle_rto_timeout s t)) = initial_window (pmcds (primary_congestion s))"
  using assms
  by (simp_all add: handle_timeout_def rto_timeout_timers timer_matches_def [of "Some t"])
     (simp_all add: handle_rto_timeout_def set_rto_timeout_def cong_rto_expired_def change_state_def Let_def)

subsection \<open>Properties\<close>

lemma blocking_reachable:
  "list_all blocking_op_ok ops \<Longrightarrow> runR (blocking_apply crc I hash) ops (blocking_init st) = Ret w \<Longrightarrow>
   blocking_inv crc I hash w"
  using blocking_sys.run_inv blocking_init_inv by blast

text \<open>
  C6. The blocking wrapper refines the core. In every state that any interleaving of threads reaches, the
  endpoint is in a state that the operations of the endpoint reach, with nothing left that was not passed
  on; every association the wrapper ever made consists of a transmitter and a receiver in states that
  their operations reach from new, for the same identifier; and the table leads from an identifier to
  its own association. So what is shown of the core holds: the counters of each transmitter
  are exact, the buffer of each receiver is within its limit, and polling either of them for data does not panic.
\<close>

theorem blocking_refines_core:
  assumes "list_all blocking_op_ok ops" and "runR (blocking_apply crc I hash) ops (blocking_init st) = Ret w"
  shows "ep_reached crc I hash (bs_sctp (bw w)) \<and> sc_new_assoc (bs_sctp (bw w)) = None
    \<and> sc_tx_notifications (bs_sctp (bw w)) = [] \<and> sc_rx_notifications (bs_sctp (bw w)) = []
    \<and> (\<forall>a \<in> set (bs_store (bw w)). (\<exists>i. tx_reached I i (btx_of a) \<and> rx_reached i (brx_of a))
        \<and> tx_assert_invariants (btx_of a) \<and> current_in_buffer (brx_of a) \<le> in_buffer_limit (brx_of a)
        \<and> (\<forall>limit packed now. returns (poll_data_to_send (btx_of a) limit packed now)) \<and> returns (poll_data (brx_of a)))
    \<and> (\<forall>i h. map_of (bs_assocs (bw w)) i = Some h \<longrightarrow> h < length (bs_store (bw w))
        \<and> tx_reached I i (btx_of (bs_store (bw w) ! h)) \<and> rx_reached i (brx_of (bs_store (bw w) ! h)))"
proof -
  note inv = blocking_reachable [OF assms]
  have "(\<exists>i. tx_reached I i (btx_of a) \<and> rx_reached i (brx_of a))
      \<and> tx_assert_invariants (btx_of a) \<and> current_in_buffer (brx_of a) \<le> in_buffer_limit (brx_of a)
      \<and> (\<forall>limit packed now. returns (poll_data_to_send (btx_of a) limit packed now)) \<and> returns (poll_data (brx_of a))"
    if "a \<in> set (bs_store (bw w))" for a
  proof -
    obtain i where "bassoc_ok I i a" using inv \<open>a \<in> set (bs_store (bw w))\<close> unfolding blocking_inv_def wired_def by blast
    then show ?thesis using reached_core [of I i "btx_of a" i "brx_of a"] by (auto simp: bassoc_ok_def)
  qed
  moreover have "h < length (bs_store (bw w)) \<and> bassoc_ok I i (bs_store (bw w) ! h)"
    if "map_of (bs_assocs (bw w)) i = Some h" for i h
    using inv that unfolding blocking_inv_def wired_def by blast
  ultimately show ?thesis using inv by (auto simp: blocking_inv_def bfront_ok_def bassoc_ok_def)
qed

theorem blocking_refines_core_witness:
  "\<exists>ops w. runR bdemo_step ops (blocking_init demo_server_settings) = Ret w
     \<and> map_of (bs_assocs (bw w)) (AssocId 2) = Some 0
     \<and> tx_reached fake_addr_socket (AssocId 2) (btx_of (bs_store (bw w) ! 0))
     \<and> send_next (btx_of (bs_store (bw w) ! 0)) \<noteq> []"
proof -
  obtain data s a where run: "runR bdemo_step [BReceive data (IpV4 1) 0 0 0, BDeliver 0, BDeliver 0, BNotify]
      (blocking_init demo_server_settings) = Ret (bdemo_world s a)"
    by (rule bdemo_established)
  have entry: "map_of (bs_assocs (bw (bdemo_world s a))) (AssocId 2) = Some 0" by (simp add: bdemo_world_def)
  then have "tx_reached fake_addr_socket (AssocId 2) (btx_of (bs_store (bw (bdemo_world s a)) ! 0))"
    using blocking_refines_core [OF _ run] by simp
  moreover have "send_next (btx_of (bs_store (bw (bdemo_world s a)) ! 0)) \<noteq> []"
    by (simp add: bdemo_world_def push_send_next_def)
  ultimately show ?thesis using run entry by blast
qed

text \<open>
  C8. No thread sleeps through what it waits for. In every reachable state a thread sleeps in \<open>recv_data\<close>
  only while polling would find nothing; one sleeps in \<open>accept\<close> or \<open>connect\<close> while an association is ready only if
  another thread is about to notify it (it holds the lock in \<open>receive_data\<close>, or has just given it back);
  the main loop sleeps only while nothing is to be sent, so that the INIT of \<open>connect\<close> always goes out, and
  when it has been killed, only until the notification that \<open>kill\<close> is about to make. And whenever a step makes
  room in the send buffer of an association, no sender of it is left asleep.
\<close>

theorem blocking_no_lost_wakeups:
  assumes "list_all blocking_op_ok ops" and "runR (blocking_apply crc I hash) ops (blocking_init st) = Ret w"
    and "blocking_op_ok e" and "blocking_apply crc I hash e w = Ret w'"
  shows "(\<forall>a \<in> set (bs_store (bw w')). brx_signal (ba_rx a) \<noteq> [] \<longrightarrow> poll_data (brx_of a) = Ret (brx_of a, NoneAvailable))
    \<and> (\<forall>th. Acceptor th \<in> set (bs_signal (bw w')) \<longrightarrow>
        bs_ready_assocs (bw w') = [] \<or> 0 < notifies w' \<or> BTodoRelease \<in> set (btodo w'))
    \<and> (\<forall>th. MainLoop th \<in> set (bs_signal (bw w')) \<longrightarrow>
        sc_send_immediate (bs_sctp (bw w')) = [] \<and> (bs_done (bw w') \<longrightarrow> 0 < notifies w'))
    \<and> (\<forall>h < length (bs_store (bw w)).
        current_out_buffered (btx_of (bs_store (bw w') ! h)) < current_out_buffered (btx_of (bs_store (bw w) ! h))
        \<longrightarrow> btx_signal (ba_tx (bs_store (bw w') ! h)) = [])"
proof -
  note inv' = blocking_apply_inv [OF blocking_reachable [OF assms(1,2)] assms(3,4)]
  have "brx_signal (ba_rx a) \<noteq> [] \<longrightarrow> poll_data (brx_of a) = Ret (brx_of a, NoneAvailable)"
    if "a \<in> set (bs_store (bw w'))" for a
  proof -
    obtain i where "bassoc_ok I i a" using inv' \<open>a \<in> set (bs_store (bw w'))\<close> unfolding blocking_inv_def wired_def by blast
    then show ?thesis by (simp add: bassoc_ok_def)
  qed
  moreover have "bs_ready_assocs (bw w') = [] \<or> 0 < notifies w' \<or> BTodoRelease \<in> set (btodo w')"
    if "Acceptor th \<in> set (bs_signal (bw w'))" for th
    using inv' that unfolding blocking_inv_def accepted_ok_def by blast
  moreover have "sc_send_immediate (bs_sctp (bw w')) = [] \<and> (bs_done (bw w') \<longrightarrow> 0 < notifies w')"
    if "MainLoop th \<in> set (bs_signal (bw w'))" for th
    using inv' that unfolding blocking_inv_def main_ok_def by blast
  moreover have "btx_signal (ba_tx (bs_store (bw w') ! h)) = []" if "h < length (bs_store (bw w))"
    "current_out_buffered (btx_of (bs_store (bw w') ! h)) < current_out_buffered (btx_of (bs_store (bw w) ! h))" for h
    using blocking_room [OF assms(3,4) that(1)] that(2) by (auto simp: senders_woken_def)
  ultimately show ?thesis by blast
qed

theorem blocking_no_lost_wakeups_witness:
  "\<exists>ops w w'. runR bdemo_step ops (blocking_init demo_server_settings) = Ret w \<and> bdemo_step (BRecv 0 7) w = Ret w'
     \<and> brx_signal (ba_rx (bs_store (bw w') ! 0)) = [7]
     \<and> poll_data (brx_of (bs_store (bw w') ! 0)) = Ret (brx_of (bs_store (bw w') ! 0), NoneAvailable)"
proof -
  obtain data s a where run: "runR bdemo_step [BReceive data (IpV4 1) 0 0 0, BDeliver 0, BDeliver 0, BNotify]
      (blocking_init demo_server_settings) = Ret (bdemo_world s a)"
    and rx: "as_rx a = assoc_rx_new (AssocId 2) 6 1 100"
    by (rule bdemo_established)
  then obtain w' where w': "bdemo_step (BRecv 0 7) (bdemo_world s a) = Ret w'"
    "brx_signal (ba_rx (bs_store (bw w') ! 0)) = [7]" "length (bs_store (bw w')) = 1"
    by (simp add: on_blocking_assoc_def recv_data_round_def poll_data_def pop_next_receive_event_def bdemo_world_def
        assoc_rx_new_def bput_def Let_def)
  from blocking_no_lost_wakeups [OF _ run _ w'(1)] w'
  have "poll_data (brx_of (bs_store (bw w') ! 0)) = Ret (brx_of (bs_store (bw w') ! 0), NoneAvailable)" by simp
  with run w' show ?thesis by blast
qed

text \<open>
  C30. \<open>poll_chunk_to_send\<close> waits for the wrong time, and closing an association makes it panic. It waits for
  the time from the next timeout until now instead of the time from now until the next timeout: not at all
  when the timeout lies ahead, which it then handles at once, and as long as the timeout is overdue
  when it lies behind. (There always is a next timeout.) When the timeout is that of the retransmission
  timer, then without any time having passed the congestion control starts to recover from a loss and the
  window shrinks to its initial size. When the peer has aborted or the shutdown is
  complete, the method panics while it holds the lock of the transmitter.
\<close>

theorem poll_chunk_mistimed:
  assumes "tx_reached I i (btx_wrapped tx)"
  shows "(send_next (btx_wrapped tx) = [] \<and> shutdown_complete (btx_wrapped tx)
      \<longrightarrow> poll_chunk_round I th now now' now'' tx = Panic PanicMessage)
    \<and> (\<forall>tx' r. poll_chunk_round I th now now' now'' tx = Ret (tx', r) \<and> (\<forall>c. r \<noteq> Return c) \<longrightarrow>
        th \<in> set (btx_signal tx')
        \<and> (\<exists>t. next_timeout (btx_wrapped tx') = Some t \<and> r = WaitTimeout (now'' - tm_at t) t
            \<and> (now'' \<le> tm_at t \<longrightarrow> r = WaitTimeout 0 t)
            \<and> (rto_timer (btx_wrapped tx') = Some t \<and> resend_queue (btx_wrapped tx') \<noteq> []
                \<and> \<not> timer_matches (shutdown_rto_timer (btx_wrapped tx')) t
                \<and> \<not> timer_matches (heartbeat_timer (btx_wrapped tx')) t \<longrightarrow>
                (\<exists>tx''. poll_timed_out t tx' = Ret tx''
                  \<and> cg_state (primary_congestion (btx_wrapped tx'')) = LossRecovery
                  \<and> cwnd (primary_congestion (btx_wrapped tx'')) = initial_window (pmcds (primary_congestion (btx_wrapped tx')))))))"
proof (intro conjI impI allI; elim conjE)
  assume "send_next (btx_wrapped tx) = []" and "shutdown_complete (btx_wrapped tx)"
  then show "poll_chunk_round I th now now' now'' tx = Panic PanicMessage"
    by (auto simp: poll_chunk_round_def poll_signal_to_send_def shutdown_complete_def is_completely_shutdown_def
        poll_or_else_def Let_def split: option.splits shutdown_state.splits)
next
  fix tx' r
  assume round: "poll_chunk_round I th now now' now'' tx = Ret (tx', r)" and wait: "\<forall>c. r \<noteq> Return c"
  obtain es where "list_all tx_op_ok es" "runR (tx_apply I) es (btx_wrapped tx) = Ret (btx_wrapped tx')"
    using poll_chunk_round_ops [OF round] by blast
  then have reached: "tx_reached I i (btx_wrapped tx')" by (rule tx_reached_run [OF assms])
  then obtain t where t: "next_timeout (btx_wrapped tx') = Some t" using reached_next_timeout by blast
  have r: "r = WaitTimeout (now'' - tm_at t) t" "btx_signal tx' = th # btx_signal tx"
    using poll_chunk_round_waits [OF round wait] t by auto
  then show "th \<in> set (btx_signal tx')" by simp
  have "\<exists>tx''. poll_timed_out t tx' = Ret tx'' \<and> cg_state (primary_congestion (btx_wrapped tx'')) = LossRecovery
      \<and> cwnd (primary_congestion (btx_wrapped tx'')) = initial_window (pmcds (primary_congestion (btx_wrapped tx')))"
    if "rto_timer (btx_wrapped tx') = Some t" "resend_queue (btx_wrapped tx') \<noteq> []"
      "\<not> timer_matches (shutdown_rto_timer (btx_wrapped tx')) t" "\<not> timer_matches (heartbeat_timer (btx_wrapped tx')) t"
    using that rto_fires [of "btx_wrapped tx'" t] by (auto simp: poll_timed_out_def)
  with r t show "\<exists>t. next_timeout (btx_wrapped tx') = Some t \<and> r = WaitTimeout (now'' - tm_at t) t
      \<and> (now'' \<le> tm_at t \<longrightarrow> r = WaitTimeout 0 t)
      \<and> (rto_timer (btx_wrapped tx') = Some t \<and> resend_queue (btx_wrapped tx') \<noteq> []
          \<and> \<not> timer_matches (shutdown_rto_timer (btx_wrapped tx')) t
          \<and> \<not> timer_matches (heartbeat_timer (btx_wrapped tx')) t \<longrightarrow>
          (\<exists>tx''. poll_timed_out t tx' = Ret tx'' \<and> cg_state (primary_congestion (btx_wrapped tx'')) = LossRecovery
            \<and> cwnd (primary_congestion (btx_wrapped tx'')) = initial_window (pmcds (primary_congestion (btx_wrapped tx')))))"
    by (intro exI [of _ t]) simp
qed

text \<open>A transmitter after three heartbeat timeouts, two heartbeats and a message of three bytes sent.\<close>

definition bdemo_beating :: "u64 assoc_tx" where
  "bdemo_beating = demo_tx\<lparr>timer_ctr := 4, heartbeat_timer := Some \<lparr>tm_marker = 3, tm_at = 4110000000\<rparr>,
     heartbeats_unacked := 1, tx_pmtu_probe := \<lparr>last_tested_size = 3120, highest_successful = 1200,
       last_success = False, probe_in_flight = True\<rparr>\<rparr>"

definition bdemo_tx :: "u64 blocking_tx" where
  "bdemo_tx = \<lparr>btx_wrapped = bdemo_beating\<lparr>resend_queue := [resend_entry_new (demo_chunk\<lparr>dc_tsn := 10\<rparr>) 0], tx_tsn_counter := 11,
     current_out_buffered := 3, current_in_flight := 3, tx_per_stream := [0, 1], peer_rcv_window := 49997,
     tx_srtt := tsn_sent srtt_new 10 0, timer_ctr := 5, rto_timer := Some \<lparr>tm_marker = 4, tm_at = 3000000000\<rparr>\<rparr>, btx_signal = []\<rparr>"

lemma bdemo_beating_run:
  "runR (tx_apply fake_addr_u64) [OpTimeout \<lparr>tm_marker = 0, tm_at = 10000000\<rparr>, OpPollSignal 1024 0 0,
     OpTimeout \<lparr>tm_marker = 1, tm_at = 110000000\<rparr>, OpTimeout \<lparr>tm_marker = 2, tm_at = 2110000000\<rparr>, OpPollSignal 1024 0 0]
     demo_tx = Ret bdemo_beating"
  by (simp add: bdemo_beating_def demo_tx_def handle_timeout_def timer_matches_def handle_heartbeat_timeout_def pmtu_new_def
      next_probe_size_def set_heartbeat_timeout_def push_send_next_def next_probe_def from_millis_def PROBE_STEP_SIZE_def
      probe_timed_out_def usize_sub_def poll_signal_to_send_def get_pmtu_def Let_def)

lemma bdemo_tx_run:
  "runR (tx_apply fake_addr_u64) [OpSend [1, 2, 3] 1 5 False False, OpPollData 1024 0 0] bdemo_beating = Ret (btx_wrapped bdemo_tx)"
  by (simp add: bdemo_tx_def bdemo_beating_def demo_tx_def demo_chunk_def try_send_data_def seq_increase_def
      poll_data_to_send_def poll_new_data_def next_new_chunk_def word_sub_def as_u32_def get_pmtu_def tsn_increase_def
      set_rto_timeout_def rto_duration_def srtt_new_def tsn_sent_def from_secs_def Let_def)

lemma bdemo_tx_reached: "tx_reached fake_addr_u64 (AssocId 1) (btx_wrapped bdemo_tx)"
proof -
  have "runR (tx_apply fake_addr_u64) [] demo_tx = Ret demo_tx" "list_all tx_op_ok []" by simp_all
  with demo_tx_new have "tx_reached fake_addr_u64 (AssocId 1) demo_tx" unfolding tx_reached_def by blast
  then have "tx_reached fake_addr_u64 (AssocId 1) bdemo_beating"
    by (rule tx_reached_run [OF _ _ bdemo_beating_run]) simp
  then show ?thesis by (rule tx_reached_run [OF _ _ bdemo_tx_run]) simp
qed

theorem poll_chunk_mistimed_witness:
  "\<exists>tx' tx'' t. poll_chunk_round fake_addr_u64 7 0 0 0 bdemo_tx = Ret (tx', WaitTimeout 0 t) \<and> tm_at t = 3000000000
     \<and> poll_timed_out t tx' = Ret tx'' \<and> cg_state (primary_congestion (btx_wrapped tx'')) = LossRecovery"
proof -
  let ?tx = "bdemo_tx\<lparr>btx_signal := [7]\<rparr>" and ?t = "\<lparr>tm_marker = 4, tm_at = 3000000000\<rparr> :: timer"
  have round: "poll_chunk_round fake_addr_u64 7 0 0 0 bdemo_tx = Ret (?tx, WaitTimeout 0 ?t)"
    by (simp add: bdemo_tx_def bdemo_beating_def demo_tx_def poll_chunk_round_def poll_signal_to_send_def poll_or_else_def
        poll_data_to_send_def poll_new_data_def poll_map_def next_timeout_def find_next_timer_def timer_min_def timer_cmp_def
        get_pmtu_def pmtu_new_def Let_def)
  have first: "next_timeout (btx_wrapped ?tx) = Some ?t" "rto_timer (btx_wrapped ?tx) = Some ?t"
    "resend_queue (btx_wrapped ?tx) \<noteq> []" "\<not> timer_matches (shutdown_rto_timer (btx_wrapped ?tx)) ?t"
    "\<not> timer_matches (heartbeat_timer (btx_wrapped ?tx)) ?t"
    by (simp_all add: bdemo_tx_def bdemo_beating_def demo_tx_def next_timeout_def find_next_timer_def timer_min_def timer_cmp_def timer_matches_def)
  obtain t where "next_timeout (btx_wrapped ?tx) = Some t"
    "rto_timer (btx_wrapped ?tx) = Some t \<and> resend_queue (btx_wrapped ?tx) \<noteq> []
       \<and> \<not> timer_matches (shutdown_rto_timer (btx_wrapped ?tx)) t
       \<and> \<not> timer_matches (heartbeat_timer (btx_wrapped ?tx)) t \<longrightarrow>
     (\<exists>tx''. poll_timed_out t ?tx = Ret tx'' \<and> cg_state (primary_congestion (btx_wrapped tx'')) = LossRecovery)"
    using poll_chunk_mistimed [OF bdemo_tx_reached, of 7 0 0 0] round by blast
  with first obtain tx'' where "poll_timed_out ?t ?tx = Ret tx''"
    "cg_state (primary_congestion (btx_wrapped tx'')) = LossRecovery" by auto
  with round show ?thesis by (intro exI [of _ ?tx] exI [of _ tx''] exI [of _ ?t]) simp
qed

end
