(* ===== verification/Spec2Isabelle.thy ===== *)
theory Spec2Isabelle
  imports Composition Async_Props Blocking_Props
begin

text \<open>
  Verification of \<^verbatim>\<open>rusctp\<close>, an implementation of SCTP in Rust without input and output of its own
  (the crate is driven by its caller, who passes packets and the time in and takes packets,
  timers and messages out).

  \<^bold>\<open>The program and its parts.\<close> An endpoint (\<^verbatim>\<open>src/lib.rs\<close>, \<^verbatim>\<open>src/assoc/init.rs\<close>) owns the half-open
  handshakes, the table of associations and the aliases under which their peers send. It parses
  packets (\<^verbatim>\<open>src/packet.rs\<close> and \<^verbatim>\<open>src/packet/\<close>), answers INITs with cookies, makes associations, and
  turns the other chunks into notifications. An association (\<^verbatim>\<open>src/assoc.rs\<close>) is a transmitter
  (\<^verbatim>\<open>src/assoc/tx.rs\<close> with \<^verbatim>\<open>tx/ack.rs\<close>, \<^verbatim>\<open>tx/timeouts.rs\<close>, \<^verbatim>\<open>tx/congestion.rs\<close>, \<^verbatim>\<open>tx/pmtu.rs\<close> and
  \<^verbatim>\<open>assoc/srtt.rs\<close>) and a receiver (\<^verbatim>\<open>src/assoc/rx.rs\<close>), which only talk through notifications. Two
  wrappers drive this core for programs with many tasks (\<^verbatim>\<open>src/assoc_async/assoc.rs\<close>: futures and wakers) or many
  threads (\<^verbatim>\<open>src/assoc_sync/assoc.rs\<close>: locks, condition variables and a main loop): they share the endpoint
  and its associations, pass the notifications on, and put to sleep and wake those who wait.

  \<^bold>\<open>The theories.\<close>
  \<^item> \<open>Rust_Base\<close>: outcomes of Rust code (\<open>Ret\<close> or \<open>Panic\<close>), checked arithmetic, reading and writing
    of byte buffers, ordered maps as sorted association lists searched with the type's own
    comparison, runs of events, and the two locales for components with an invariant.
  \<^item> \<open>Serial\<close>: \<open>Sequence\<close> and \<open>Tsn\<close> with their comparison (\<^verbatim>\<open>packet.rs\<close>). \<open>Addr\<close>: addresses, the
    \<open>FakeAddr\<close> trait as a record of operations and a locale with its two interpretations (\<^verbatim>\<open>lib.rs\<close>).
  \<^item> \<open>Cookie\<close>, \<open>Param\<close>, \<open>Init_Chunks\<close>, \<open>Chunks\<close>: the wire format (\<^verbatim>\<open>packet/cookie.rs\<close>, \<^verbatim>\<open>packet/param.rs\<close>,
    \<^verbatim>\<open>packet/init.rs\<close>, \<^verbatim>\<open>packet/data.rs\<close>, \<^verbatim>\<open>packet/sack.rs\<close>, \<^verbatim>\<open>packet.rs\<close>).
  \<^item> \<open>Congestion\<close>, \<open>Pmtu\<close>, \<open>Srtt\<close>: congestion control, path MTU search, round-trip times.
  \<^item> \<open>Tx\<close>: the transmitter. \<open>Tx_Inv\<close>: its invariant. \<open>Tx_Props\<close>: limits, acknowledgements and
    fragmentation. \<open>Tx_Control\<close>: timers and shutdown.
  \<^item> \<open>Framing\<close>: the specification of fragmentation, which both ends are compared with.
  \<^item> \<open>Rx\<close>: the receiver. \<open>Rx_Inv\<close>: its invariant. \<open>Rx_Props\<close>: acknowledgements, panics and stalls.
    \<open>Delivery\<close>: what is delivered, in any order of arrival.
  \<^item> \<open>Endpoint\<close>: the endpoint. \<open>Endpoint_Inv\<close>: its invariant and the cases of its handlers.
    \<open>Endpoint_Props\<close>: authentication, ABORT, panics. \<open>Handshake\<close>: two endpoints over the wire.
  \<^item> \<open>Composition\<close>: transmitter and receiver together.
  \<^item> \<open>Reached\<close>: states the core reaches through its own operations, the link between the wrappers and the core.
  \<^item> \<open>Async\<close>: the async wrapper. \<open>Async_Steps\<close>: its runs, with the locks cutting methods into steps that
    interleave. \<open>Async_Inv\<close>: its invariant. \<open>Async_Props\<close>: refinement of the core, wake-ups.
  \<^item> \<open>Blocking\<close>, \<open>Blocking_Steps\<close>, \<open>Blocking_Inv\<close>, \<open>Blocking_Props\<close>: the same for the blocking wrapper.

  \<^bold>\<open>How code and model correspond.\<close> Structs are records, enums datatypes, \<open>&mut self\<close> methods functions
  that return the new state, and every panic of the source (checked arithmetic of a debug build,
  \<open>unwrap\<close>, \<open>assert_eq!\<close>, \<open>todo!()\<close>, reading past the end of a buffer) is a \<open>Panic\<close> of the model. Fixed
  width integers are words; \<open>usize\<close> is \<open>nat\<close>, since the quantities counted with it are sizes of memory, and
  its subtractions are checked; \<open>Instant\<close> and \<open>Duration\<close> are natural numbers of nanoseconds. A
  \<open>BTreeMap\<close> is a list sorted by the code's own \<open>Ord\<close>, which for TSNs is no linear order: the lemmas on it hold
  inside a window. A \<open>HashMap\<close> is a partial function. Random numbers, the hash function under the
  cookie's MAC, the CRC and the operations of \<open>FakeAddr\<close> are arguments. In the wrappers an \<open>Arc\<close> to an
  association is a handle into a store, a waker or a thread is a number, a queue of wakers or a condition variable is
  the list of those who wait, and a method is cut into steps where it gives up a lock or
  another task can come in between; each wrapper has lemmas that its steps, run without interruption, are
  the methods.

  \<^bold>\<open>What is shown.\<close> For the wire format: parsing inverts serialization for everything that fits, and
  parsing is total and consumes at least a byte. For the transmitter: its accounting is exact in
  every reachable state, it respects window, path MTU and congestion window, a SACK releases
  exactly what it covers, timers and shutdown follow their state machines, and fragments stand for
  exactly the accepted messages. For the receiver: its accounting is exact, SACKs describe the
  reorder buffer exactly, and the order of arrival does not matter. Together: what is sent is
  read, once and in order. For the endpoint: identifiers are fresh, unauthenticated packets do
  nothing, an INIT allocates nothing, an ABORT removes everything, receiving ends without a panic for
  every input but one kind, and the handshake gives both sides matching parameters. For the wrappers,
  over every interleaving of tasks or threads: they drive the core only through its operations, so that all of
  the above holds inside them, their tables and handles are well formed, and who waits to read, to
  accept or to send is not forgotten. Where the
  code does not do what it means to, the theorem states what it does: see the properties about
  panics, stalls and disagreements.

  \<^bold>\<open>Loops and fuel.\<close> Loops over a buffer recurse on its length, which parsing shortens. The mutual
  recursion of \<open>handle_in_order_packet\<close> and its loop has the number of buffered chunks as fuel, which
  \<open>Rx_Inv\<close> shows to be enough in every reachable state. Everything else is structural.

  \<^bold>\<open>Bounds.\<close> The delivery theorems ask for fewer than \<open>2 ^ 25\<close> chunks and no wrap-around of TSNs, because
  the comparison of TSNs is only an order inside its radius and the gap-block arithmetic of the code
  panics at the wrap-around (which is a theorem of its own).

  \<^bold>\<open>Not modelled.\<close> The example programs and the fuzz target, which only connect the crate to sockets, timers and
  a fuzzer; \<open>Debug\<close> output and \<open>print_state\<close>; tests; the build feature that switches the checksum off for the
  fuzz target. Of what is outside the crate: the executor that polls the futures, the scheduler (any
  interleaving is allowed, fairness is not assumed), and the poisoning of a lock by a panic (a panic ends the run).
\<close>

end
